(* ===== verification/Prelude.thy ===== *)
theory Prelude
  imports Main "HOL-Library.Word"
begin

text \<open>
  The vocabulary shared by every component of the model: the integer widths of the
  C++ sources, the result codes of the C ABI (include/mkvcodec/mkvc.h), the pair of a
  result code and its diagnostic text that the code returns through
  \<^verbatim>\<open>mkvc_result\<close> and \<^verbatim>\<open>std::string& error\<close>, calls that may throw, and the generic
  facts on lists and words that the component theories use.
\<close>

unbundle bit_operations_syntax

section \<open>Machine integers\<close>

type_synonym u8 = "8 word"
type_synonym u32 = "32 word"
type_synonym u64 = "64 word"
type_synonym i32 = "32 word" \<comment> \<open>read with \<open>sint\<close>\<close>
type_synonym i64 = "64 word" \<comment> \<open>read with \<open>sint\<close>\<close>
type_synonym bytes = "8 word list"

section \<open>Result codes and diagnostics\<close>

datatype mkvc_result =
    MKVC_OK
  | MKVC_ERROR_INVALID_ARGUMENT
  | MKVC_ERROR_BUFFER_TOO_SMALL
  | MKVC_ERROR_NOT_SUPPORTED
  | MKVC_ERROR_INTERNAL
  | MKVC_ERROR_INVALID_STATE
  | MKVC_ERROR_IO
  | MKVC_ERROR_CODEC
  | MKVC_END_OF_STREAM
  | MKVC_WOULD_BLOCK
  | MKVC_ERROR_TIMEOUT
  | MKVC_ERROR_CANCELLED

text \<open>
  A function returning \<^verbatim>\<open>mkvc_result\<close> with an error parameter returns a \<open>status\<close>; the
  text is empty where the code leaves the (fresh) error string untouched. A function that
  also produces a value returns an \<open>outcome\<close>.
\<close>

type_synonym status = "mkvc_result \<times> string"
type_synonym 'a outcome = "status + 'a"

abbreviation ok :: status where
  "ok \<equiv> (MKVC_OK, [])"

text \<open>A call that may leave by a C++ exception: \<open>Throws (Some what)\<close> for a
  \<^verbatim>\<open>std::exception\<close>, \<open>Throws None\<close> for anything else.\<close>

datatype 'a call = Returns 'a | Throws "string option"

text \<open>A critical section that starts with a wait on a condition variable: \<open>Blocked\<close> while
  the predicate of the wait is false, otherwise what the section returns.\<close>

datatype 'a section_outcome = Blocked | Passed 'a

section \<open>Proof collections\<close>

named_theorems component_defs \<comment> \<open>definitions a component's proofs unfold\<close>
named_theorems invariant_intros \<comment> \<open>steps that keep a component's invariant\<close>

section \<open>Lists\<close>

text \<open>Reading a block of memory; outside the allocation there is no value.\<close>

definition read_block :: "'a list \<Rightarrow> nat \<Rightarrow> nat \<Rightarrow> 'a list option" where
  "read_block mem off n = (if off + n \<le> length mem then Some (take n (drop off mem)) else None)"

definition write_block :: "'a list \<Rightarrow> nat \<Rightarrow> 'a list \<Rightarrow> 'a list option" where
  "write_block mem off xs =
     (if off + length xs \<le> length mem
      then Some (take off mem @ xs @ drop (off + length xs) mem) else None)"

lemma read_block_Some: "off + n \<le> length mem \<Longrightarrow> read_block mem off n = Some (take n (drop off mem))"
  by (simp add: read_block_def)

lemma read_block_length: "read_block mem off n = Some xs \<Longrightarrow> length xs = n"
  by (auto simp: read_block_def split: if_splits)

lemma write_block_length: "write_block mem off xs = Some mem' \<Longrightarrow> length mem' = length mem"
  by (auto simp: write_block_def split: if_splits)

lemma read_write_block:
  "write_block mem off xs = Some mem' \<Longrightarrow> read_block mem' off (length xs) = Some xs"
  by (auto simp: write_block_def read_block_def split: if_splits)

lemma take_eq_nth_eq: "take n xs = take n ys \<Longrightarrow> i < n \<Longrightarrow> xs ! i = ys ! i"
  by (metis nth_take)

lemma count_list_update_other:
  "i < length xs \<Longrightarrow> count_list (xs[i := y]) z =
     (count_list xs z - (if xs ! i = z then 1 else 0)) + (if y = z then 1 else 0)"
proof (induction xs arbitrary: i)
  case Nil
  then show ?case by simp
next
  case (Cons x xs)
  have pos: "x \<in> set xs \<Longrightarrow> 0 < count_list xs x" for x :: 'a and xs
    by (simp add: count_list_0_iff neq0_conv [symmetric])
  show ?case
  proof (cases i)
    case 0
    then show ?thesis by simp
  next
    case (Suc j)
    with Cons.prems have j: "j < length xs" by simp
    then have "xs ! j \<in> set xs" by simp
    then have "0 < count_list xs (xs ! j)" by (rule pos)
    with Cons.IH [OF j] Suc show ?thesis by auto
  qed
qed

text \<open>Counting the positions of a list that satisfy a predicate.\<close>

definition count_if :: "('a \<Rightarrow> bool) \<Rightarrow> 'a list \<Rightarrow> nat" where
  "count_if P xs = length (filter P xs)"

lemma count_if_Nil [simp]: "count_if P [] = 0"
  by (simp add: count_if_def)

lemma count_if_Cons [simp]: "count_if P (x # xs) = (if P x then Suc (count_if P xs) else count_if P xs)"
  by (simp add: count_if_def)

lemma count_if_append [simp]: "count_if P (xs @ ys) = count_if P xs + count_if P ys"
  by (simp add: count_if_def)

lemma count_if_le: "count_if P xs \<le> length xs"
  by (simp add: count_if_def)

lemma count_if_pos: "i < length xs \<Longrightarrow> P (xs ! i) \<Longrightarrow> 0 < count_if P xs"
  by (auto simp: count_if_def filter_empty_conv intro: nth_mem)

lemma count_if_update:
  "i < length xs \<Longrightarrow> count_if P (xs[i := y]) + (if P (xs ! i) then 1 else 0) =
     count_if P xs + (if P y then 1 else 0)"
proof (induction xs arbitrary: i)
  case Nil
  then show ?case by simp
next
  case (Cons x xs)
  then show ?case by (cases i) auto
qed

lemma count_if_full: "count_if P xs = length xs \<longleftrightarrow> (\<forall>x \<in> set xs. P x)"
proof (induction xs)
  case Nil
  then show ?case by simp
next
  case (Cons x xs)
  have "count_if P xs \<le> length xs" by (rule count_if_le)
  with Cons show ?case by auto
qed

lemma count_if_replicate: "count_if P (replicate n x) = (if P x then n else 0)"
  by (induction n) auto

section \<open>Words\<close>

lemma u8_less_256: "unat (b :: u8) < 256"
  using unsigned_less [of b, where ?'a = nat] by simp

lemma u32_less: "unat (x :: u32) < 4294967296"
  using unsigned_less [of x, where ?'a = nat] by simp

lemma u64_less: "unat (x :: u64) < 18446744073709551616"
  using unsigned_less [of x, where ?'a = nat] by simp

lemma unat_of_nat_u64: "n < 18446744073709551616 \<Longrightarrow> unat (of_nat n :: u64) = n"
  by (simp add: unsigned_of_nat take_bit_nat_eq_self)

text \<open>A signed reading of 32 bits.\<close>

lemma sint_u32: "sint (w :: u32) = (if unat w < 2147483648 then int (unat w) else int (unat w) - 4294967296)"
proof -
  have b: "0 \<le> uint w" "uint w < 4294967296" using uint_lt2p [of w] by simp_all
  have u: "int (unat w) = uint w" by simp
  show ?thesis
  proof (cases "uint w < 2147483648")
    case True
    then have "uint w < 2 ^ 31" by simp
    moreover have "- (2 ^ 31) \<le> uint w" by (rule order.trans [OF _ b(1)]) simp
    ultimately have "signed_take_bit 31 (uint w) = uint w" by (intro signed_take_bit_int_eq_self)
    then have "sint w = uint w" unfolding sint_uint by simp
    moreover have "unat w < 2147483648" using True u by linarith
    ultimately show ?thesis using u by simp
  next
    case False
    have "signed_take_bit 31 (uint w) = signed_take_bit 31 (uint w - 4294967296)"
      by (rule signed_take_bit_eq_iff_take_bit_eq [THEN iffD2]) (simp add: take_bit_eq_mod)
    also have "\<dots> = uint w - 4294967296" using b False by (intro signed_take_bit_int_eq_self) simp_all
    finally have "sint w = uint w - 4294967296" unfolding sint_uint by simp
    moreover have "\<not> unat w < 2147483648" using False u by linarith
    ultimately show ?thesis using u by simp
  qed
qed

text \<open>Products of 32-bit values and guarded sums in 64 bits.\<close>

lemma unat_ucast_u32: "unat (ucast (x :: u32) :: u64) = unat x"
  using u32_less [of x] by (simp add: unsigned_ucast_eq take_bit_nat_eq_self)

lemma unat_product: "unat (ucast (a :: u32) * ucast (b :: u32) :: u64) = unat a * unat b"
proof -
  have "unat a * unat b < 4294967296 * 4294967296" using u32_less [of a] u32_less [of b] by (intro mult_strict_mono') simp_all
  then show ?thesis using unat_mult_lem [of "ucast a :: u64" "ucast b"] by (simp add: unat_ucast_u32)
qed

lemma unat_quotient:
  "unat (ucast (a :: u32) * ucast (b :: u32) div ucast (c :: u32) :: u64) = unat a * unat b div unat c"
  by (simp add: unat_div unat_product unat_ucast_u32)

lemma u64_sum_fits: "\<not> a > - 1 - b \<Longrightarrow> unat (a + b) = unat a + unat (b :: u64)"
proof -
  assume fits: "\<not> a > - 1 - b"
  have "unat b + unat (- 1 - b) = unat (- 1 :: u64)"
    using word_order.extremum [of b] by (subst unat_sub) (simp_all add: word_le_nat_alt)
  then have "unat a + unat b \<le> unat (- 1 :: u64)"
    using fits by (simp add: word_less_nat_alt not_less)
  moreover have "unat (- 1 :: u64) = 2 ^ 64 - 1" by (simp add: unsigned_minus_1_eq_mask mask_eq_exp_minus_1)
  ultimately show ?thesis by (simp add: unat_word_ariths)
qed

end
