(* ===== verification/Abi.thy ===== *)
theory Abi
  imports Prelude
begin

text \<open>
  The public C structures of include/mkvcodec/mkvc.h that cross component borders: the
  enumerations are the 32-bit values the ABI fixes, a struct is a record, a
  \<^verbatim>\<open>const char*\<close> is an optional string and a plane pointer an optional block of memory with
  its address. The fixed four-element arrays of planes and strides are functions of the
  index. Then the validators of src/c_api_validation.hpp and the configuration validators of
  the encoder and decoder C layers.
\<close>

section \<open>Enumerations\<close>

abbreviation MKVC_BACKEND_CPU :: u32 where "MKVC_BACKEND_CPU \<equiv> 1"
abbreviation MKVC_BACKEND_NVIDIA :: u32 where "MKVC_BACKEND_NVIDIA \<equiv> 2"
abbreviation MKVC_BACKEND_INTEL :: u32 where "MKVC_BACKEND_INTEL \<equiv> 3"

abbreviation MKVC_CODEC_AUTO :: u32 where "MKVC_CODEC_AUTO \<equiv> 0"
abbreviation MKVC_CODEC_VP9 :: u32 where "MKVC_CODEC_VP9 \<equiv> 1"
abbreviation MKVC_CODEC_AV1 :: u32 where "MKVC_CODEC_AV1 \<equiv> 2"

abbreviation MKVC_PIXEL_FORMAT_I420 :: u32 where "MKVC_PIXEL_FORMAT_I420 \<equiv> 1"
abbreviation MKVC_PIXEL_FORMAT_NV12 :: u32 where "MKVC_PIXEL_FORMAT_NV12 \<equiv> 2"
abbreviation MKVC_PIXEL_FORMAT_BGR24 :: u32 where "MKVC_PIXEL_FORMAT_BGR24 \<equiv> 3"
abbreviation MKVC_PIXEL_FORMAT_RGB24 :: u32 where "MKVC_PIXEL_FORMAT_RGB24 \<equiv> 4"
abbreviation MKVC_PIXEL_FORMAT_BGRA32 :: u32 where "MKVC_PIXEL_FORMAT_BGRA32 \<equiv> 5"
abbreviation MKVC_PIXEL_FORMAT_P010 :: u32 where "MKVC_PIXEL_FORMAT_P010 \<equiv> 6"

abbreviation MKVC_COPY_PATH_UNKNOWN :: u32 where "MKVC_COPY_PATH_UNKNOWN \<equiv> 0"
abbreviation MKVC_COPY_PATH_CPU :: u32 where "MKVC_COPY_PATH_CPU \<equiv> 1"
abbreviation MKVC_COPY_PATH_ZERO_COPY :: u32 where "MKVC_COPY_PATH_ZERO_COPY \<equiv> 2"
abbreviation MKVC_COPY_PATH_MIXED :: u32 where "MKVC_COPY_PATH_MIXED \<equiv> 3"

abbreviation MKVC_FRAME_FIT_STRETCH :: u32 where "MKVC_FRAME_FIT_STRETCH \<equiv> 0"
abbreviation MKVC_FRAME_FIT_CONTAIN :: u32 where "MKVC_FRAME_FIT_CONTAIN \<equiv> 1"
abbreviation MKVC_FRAME_FIT_COVER :: u32 where "MKVC_FRAME_FIT_COVER \<equiv> 2"

abbreviation MKVC_SUBMISSION_PENDING :: u32 where "MKVC_SUBMISSION_PENDING \<equiv> 0"
abbreviation MKVC_SUBMISSION_COMPLETE :: u32 where "MKVC_SUBMISSION_COMPLETE \<equiv> 1"
abbreviation MKVC_SUBMISSION_FAILED :: u32 where "MKVC_SUBMISSION_FAILED \<equiv> 2"
abbreviation MKVC_SUBMISSION_CANCELLED :: u32 where "MKVC_SUBMISSION_CANCELLED \<equiv> 3"

abbreviation MKVC_CPU_LAYOUT_ALLOW_COPY :: u32 where "MKVC_CPU_LAYOUT_ALLOW_COPY \<equiv> 0"
abbreviation MKVC_CPU_LAYOUT_STRICT :: u32 where "MKVC_CPU_LAYOUT_STRICT \<equiv> 1"

abbreviation MKVC_CPU_MEMORY_PAGEABLE :: u32 where "MKVC_CPU_MEMORY_PAGEABLE \<equiv> 0"
abbreviation MKVC_CPU_MEMORY_PAGE_LOCKED :: u32 where "MKVC_CPU_MEMORY_PAGE_LOCKED \<equiv> 1"

section \<open>Structures\<close>

record mem_ptr =
  address :: u64
  memory :: bytes

type_synonym ptr = "mem_ptr option"

record frame_view =
  fv_struct_size :: u32
  fv_struct_version :: u32
  fv_pixel_format :: u32
  fv_width :: u32
  fv_height :: u32
  fv_planes :: "nat \<Rightarrow> ptr"
  fv_strides :: "nat \<Rightarrow> i32"
  fv_pts :: i64

text \<open>\<^verbatim>\<open>mkvc_mutable_frame_view\<close> has the same layout as the borrowed view.\<close>

type_synonym mutable_frame_view = frame_view

record encoder_config =
  ec_struct_size :: u32
  ec_struct_version :: u32
  ec_output_path :: "string option"
  ec_codec :: u32
  ec_backend :: u32
  ec_width :: u32
  ec_height :: u32
  ec_fps_num :: u32
  ec_fps_den :: u32
  ec_quality :: u32
  ec_keyframe_interval_frames :: u32
  ec_threads :: u32
  ec_queue_size :: u32

record decoder_config =
  dc_struct_size :: u32
  dc_struct_version :: u32
  dc_input_path :: "string option"
  dc_codec :: u32
  dc_backend :: u32
  dc_threads :: u32
  dc_prefetch :: u32

record copy_policy =
  cp_struct_size :: u32
  cp_struct_version :: u32
  cp_require_gpu_resident :: u32
  cp_allow_gpu_copy :: u32
  cp_allow_cpu_copy :: u32

record cpu_layout_policy =
  lp_struct_size :: u32
  lp_struct_version :: u32
  lp_mode :: u32
  lp_required_alignment :: u32

record video_info =
  vi_struct_size :: u32
  vi_struct_version :: u32
  vi_codec :: u32
  vi_width :: u32
  vi_height :: u32
  vi_fps_num :: u32
  vi_fps_den :: u32
  vi_duration_ns :: i64
  vi_frame_count :: u64
  vi_fps_known :: u32
  vi_duration_known :: u32
  vi_frame_count_known :: u32

record backend_capability =
  bc_backend :: u32
  bc_codec :: u32
  bc_can_decode :: u8
  bc_can_encode :: u8
  bc_is_hardware :: u8

record pipeline_metrics =
  pm_accepted_frames :: u64
  pm_completed_frames :: u64
  pm_rejected_frames :: u64
  pm_queue_wait_ns :: u64
  pm_backend_time_ns :: u64
  pm_queue_capacity :: u32
  pm_peak_queue_depth :: u32
  pm_hardware_pending_peak :: u32
  pm_copy_path :: u32

text \<open>The sizes the validators compare \<^verbatim>\<open>struct_size\<close> with (LP64 layout).\<close>

abbreviation sizeof_frame_view :: u32 where "sizeof_frame_view \<equiv> 80"
abbreviation sizeof_encoder_config :: u32 where "sizeof_encoder_config \<equiv> 56"
abbreviation sizeof_decoder_config :: u32 where "sizeof_decoder_config \<equiv> 32"
abbreviation sizeof_copy_policy :: u32 where "sizeof_copy_policy \<equiv> 20"
abbreviation sizeof_cpu_layout_policy :: u32 where "sizeof_cpu_layout_policy \<equiv> 16"
abbreviation sizeof_pipeline_metrics :: u32 where "sizeof_pipeline_metrics \<equiv> 64"
abbreviation sizeof_stage_metrics :: u32 where "sizeof_stage_metrics \<equiv> 88"
abbreviation sizeof_component_metrics :: u32 where "sizeof_component_metrics \<equiv> 72"
abbreviation sizeof_copy_edge_metrics :: u32 where "sizeof_copy_edge_metrics \<equiv> 72"
abbreviation sizeof_video_info :: u32 where "sizeof_video_info \<equiv> 64"

section \<open>Validators of versioned structures\<close>

definition valid_copy_policy :: "copy_policy option \<Rightarrow> bool" where
  "valid_copy_policy policy = (case policy of None \<Rightarrow> False
     | Some p \<Rightarrow> cp_struct_size p \<ge> sizeof_copy_policy \<and> cp_struct_version p = 1)"

definition valid_cpu_layout_policy :: "cpu_layout_policy option \<Rightarrow> bool" where
  "valid_cpu_layout_policy policy = (case policy of None \<Rightarrow> False
     | Some p \<Rightarrow>
         if lp_struct_size p < sizeof_cpu_layout_policy \<or> lp_struct_version p \<noteq> 1 \<or>
            lp_mode p > MKVC_CPU_LAYOUT_STRICT then False
         else let alignment = lp_required_alignment p in
              alignment \<noteq> 0 \<and> alignment \<le> 4096 \<and> alignment AND (alignment - 1) = 0)"

text \<open>A caller's metrics or info destination: its size and version words, if not null.\<close>

type_synonym out_struct = "(u32 \<times> u32) option"

definition valid_output :: "u32 \<Rightarrow> out_struct \<Rightarrow> bool" where
  "valid_output needed out = (case out of None \<Rightarrow> False
     | Some (struct_size, struct_version) \<Rightarrow> struct_size \<ge> needed \<and> struct_version = 1)"

definition valid_metrics_output :: "out_struct \<Rightarrow> bool" where
  "valid_metrics_output metrics = valid_output sizeof_pipeline_metrics metrics"

definition valid_stage_metrics_output :: "out_struct \<Rightarrow> bool" where
  "valid_stage_metrics_output metrics = valid_output sizeof_stage_metrics metrics"

definition valid_component_metrics_output :: "out_struct \<Rightarrow> bool" where
  "valid_component_metrics_output metrics = valid_output sizeof_component_metrics metrics"

definition valid_copy_edge_metrics_output :: "out_struct \<Rightarrow> bool" where
  "valid_copy_edge_metrics_output metrics = valid_output sizeof_copy_edge_metrics metrics"

definition valid_encoder_config :: "encoder_config option \<Rightarrow> bool" where
  "valid_encoder_config config = (case config of None \<Rightarrow> False | Some c \<Rightarrow>
     ec_struct_size c \<ge> sizeof_encoder_config \<and> ec_struct_version c = 1 \<and>
     ec_output_path c \<noteq> None \<and> ec_output_path c \<noteq> Some [] \<and>
     (ec_codec c = MKVC_CODEC_VP9 \<or> ec_codec c = MKVC_CODEC_AV1) \<and>
     (ec_backend c = MKVC_BACKEND_CPU \<or> ec_backend c = MKVC_BACKEND_INTEL \<or>
      ec_backend c = MKVC_BACKEND_NVIDIA) \<and>
     ec_width c \<noteq> 0 \<and> ec_height c \<noteq> 0 \<and> ec_width c AND 1 = 0 \<and> ec_height c AND 1 = 0 \<and>
     ec_fps_num c \<noteq> 0 \<and> ec_fps_den c \<noteq> 0 \<and> ec_quality c \<le> 63 \<and>
     ec_width c \<le> 2147483647 div 4 \<and> ec_height c \<le> 2147483647)"

definition valid_frame_view :: "frame_view option \<Rightarrow> bool" where
  "valid_frame_view frame = (case frame of None \<Rightarrow> False
     | Some f \<Rightarrow> fv_struct_size f \<ge> sizeof_frame_view \<and> fv_struct_version f = 1)"

definition valid_decoder_config :: "decoder_config option \<Rightarrow> bool" where
  "valid_decoder_config config = (case config of None \<Rightarrow> False | Some c \<Rightarrow>
     dc_struct_size c \<ge> sizeof_decoder_config \<and> dc_struct_version c = 1 \<and>
     dc_input_path c \<noteq> None \<and> dc_input_path c \<noteq> Some [] \<and>
     (dc_codec c = MKVC_CODEC_AUTO \<or> dc_codec c = MKVC_CODEC_VP9 \<or> dc_codec c = MKVC_CODEC_AV1) \<and>
     (dc_backend c = MKVC_BACKEND_CPU \<or> dc_backend c = MKVC_BACKEND_INTEL \<or>
      dc_backend c = MKVC_BACKEND_NVIDIA))"

section \<open>Arithmetic of the validated sizes\<close>

text \<open>Even and positive 32-bit dimensions, as every frame check of the library demands.\<close>

lemma even_word_iff: "(x :: u32) AND 1 = 0 \<longleftrightarrow> even (unat x)"
  by (simp add: and_one_eq even_iff_mod_2_eq_zero word_unat_eq_iff unat_mod)

end
