(* ===== verification/CpuFrame.thy ===== *)
theory CpuFrame
  imports Abi
begin

text \<open>
  CPU frames on their way into an encoder: the validators and the deep copy of
  src/encoder/cpu_frame_copy.cpp and the conversions into the codec's staging buffer of
  src/encoder/cpu_frame_to_i420.cpp and cpu_frame_to_nv12.cpp. A plane pointer carries the
  block of memory that may be read through it; an access outside a block is undefined in C++
  and is the outcome \<open>None\<close> here. The pixel conversions of libyuv, which is not part of the
  sources, are the fields of the record \<open>libyuv\<close>: what each call returns and what it writes
  to its destination planes.

  The facts: a frame that passed validation is never rejected by the copy, the copy holds
  exactly the rows of the source without their padding, its view is again valid and packed,
  and the staging buffer of the codec receives the planes back to back.
\<close>

section \<open>Copying rows\<close>

text \<open>The byte offset \<^verbatim>\<open>static_cast<size_t>(row) * stride\<close>: a negative stride is converted to
  \<^verbatim>\<open>size_t\<close> first.\<close>

definition row_offset :: "nat \<Rightarrow> i32 \<Rightarrow> nat" where
  "row_offset row stride = unat (of_nat row * (scast stride :: u64))"

fun gather_rows :: "bytes \<Rightarrow> i32 \<Rightarrow> nat \<Rightarrow> nat \<Rightarrow> bytes option" where
  "gather_rows mem stride row_bytes 0 = Some []"
| "gather_rows mem stride row_bytes (Suc row) =
     (case gather_rows mem stride row_bytes row of
        None \<Rightarrow> None
      | Some copied \<Rightarrow>
          (case read_block mem (row_offset row stride) row_bytes of
             None \<Rightarrow> None
           | Some bs \<Rightarrow> Some (copied @ bs)))"

text \<open>\<^verbatim>\<open>copy_plane\<close> of cpu_frame_copy.cpp: \<open>Some None\<close> where it returns false.\<close>

definition copy_plane :: "ptr \<Rightarrow> i32 \<Rightarrow> u32 \<Rightarrow> u32 \<Rightarrow> (bytes \<times> i32) option option" where
  "copy_plane source source_stride row_bytes rows =
     (case source of
        None \<Rightarrow> Some None
      | Some p \<Rightarrow>
          if source_stride <s row_bytes then Some None
          else (case gather_rows (memory p) source_stride (unat row_bytes) (unat rows) of
                  None \<Rightarrow> None
                | Some copied \<Rightarrow> Some (Some (copied, row_bytes))))"

section \<open>Frames owned by the queue\<close>

record owned_frame =
  of_pixel_format :: u32
  of_width :: u32
  of_height :: u32
  of_pts :: i64
  of_planes :: "nat \<Rightarrow> bytes"
  of_strides :: "nat \<Rightarrow> i32"

definition new_owned_frame :: owned_frame where
  "new_owned_frame = \<lparr>of_pixel_format = 0, of_width = 0, of_height = 0, of_pts = - 1,
     of_planes = (\<lambda>_. []), of_strides = (\<lambda>_. 0)\<rparr>"

text \<open>\<open>address_of\<close> gives the address each vector's data happens to have.\<close>

definition owned_view :: "(nat \<Rightarrow> u64) \<Rightarrow> owned_frame \<Rightarrow> frame_view" where
  "owned_view address_of f = \<lparr>fv_struct_size = sizeof_frame_view, fv_struct_version = 1,
     fv_pixel_format = of_pixel_format f, fv_width = of_width f, fv_height = of_height f,
     fv_planes = (\<lambda>i. if i < 3 \<and> of_planes f i \<noteq> []
                      then Some \<lparr>address = address_of i, memory = of_planes f i\<rparr> else None),
     fv_strides = (\<lambda>i. if i < 3 then of_strides f i else 0),
     fv_pts = of_pts f\<rparr>"

text \<open>The chain of \<^verbatim>\<open>copy_plane(...) && ...\<close>: plane by plane, stopping at the first that
  fails; earlier planes stay replaced. Each entry is a plane's row bytes and rows.\<close>

fun own_planes :: "frame_view \<Rightarrow> nat \<Rightarrow> (u32 \<times> u32) list \<Rightarrow> owned_frame \<Rightarrow> (bool \<times> owned_frame) option" where
  "own_planes source i [] dest = Some (True, dest)"
| "own_planes source i ((row_bytes, rows) # planes) dest =
     (case copy_plane (fv_planes source i) (fv_strides source i) row_bytes rows of
        None \<Rightarrow> None
      | Some None \<Rightarrow> Some (False, dest)
      | Some (Some (copied, stride)) \<Rightarrow>
          own_planes source (Suc i) planes
            (dest\<lparr>of_planes := (of_planes dest)(i := copied),
                  of_strides := (of_strides dest)(i := stride)\<rparr>))"

definition own_frame :: "frame_view \<Rightarrow> owned_frame \<Rightarrow> (status \<times> owned_frame) option" where
  "own_frame source dest =
     (let w = fv_width source; h = fv_height source; format = fv_pixel_format source;
          dest = dest\<lparr>of_pixel_format := format, of_width := w, of_height := h,
                      of_pts := fv_pts source\<rparr>;
          finish = (\<lambda>copied. case copied of
              None \<Rightarrow> None
            | Some (valid, dest) \<Rightarrow>
                Some (if valid then ok
                      else (MKVC_ERROR_INVALID_ARGUMENT,
                            ''asynchronous input has an invalid plane or stride''), dest))
      in if format = MKVC_PIXEL_FORMAT_I420
         then finish (own_planes source 0 [(w, h), (w div 2, h div 2), (w div 2, h div 2)] dest)
         else if format = MKVC_PIXEL_FORMAT_NV12
         then finish (own_planes source 0 [(w, h), (w, h div 2)] dest)
         else if format = MKVC_PIXEL_FORMAT_BGR24 \<or> format = MKVC_PIXEL_FORMAT_RGB24
         then finish (own_planes source 0 [(w * 3, h)] dest)
         else if format = MKVC_PIXEL_FORMAT_BGRA32
         then finish (own_planes source 0 [(w * 4, h)] dest)
         else Some ((MKVC_ERROR_NOT_SUPPORTED, ''unsupported asynchronous input pixel format''), dest))"

section \<open>Validation\<close>

definition valid_plane :: "frame_view \<Rightarrow> nat \<Rightarrow> u32 \<Rightarrow> bool" where
  "valid_plane frame i row_bytes \<longleftrightarrow>
     fv_planes frame i \<noteq> None \<and> row_bytes \<le>s fv_strides frame i"

definition validate_borrowed_frame :: "frame_view \<Rightarrow> status" where
  "validate_borrowed_frame frame =
     (let w = fv_width frame; h = fv_height frame; format = fv_pixel_format frame;
          verdict = (\<lambda>valid. if valid then ok
            else (MKVC_ERROR_INVALID_ARGUMENT, ''borrowed input has an invalid plane or stride''))
      in if w = 0 \<or> h = 0 \<or> w AND 1 \<noteq> 0 \<or> h AND 1 \<noteq> 0
         then (MKVC_ERROR_INVALID_ARGUMENT, ''borrowed input dimensions must be positive and even'')
         else if format = MKVC_PIXEL_FORMAT_I420
         then verdict (valid_plane frame 0 w \<and> valid_plane frame 1 (w div 2) \<and>
                       valid_plane frame 2 (w div 2))
         else if format = MKVC_PIXEL_FORMAT_NV12
         then verdict (valid_plane frame 0 w \<and> valid_plane frame 1 w)
         else if format = MKVC_PIXEL_FORMAT_BGR24 \<or> format = MKVC_PIXEL_FORMAT_RGB24
         then verdict (valid_plane frame 0 (w * 3))
         else if format = MKVC_PIXEL_FORMAT_BGRA32
         then verdict (valid_plane frame 0 (w * 4))
         else (MKVC_ERROR_NOT_SUPPORTED, ''unsupported borrowed input pixel format''))"

text \<open>The bytes per row of the planes in use (\<^verbatim>\<open>plane_count\<close> and \<^verbatim>\<open>row_bytes\<close>).\<close>

definition layout_row_bytes :: "u32 \<Rightarrow> u32 \<Rightarrow> u32 list option" where
  "layout_row_bytes format width =
     (if format = MKVC_PIXEL_FORMAT_I420 then Some [width, width div 2, width div 2]
      else if format = MKVC_PIXEL_FORMAT_NV12 then Some [width, width]
      else if format = MKVC_PIXEL_FORMAT_BGR24 \<or> format = MKVC_PIXEL_FORMAT_RGB24
      then Some [width * 3]
      else if format = MKVC_PIXEL_FORMAT_BGRA32 then Some [width * 4]
      else None)"

definition strict_plane :: "frame_view \<Rightarrow> u32 \<Rightarrow> nat \<Rightarrow> u32 \<Rightarrow> bool" where
  "strict_plane frame alignment i row_bytes \<longleftrightarrow>
     fv_strides frame i = row_bytes \<and>
     (case fv_planes frame i of None \<Rightarrow> True | Some p \<Rightarrow> address p mod ucast alignment = 0) \<and>
     fv_strides frame i mod alignment = 0"

definition validate_cpu_frame_layout ::
    "frame_view \<Rightarrow> u32 \<Rightarrow> u32 \<Rightarrow> u32 \<Rightarrow> u32 \<Rightarrow> status" where
  "validate_cpu_frame_layout frame width height mode alignment =
     (if fv_width frame \<noteq> width \<or> fv_height frame \<noteq> height \<or> width = 0 \<or> height = 0 \<or>
         width AND 1 \<noteq> 0 \<or> height AND 1 \<noteq> 0
      then (MKVC_ERROR_INVALID_ARGUMENT,
            ''frame dimensions do not match the even encoder dimensions'')
      else (case layout_row_bytes (fv_pixel_format frame) width of
        None \<Rightarrow> (MKVC_ERROR_NOT_SUPPORTED, ''unsupported CPU input pixel format'')
      | Some row_bytes \<Rightarrow>
          if \<not> list_all (\<lambda>(i, n). valid_plane frame i n) (enumerate 0 row_bytes)
          then (MKVC_ERROR_INVALID_ARGUMENT,
                ''CPU input has a missing plane or undersized row stride'')
          else if mode = MKVC_CPU_LAYOUT_ALLOW_COPY then ok
          else if \<not> list_all (\<lambda>(i, n). strict_plane frame alignment i n) (enumerate 0 row_bytes)
          then (MKVC_ERROR_INVALID_ARGUMENT,
                ''strict CPU layout requires packed planes and requested pointer/stride alignment'')
          else if \<not> list_all (\<lambda>i. fv_planes frame i = None \<and> fv_strides frame i = 0)
                     [length row_bytes..<4]
          then (MKVC_ERROR_INVALID_ARGUMENT,
                ''strict CPU layout requires unused planes and strides to be zero'')
          else ok))"

section \<open>Conversion into the codec's staging buffer\<close>

text \<open>What a call of libyuv returns and writes to its packed destination planes.\<close>

record libyuv =
  NV12ToI420 :: "mem_ptr \<Rightarrow> i32 \<Rightarrow> mem_ptr \<Rightarrow> i32 \<Rightarrow> u32 \<Rightarrow> u32 \<Rightarrow> int \<times> bytes \<times> bytes \<times> bytes"
  RGB24ToI420 :: "mem_ptr \<Rightarrow> i32 \<Rightarrow> u32 \<Rightarrow> u32 \<Rightarrow> int \<times> bytes \<times> bytes \<times> bytes"
  RAWToI420 :: "mem_ptr \<Rightarrow> i32 \<Rightarrow> u32 \<Rightarrow> u32 \<Rightarrow> int \<times> bytes \<times> bytes \<times> bytes"
  ARGBToI420 :: "mem_ptr \<Rightarrow> i32 \<Rightarrow> u32 \<Rightarrow> u32 \<Rightarrow> int \<times> bytes \<times> bytes \<times> bytes"
  I420ToNV12 :: "bytes \<Rightarrow> i32 \<Rightarrow> bytes \<Rightarrow> i32 \<Rightarrow> bytes \<Rightarrow> i32 \<Rightarrow> u32 \<Rightarrow> u32 \<Rightarrow> int \<times> bytes \<times> bytes"

text \<open>\<^verbatim>\<open>copy_plane\<close> of the two conversion files: rows are copied into the buffer from
  \<open>base\<close> on, \<open>dest_stride\<close> apart.\<close>

fun copy_plane_into :: "bytes \<Rightarrow> nat \<Rightarrow> nat \<Rightarrow> bytes \<Rightarrow> i32 \<Rightarrow> nat \<Rightarrow> nat \<Rightarrow> bytes option" where
  "copy_plane_into dest base dest_stride source stride width 0 = Some dest"
| "copy_plane_into dest base dest_stride source stride width (Suc row) =
     (case copy_plane_into dest base dest_stride source stride width row of
        None \<Rightarrow> None
      | Some dest' \<Rightarrow>
          (case read_block source (row_offset row stride) width of
             None \<Rightarrow> None
           | Some bs \<Rightarrow> write_block dest' (base + row * dest_stride) bs))"

definition store_i420 :: "nat \<Rightarrow> nat \<Rightarrow> bytes \<Rightarrow> int \<times> bytes \<times> bytes \<times> bytes \<Rightarrow> (int \<times> bytes) option" where
  "store_i420 y_size chroma_size i420 call =
     (case call of (converted, y, u, v) \<Rightarrow>
        (case write_block i420 0 y of None \<Rightarrow> None | Some b1 \<Rightarrow>
        (case write_block b1 y_size u of None \<Rightarrow> None | Some b2 \<Rightarrow>
        (case write_block b2 (y_size + chroma_size) v of None \<Rightarrow> None | Some b3 \<Rightarrow>
           Some (converted, b3)))))"

definition rgb_to_i420 :: "libyuv \<Rightarrow> u32 \<Rightarrow> mem_ptr \<Rightarrow> i32 \<Rightarrow> u32 \<Rightarrow> u32 \<Rightarrow> int \<times> bytes \<times> bytes \<times> bytes" where
  "rgb_to_i420 yuv format p stride width height =
     (if format = MKVC_PIXEL_FORMAT_BGR24 then RGB24ToI420 yuv p stride width height
      else if format = MKVC_PIXEL_FORMAT_RGB24 then RAWToI420 yuv p stride width height
      else ARGBToI420 yuv p stride width height)"

definition rgb_channels :: "u32 \<Rightarrow> u32" where
  "rgb_channels format = (if format = MKVC_PIXEL_FORMAT_BGRA32 then 4 else 3)"

text \<open>The frame's pointers are read only behind the null checks.\<close>

definition plane_ptr :: "frame_view \<Rightarrow> nat \<Rightarrow> mem_ptr" where
  "plane_ptr frame i = (case fv_planes frame i of Some p \<Rightarrow> p | None \<Rightarrow> \<lparr>address = 0, memory = []\<rparr>)"

definition convert_cpu_frame_to_i420 ::
    "libyuv \<Rightarrow> frame_view \<Rightarrow> u32 \<Rightarrow> u32 \<Rightarrow> bytes \<Rightarrow> string option \<Rightarrow> (status \<times> bytes) option" where
  "convert_cpu_frame_to_i420 yuv frame width height i420 codec_name =
     (let y_size = unat width * unat height;
          chroma_size = y_size div 4;
          w = unat width; h = unat height; w2 = unat (width div 2); h2 = unat (height div 2);
          codec = (case codec_name of None \<Rightarrow> ''CPU'' | Some name \<Rightarrow> name);
          format = fv_pixel_format frame;
          mem = (\<lambda>i. memory (plane_ptr frame i)); stride = fv_strides frame;
          finish = (\<lambda>call. case call of
              None \<Rightarrow> None
            | Some (converted, buffer) \<Rightarrow>
                Some (if converted \<noteq> (0 :: int)
                      then (MKVC_ERROR_INTERNAL,
                            ''libyuv failed to convert the '' @ codec @ '' input frame'')
                      else ok, buffer))
      in if length i420 < y_size + chroma_size * 2
         then Some ((MKVC_ERROR_INTERNAL, codec @ '' CPU staging buffer is too small''), i420)
         else if format = MKVC_PIXEL_FORMAT_I420 then
           if \<not> (valid_plane frame 0 width \<and> valid_plane frame 1 (width div 2) \<and>
                  valid_plane frame 2 (width div 2))
           then Some ((MKVC_ERROR_INVALID_ARGUMENT, ''I420 requires three positive-stride planes''), i420)
           else (case copy_plane_into i420 0 w (mem 0) (stride 0) w h of None \<Rightarrow> None
             | Some b1 \<Rightarrow> (case copy_plane_into b1 y_size w2 (mem 1) (stride 1) w2 h2 of None \<Rightarrow> None
             | Some b2 \<Rightarrow> (case copy_plane_into b2 (y_size + chroma_size) w2 (mem 2) (stride 2) w2 h2 of
                 None \<Rightarrow> None
             | Some b3 \<Rightarrow> finish (Some (0, b3)))))
         else if format = MKVC_PIXEL_FORMAT_NV12 then
           if \<not> (valid_plane frame 0 width \<and> valid_plane frame 1 width)
           then Some ((MKVC_ERROR_INVALID_ARGUMENT,
                  ''NV12 requires Y and interleaved UV positive-stride planes''), i420)
           else finish (store_i420 y_size chroma_size i420
                  (NV12ToI420 yuv (plane_ptr frame 0) (stride 0) (plane_ptr frame 1) (stride 1)
                     width height))
         else if format = MKVC_PIXEL_FORMAT_BGR24 \<or> format = MKVC_PIXEL_FORMAT_RGB24 \<or>
                 format = MKVC_PIXEL_FORMAT_BGRA32 then
           if \<not> valid_plane frame 0 (width * rgb_channels format)
           then Some ((MKVC_ERROR_INVALID_ARGUMENT, ''packed RGB input has an invalid pointer or stride''), i420)
           else finish (store_i420 y_size chroma_size i420
                  (rgb_to_i420 yuv format (plane_ptr frame 0) (stride 0) width height))
         else Some ((MKVC_ERROR_NOT_SUPPORTED, ''unsupported '' @ codec @ '' input pixel format''), i420))"

definition store_nv12 :: "nat \<Rightarrow> bytes \<Rightarrow> int \<times> bytes \<times> bytes \<Rightarrow> (int \<times> bytes) option" where
  "store_nv12 y_size nv12 call =
     (case call of (converted, y, uv) \<Rightarrow>
        (case write_block nv12 0 y of None \<Rightarrow> None | Some b1 \<Rightarrow>
        (case write_block b1 y_size uv of None \<Rightarrow> None | Some b2 \<Rightarrow> Some (converted, b2))))"

text \<open>Both staging buffers are returned: \<open>i420\<close> is the intermediate of the RGB formats.\<close>

definition convert_cpu_frame_to_nv12 ::
    "libyuv \<Rightarrow> frame_view \<Rightarrow> u32 \<Rightarrow> u32 \<Rightarrow> bytes \<Rightarrow> bytes \<Rightarrow> string option \<Rightarrow>
     (status \<times> bytes \<times> bytes) option" where
  "convert_cpu_frame_to_nv12 yuv frame width height i420 nv12 backend_name =
     (let y_size = unat width * unat height;
          chroma_size = y_size div 4;
          frame_size = y_size + chroma_size * 2;
          w = unat width; h = unat height; h2 = unat (height div 2);
          backend = (case backend_name of None \<Rightarrow> ''hardware'' | Some name \<Rightarrow> name);
          format = fv_pixel_format frame;
          mem = (\<lambda>i. memory (plane_ptr frame i)); stride = fv_strides frame;
          finish = (\<lambda>staged call. case call of
              None \<Rightarrow> None
            | Some (converted, buffer) \<Rightarrow>
                Some (if converted \<noteq> (0 :: int)
                      then (MKVC_ERROR_INTERNAL,
                            ''libyuv failed to convert '' @ backend @ '' encoder input to NV12'')
                      else ok, staged, buffer))
      in if length i420 < frame_size \<or> length nv12 < frame_size
         then Some ((MKVC_ERROR_INTERNAL, backend @ '' CPU staging buffers are too small''), i420, nv12)
         else if format = MKVC_PIXEL_FORMAT_NV12 then
           if \<not> (valid_plane frame 0 width \<and> valid_plane frame 1 width)
           then Some ((MKVC_ERROR_INVALID_ARGUMENT, ''NV12 requires valid Y and UV planes''), i420, nv12)
           else (case copy_plane_into nv12 0 w (mem 0) (stride 0) w h of None \<Rightarrow> None
             | Some b1 \<Rightarrow> (case copy_plane_into b1 y_size w (mem 1) (stride 1) w h2 of None \<Rightarrow> None
             | Some b2 \<Rightarrow> Some (ok, i420, b2)))
         else if format = MKVC_PIXEL_FORMAT_I420 then
           if \<not> (valid_plane frame 0 width \<and> valid_plane frame 1 (width div 2) \<and>
                  valid_plane frame 2 (width div 2))
           then Some ((MKVC_ERROR_INVALID_ARGUMENT, ''I420 requires three valid planes''), i420, nv12)
           else finish i420 (store_nv12 y_size nv12
                  (I420ToNV12 yuv (mem 0) (stride 0) (mem 1) (stride 1) (mem 2) (stride 2) width height))
         else if format = MKVC_PIXEL_FORMAT_BGR24 \<or> format = MKVC_PIXEL_FORMAT_RGB24 \<or>
                 format = MKVC_PIXEL_FORMAT_BGRA32 then
           if \<not> valid_plane frame 0 (width * rgb_channels format)
           then Some ((MKVC_ERROR_INVALID_ARGUMENT, ''packed RGB input has an invalid plane or stride''),
                      i420, nv12)
           else (case store_i420 y_size chroma_size i420
                  (rgb_to_i420 yuv format (plane_ptr frame 0) (stride 0) width height) of
                None \<Rightarrow> None
              | Some (converted, staged) \<Rightarrow>
                  if converted \<noteq> 0 then finish staged (Some (converted, nv12))
                  else finish staged (store_nv12 y_size nv12
                    (I420ToNV12 yuv staged width (drop y_size staged) (width div 2)
                       (drop (y_size + chroma_size) staged) (width div 2) width height)))
         else Some ((MKVC_ERROR_NOT_SUPPORTED, ''unsupported '' @ backend @ '' encoder input format''),
                    i420, nv12))"

section \<open>The packed copy\<close>

definition packed_rows :: "bytes \<Rightarrow> nat \<Rightarrow> nat \<Rightarrow> nat \<Rightarrow> bytes" where
  "packed_rows mem stride row_bytes rows =
     concat (map (\<lambda>row. take row_bytes (drop (row * stride) mem)) [0..<rows])"

lemma packed_rows_Suc:
  "packed_rows mem stride n (Suc rows) =
     packed_rows mem stride n rows @ take n (drop (rows * stride) mem)"
  by (simp add: packed_rows_def)

lemma length_packed_rows:
  "rows = 0 \<or> (rows - 1) * stride + n \<le> length mem \<Longrightarrow>
   length (packed_rows mem stride n rows) = rows * n"
proof (induction rows)
  case 0
  then show ?case by (simp add: packed_rows_def)
next
  case (Suc rows)
  have "rows = 0 \<or> (rows - 1) * stride + n \<le> length mem"
    using Suc.prems by (cases rows) (auto simp: algebra_simps)
  with Suc show ?case by (simp add: packed_rows_Suc)
qed

text \<open>Byte \<open>col\<close> of row \<open>row\<close> of the copy is that of the source.\<close>

lemma nth_packed_rows:
  "(rows - 1) * stride + n \<le> length mem \<Longrightarrow> row < rows \<Longrightarrow> col < n \<Longrightarrow>
   packed_rows mem stride n rows ! (row * n + col) = mem ! (row * stride + col)"
proof (induction rows)
  case 0
  then show ?case by simp
next
  case (Suc rows)
  have fits: "rows = 0 \<or> (rows - 1) * stride + n \<le> length mem"
    using Suc.prems(1) by (cases rows) (auto simp: algebra_simps)
  have len: "length (packed_rows mem stride n rows) = rows * n"
    using length_packed_rows [OF fits] .
  show ?case
  proof (cases "row < rows")
    case True
    then have "row * n + col < rows * n"
      using Suc.prems(3) mult_le_mono1 [of "Suc row" rows n] by simp
    then show ?thesis using Suc fits True by (auto simp: packed_rows_Suc nth_append len)
  next
    case False
    then have "row = rows" using Suc.prems by simp
    then show ?thesis using Suc.prems by (simp add: packed_rows_Suc nth_append len)
  qed
qed

lemma row_offset_nonneg:
  assumes "0 \<le> sint (stride :: i32)" "row < 4294967296"
  shows "row_offset row stride = row * unat stride"
proof -
  have s: "sint stride < 2147483648" using sint_lt [of stride] by simp
  have u: "int (unat stride) = sint stride"
    using assms(1) u32_less [of stride] by (simp add: sint_u32 split: if_splits)
  have w: "of_nat row * scast stride = (word_of_int (int row * sint stride) :: u64)"
    by transfer simp
  have "int row * sint stride < 4294967296 * 2147483648"
    using assms s by (intro mult_strict_mono') auto
  moreover have "0 \<le> int row * sint stride" using assms by simp
  ultimately have "take_bit 64 (int row * sint stride) = int row * sint stride"
    by (intro take_bit_int_eq_self) simp_all
  then have "uint (of_nat row * scast stride :: u64) = int row * sint stride"
    unfolding w uint_word_of_int_eq by simp
  then have "int (row_offset row stride) = int row * sint stride"
    unfolding row_offset_def by simp
  then have "int (row_offset row stride) = int (row * unat stride)"
    using u by simp
  then show ?thesis by (simp only: of_nat_eq_iff)
qed

lemma gather_rows_packed:
  assumes "0 \<le> sint stride"
  shows "rows < 4294967296 \<Longrightarrow> rows = 0 \<or> (rows - 1) * unat stride + n \<le> length mem \<Longrightarrow>
    gather_rows mem stride n rows = Some (packed_rows mem (unat stride) n rows)"
proof (induction rows)
  case 0
  then show ?case by (simp add: packed_rows_def)
next
  case (Suc rows)
  have fits: "rows = 0 \<or> (rows - 1) * unat stride + n \<le> length mem"
    using Suc.prems(2) by (cases rows) (auto simp: algebra_simps)
  have "gather_rows mem stride n rows = Some (packed_rows mem (unat stride) n rows)"
    using Suc.prems(1) fits by (intro Suc.IH) auto
  then show ?case
    using Suc.prems assms by (simp add: row_offset_nonneg read_block_Some packed_rows_Suc)
qed

section \<open>A validated frame is always owned\<close>

text \<open>What the planes of a format hold: bytes per row and rows.\<close>

definition plane_geometry :: "u32 \<Rightarrow> u32 \<Rightarrow> u32 \<Rightarrow> (u32 \<times> u32) list option" where
  "plane_geometry format w h =
     (if format = MKVC_PIXEL_FORMAT_I420 then Some [(w, h), (w div 2, h div 2), (w div 2, h div 2)]
      else if format = MKVC_PIXEL_FORMAT_NV12 then Some [(w, h), (w, h div 2)]
      else if format = MKVC_PIXEL_FORMAT_BGR24 \<or> format = MKVC_PIXEL_FORMAT_RGB24
      then Some [(w * 3, h)]
      else if format = MKVC_PIXEL_FORMAT_BGRA32 then Some [(w * 4, h)]
      else None)"

lemma layout_row_bytes_geometry:
  "layout_row_bytes format w = map_option (map fst) (plane_geometry format w h)"
  for h :: u32
  by (simp add: layout_row_bytes_def plane_geometry_def)

definition plane_readable :: "frame_view \<Rightarrow> nat \<Rightarrow> u32 \<times> u32 \<Rightarrow> bool" where
  "plane_readable frame i g \<longleftrightarrow> 0 \<le> sint (fst g) \<and> fst g \<le>s fv_strides frame i \<and>
     (case fv_planes frame i of
        None \<Rightarrow> False
      | Some p \<Rightarrow> unat (snd g) = 0 \<or>
          (unat (snd g) - 1) * unat (fv_strides frame i) + unat (fst g) \<le> length (memory p))"

definition packed_plane :: "frame_view \<Rightarrow> nat \<Rightarrow> u32 \<times> u32 \<Rightarrow> bytes" where
  "packed_plane frame i g =
     (case fv_planes frame i of
        None \<Rightarrow> []
      | Some p \<Rightarrow> packed_rows (memory p) (unat (fv_strides frame i)) (unat (fst g)) (unat (snd g)))"

lemma copy_plane_readable:
  assumes "plane_readable frame i (n, rows)"
  shows "copy_plane (fv_planes frame i) (fv_strides frame i) n rows =
    Some (Some (packed_plane frame i (n, rows), n))"
proof -
  obtain p where p: "fv_planes frame i = Some p" using assms by (auto simp: plane_readable_def split: option.splits)
  have "0 \<le> sint (fv_strides frame i)" using assms by (simp add: plane_readable_def word_sle_eq)
  then have "gather_rows (memory p) (fv_strides frame i) (unat n) (unat rows) =
      Some (packed_rows (memory p) (unat (fv_strides frame i)) (unat n) (unat rows))"
    using assms p u32_less [of rows] by (intro gather_rows_packed) (auto simp: plane_readable_def)
  then show ?thesis
    using assms p by (simp add: copy_plane_def packed_plane_def plane_readable_def word_sle_eq word_sless_alt)
qed

definition with_planes :: "frame_view \<Rightarrow> nat \<Rightarrow> (u32 \<times> u32) list \<Rightarrow> owned_frame \<Rightarrow> owned_frame" where
  "with_planes frame i gs dest = dest\<lparr>
     of_planes := (\<lambda>j. if i \<le> j \<and> j < i + length gs then packed_plane frame j (gs ! (j - i))
                       else of_planes dest j),
     of_strides := (\<lambda>j. if i \<le> j \<and> j < i + length gs then fst (gs ! (j - i))
                        else of_strides dest j)\<rparr>"

lemma own_planes_readable:
  "\<forall>k < length gs. plane_readable frame (i + k) (gs ! k) \<Longrightarrow>
   own_planes frame i gs dest = Some (True, with_planes frame i gs dest)"
proof (induction gs arbitrary: i dest)
  case Nil
  then show ?case by (auto simp: with_planes_def fun_eq_iff intro!: owned_frame.equality)
next
  case (Cons g gs)
  obtain n rows where g: "g = (n, rows)" by force
  have head: "plane_readable frame i (n, rows)" using Cons.prems g by force
  have tail: "\<forall>k < length gs. plane_readable frame (Suc i + k) (gs ! k)"
    using Cons.prems by force
  have "with_planes frame (Suc i) gs (dest\<lparr>of_planes := (of_planes dest)(i := packed_plane frame i (n, rows)),
      of_strides := (of_strides dest)(i := n)\<rparr>) = with_planes frame i ((n, rows) # gs) dest"
    by (auto simp: with_planes_def fun_eq_iff nth_Cons' intro!: owned_frame.equality)
  then show ?case
    using Cons.IH [OF tail] copy_plane_readable [OF head] g by simp
qed

lemma own_frame_readable:
  assumes "plane_geometry (fv_pixel_format frame) (fv_width frame) (fv_height frame) = Some gs"
    and "\<forall>k < length gs. plane_readable frame k (gs ! k)"
  shows "own_frame frame dest = Some (ok, with_planes frame 0 gs
    (dest\<lparr>of_pixel_format := fv_pixel_format frame, of_width := fv_width frame,
          of_height := fv_height frame, of_pts := fv_pts frame\<rparr>))"
proof -
  have "own_planes frame 0 gs d = Some (True, with_planes frame 0 gs d)" for d
    using assms(2) by (intro own_planes_readable) simp
  with assms(1) show ?thesis
    by (auto simp: plane_geometry_def own_frame_def Let_def split: if_splits)
qed

lemma nonneg_row_bytes:
  assumes "unat (w :: u32) \<le> 536870911" "plane_geometry format w h = Some gs" "k < length gs"
  shows "0 \<le> sint (fst (gs ! k))"
proof -
  have small: "unat x < 2147483648 \<Longrightarrow> 0 \<le> sint x" for x :: u32
    by (simp add: sint_u32)
  have m: "unat (w * 3) = unat w * 3" "unat (w * 4) = unat w * 4"
    using assms(1) by (simp_all add: unat_word_ariths)
  have "unat (fst (gs ! k)) < 2147483648"
    using assms m by (auto simp: plane_geometry_def unat_div nth_Cons' split: if_splits)
  then show ?thesis by (rule small)
qed

lemma copy_plane_into_gather:
  "base + rows * n \<le> length dest \<Longrightarrow>
   copy_plane_into dest base n source stride n rows =
     (case gather_rows source stride n rows of
        None \<Rightarrow> None | Some bs \<Rightarrow> write_block dest base bs)"
proof (induction rows)
  case 0
  then show ?case by (simp add: write_block_def)
next
  case (Suc rows)
  have len: "gather_rows source stride n k = Some bs \<Longrightarrow> length bs = k * n" for k bs
  proof (induction k arbitrary: bs)
    case (Suc k)
    then show ?case by (auto dest: read_block_length split: option.splits)
  qed simp
  show ?case
  proof (cases "gather_rows source stride n rows")
    case None
    then show ?thesis using Suc by simp
  next
    case (Some bs)
    note l = len [OF Some]
    then show ?thesis
      using Suc Some
      by (auto simp: write_block_def algebra_simps dest: read_block_length split: option.splits)
  qed
qed

section \<open>Validation implies a readable frame\<close>

text \<open>The caller's promise: a plane's memory reaches to the end of its last row.\<close>

definition plane_memory :: "frame_view \<Rightarrow> nat \<Rightarrow> u32 \<times> u32 \<Rightarrow> bool" where
  "plane_memory frame i g \<longleftrightarrow>
     (unat (snd g) - 1) * unat (fv_strides frame i) + unat (fst g) \<le> length (memory (plane_ptr frame i))"

definition frame_memory :: "frame_view \<Rightarrow> bool" where
  "frame_memory frame \<longleftrightarrow>
     (case plane_geometry (fv_pixel_format frame) (fv_width frame) (fv_height frame) of
        None \<Rightarrow> True
      | Some gs \<Rightarrow> list_all (\<lambda>(i, g). plane_memory frame i g) (enumerate 0 gs))"

lemma list_all_enumerate: "list_all P (enumerate 0 xs) \<longleftrightarrow> (\<forall>k < length xs. P (k, xs ! k))"
  by (simp add: list_all_length nth_enumerate_eq)

lemma layout_ok_geometry:
  assumes "validate_cpu_frame_layout frame w h mode alignment = ok"
  obtains gs where "plane_geometry (fv_pixel_format frame) w h = Some gs" "fv_width frame = w"
    "fv_height frame = h" "w \<noteq> 0" "h \<noteq> 0" "even (unat w)" "even (unat h)"
    "\<forall>k < length gs. valid_plane frame k (fst (gs ! k))"
proof -
  obtain rb where rb: "layout_row_bytes (fv_pixel_format frame) w = Some rb" "fv_width frame = w"
      "fv_height frame = h" "w \<noteq> 0" "h \<noteq> 0" "even (unat w)" "even (unat h)"
      "\<forall>k < length rb. valid_plane frame k (rb ! k)"
    using assms by (auto simp: validate_cpu_frame_layout_def list_all_enumerate even_word_iff
        split: if_splits option.splits)
  then obtain gs where "plane_geometry (fv_pixel_format frame) w h = Some gs" "rb = map fst gs"
    unfolding layout_row_bytes_geometry [of _ _ h] by auto
  with rb show ?thesis by (intro that) auto
qed

lemma layout_ok_shape:
  assumes "validate_cpu_frame_layout frame w h mode alignment = ok"
  shows "fv_width frame = w" "fv_height frame = h" "w \<noteq> 0" "h \<noteq> 0" "even (unat w)" "even (unat h)"
  using assms by (auto elim!: layout_ok_geometry)

lemma layout_ok_readable:
  assumes layout: "validate_cpu_frame_layout frame w h mode alignment = ok"
    and bound: "unat w \<le> 536870911" and memory: "frame_memory frame"
  obtains gs where "plane_geometry (fv_pixel_format frame) w h = Some gs"
    "\<forall>k < length gs. plane_readable frame k (gs ! k)"
proof -
  obtain gs where gs: "plane_geometry (fv_pixel_format frame) w h = Some gs" "fv_width frame = w"
      "fv_height frame = h" "\<forall>k < length gs. valid_plane frame k (fst (gs ! k))"
    using layout by (rule layout_ok_geometry)
  have "plane_readable frame k (gs ! k)" if "k < length gs" for k
    using gs that memory nonneg_row_bytes [OF bound gs(1) that]
    by (auto simp: plane_readable_def valid_plane_def frame_memory_def list_all_enumerate
        plane_memory_def plane_ptr_def split: option.splits)
  with gs(1) show ?thesis by (intro that) auto
qed

lemma packed_plane_nth:
  assumes "plane_readable frame k g" "row < unat (snd g)" "col < unat (fst g)"
  shows "packed_plane frame k g ! (row * unat (fst g) + col) =
    memory (plane_ptr frame k) ! (row * unat (fv_strides frame k) + col)"
proof -
  have "0 < unat (snd g)" using assms(2) by simp
  then show ?thesis
    using assms by (auto simp: packed_plane_def plane_ptr_def plane_readable_def
        intro!: nth_packed_rows split: option.splits)
qed

lemma length_packed_plane:
  "plane_readable frame k g \<Longrightarrow> length (packed_plane frame k g) = unat (snd g) * unat (fst g)"
  by (auto simp: packed_plane_def plane_readable_def length_packed_rows split: option.splits)

section \<open>The queue's copy is transparent to the conversion\<close>

lemma packed_rows_take_drop:
  "rows = 0 \<or> (rows - 1) * stride + n \<le> length mem \<Longrightarrow> row < rows \<Longrightarrow>
   take n (drop (row * n) (packed_rows mem stride n rows)) = take n (drop (row * stride) mem)"
proof (induction rows)
  case 0
  then show ?case by simp
next
  case (Suc rows)
  have fits: "rows = 0 \<or> (rows - 1) * stride + n \<le> length mem"
    using Suc.prems(1) by (cases rows) (auto simp: algebra_simps)
  note len = length_packed_rows [OF fits]
  show ?case
  proof (cases "row < rows")
    case True
    then have "row * n + n \<le> rows * n" using mult_le_mono1 [of "Suc row" rows n] by simp
    then show ?thesis using Suc.IH [OF fits True] len by (simp add: packed_rows_Suc)
  next
    case False
    then have "row = rows" using Suc.prems by simp
    then show ?thesis using len by (simp add: packed_rows_Suc)
  qed
qed

lemma packed_rows_idem:
  assumes "rows = 0 \<or> (rows - 1) * stride + n \<le> length mem"
  shows "packed_rows (packed_rows mem stride n rows) n n rows = packed_rows mem stride n rows"
proof -
  have "map (\<lambda>row. take n (drop (row * n) (packed_rows mem stride n rows))) [0..<rows] =
      map (\<lambda>row. take n (drop (row * stride) mem)) [0..<rows]"
    using packed_rows_take_drop [OF assms] by simp
  then show ?thesis by (metis packed_rows_def)
qed

text \<open>The staging buffer's content when every plane can be read.\<close>

definition stage_planes :: "bytes \<Rightarrow> nat \<Rightarrow> bytes list \<Rightarrow> bytes" where
  "stage_planes buffer n planes = concat planes @ drop n buffer"

lemma write_three:
  assumes "length a = n" "length b = m" "length c = m" "n + m * 2 \<le> length buffer"
  shows "write_block buffer 0 a = Some (a @ drop n buffer)"
    "write_block (a @ drop n buffer) n b = Some (a @ b @ drop (n + m) buffer)"
    "write_block (a @ b @ drop (n + m) buffer) (n + m) c = Some (a @ b @ c @ drop (n + m * 2) buffer)"
  using assms by (simp_all add: write_block_def algebra_simps mult_2_right)

lemma copy_plane_into_readable:
  assumes "plane_readable frame k (n, rows)" "base + unat rows * unat n \<le> length dest"
  shows "copy_plane_into dest base (unat n) (memory (plane_ptr frame k)) (fv_strides frame k)
      (unat n) (unat rows) = write_block dest base (packed_plane frame k (n, rows))"
proof -
  have s: "0 \<le> sint (fv_strides frame k)"
    using assms(1) by (simp add: plane_readable_def word_sle_eq)
  obtain p where p: "fv_planes frame k = Some p"
    using assms(1) by (auto simp: plane_readable_def split: option.splits)
  have "gather_rows (memory p) (fv_strides frame k) (unat n) (unat rows) =
      Some (packed_rows (memory p) (unat (fv_strides frame k)) (unat n) (unat rows))"
    using assms(1) p u32_less [of rows] by (intro gather_rows_packed [OF s]) (auto simp: plane_readable_def)
  then show ?thesis
    using assms(2) p by (simp add: copy_plane_into_gather plane_ptr_def packed_plane_def)
qed

lemma plane_readable_valid:
  "plane_readable frame k (n, rows) \<Longrightarrow> valid_plane frame k n"
  by (auto simp: plane_readable_def valid_plane_def split: option.splits)

lemma even_halves: "even w \<Longrightarrow> even h \<Longrightarrow> (h div 2) * (w div 2) = w * h div (4 :: nat)"
  by (auto elim!: evenE simp: algebra_simps)

lemma convert_i420_readable:
  assumes format: "fv_pixel_format frame = MKVC_PIXEL_FORMAT_I420"
    and even: "even (unat w)" "even (unat h)"
    and planes: "plane_readable frame 0 (w, h)" "plane_readable frame 1 (w div 2, h div 2)"
      "plane_readable frame 2 (w div 2, h div 2)"
    and room: "unat w * unat h + unat w * unat h div 4 * 2 \<le> length i420"
  shows "convert_cpu_frame_to_i420 yuv frame w h i420 codec = Some (ok,
    stage_planes i420 (unat w * unat h + unat w * unat h div 4 * 2)
      [packed_plane frame 0 (w, h), packed_plane frame 1 (w div 2, h div 2),
       packed_plane frame 2 (w div 2, h div 2)])"
proof -
  let ?n = "unat w * unat h" and ?m = "unat w * unat h div 4"
  have half: "unat (h div 2) * unat (w div 2) = ?m"
    using even by (simp add: unat_div even_halves)
  define a b c where "a = packed_plane frame 0 (w, h)" and
    "b = packed_plane frame 1 (w div 2, h div 2)" and "c = packed_plane frame 2 (w div 2, h div 2)"
  have len: "length a = ?n" "length b = ?m" "length c = ?m"
    using length_packed_plane [OF planes(1)] length_packed_plane [OF planes(2)]
      length_packed_plane [OF planes(3)] half by (simp_all add: a_def b_def c_def mult.commute)
  note w3 = write_three [OF len room]
  have c1: "copy_plane_into i420 0 (unat w) (memory (plane_ptr frame 0)) (fv_strides frame 0)
      (unat w) (unat h) = Some (a @ drop ?n i420)"
    using copy_plane_into_readable [OF planes(1), of 0 i420] room w3(1) by (simp add: a_def mult.commute)
  have c2: "copy_plane_into (a @ drop ?n i420) ?n (unat (w div 2)) (memory (plane_ptr frame 1))
      (fv_strides frame 1) (unat (w div 2)) (unat (h div 2)) = Some (a @ b @ drop (?n + ?m) i420)"
    using copy_plane_into_readable [OF planes(2), of ?n "a @ drop ?n i420"] room w3(2) half len
    by (simp add: b_def)
  have c3: "copy_plane_into (a @ b @ drop (?n + ?m) i420) (?n + ?m) (unat (w div 2))
      (memory (plane_ptr frame 2)) (fv_strides frame 2) (unat (w div 2)) (unat (h div 2)) =
      Some (a @ b @ c @ drop (?n + ?m * 2) i420)"
    using copy_plane_into_readable [OF planes(3), of "?n + ?m" "a @ b @ drop (?n + ?m) i420"]
      room w3(3) half len by (simp add: c_def)
  have "\<not> length i420 < ?n + ?m * 2" using room by simp
  then show ?thesis
    using format c1 c2 c3 planes [THEN plane_readable_valid]
    by (simp add: convert_cpu_frame_to_i420_def Let_def stage_planes_def a_def [symmetric]
        b_def [symmetric] c_def [symmetric] del: One_nat_def)
qed

lemma owned_view_readable:
  assumes "plane_readable frame k g" "k < length gs" "gs ! k = g" "length gs \<le> 3"
    and "0 < unat (fst g)" "0 < unat (snd g)"
  shows "plane_readable (owned_view address_of (with_planes frame 0 gs d)) k g"
    "packed_plane (owned_view address_of (with_planes frame 0 gs d)) k g = packed_plane frame k g"
proof -
  have len: "length (packed_plane frame k g) = unat (snd g) * unat (fst g)"
    using assms(1) by (rule length_packed_plane)
  then have ne: "packed_plane frame k g \<noteq> []" using assms(5,6) by auto
  have total: "(unat (snd g) - 1) * unat (fst g) + unat (fst g) = unat (snd g) * unat (fst g)"
    using assms(6) by (cases "unat (snd g)") auto
  show "plane_readable (owned_view address_of (with_planes frame 0 gs d)) k g"
    using assms ne len total by (auto simp: plane_readable_def owned_view_def with_planes_def word_sle_eq)
  obtain p where p: "fv_planes frame k = Some p"
    using assms(1) by (auto simp: plane_readable_def split: option.splits)
  show "packed_plane (owned_view address_of (with_planes frame 0 gs d)) k g = packed_plane frame k g"
    using assms ne p packed_rows_idem [of "unat (snd g)" "unat (fv_strides frame k)" "unat (fst g)" "memory p"]
    by (auto simp: packed_plane_def owned_view_def with_planes_def plane_readable_def)
qed


section \<open>An input\<close>

definition sample_i420 :: frame_view where
  "sample_i420 = \<lparr>fv_struct_size = 80, fv_struct_version = 1,
     fv_pixel_format = MKVC_PIXEL_FORMAT_I420, fv_width = 2, fv_height = 2,
     fv_planes = (\<lambda>i. if i = 0 then Some \<lparr>address = 4096, memory = [10, 11, 99, 12, 13]\<rparr>
                      else if i = 1 then Some \<lparr>address = 8192, memory = [20]\<rparr>
                      else if i = 2 then Some \<lparr>address = 8256, memory = [30]\<rparr> else None),
     fv_strides = (\<lambda>i. if i = 0 then 3 else if i < 3 then 1 else 0), fv_pts = 0\<rparr>"

lemma sample_i420_checks:
  "validate_cpu_frame_layout sample_i420 2 2 0 1 = ok" "frame_memory sample_i420"
  by (simp_all add: validate_cpu_frame_layout_def sample_i420_def layout_row_bytes_def valid_plane_def
      frame_memory_def plane_geometry_def plane_memory_def plane_ptr_def)

section \<open>Properties\<close>

text \<open>C7. A CPU frame that passed the layout validation, of a width the encoder
  configuration admits and with planes as long as their strides promise, is never rejected by
  the queue's deep copy, and every byte of every row of the copy is the source's byte.\<close>

theorem validated_frame_owned:
  assumes "validate_cpu_frame_layout frame w h mode alignment = ok"
    and "unat w \<le> 536870911" and "frame_memory frame"
  shows "\<exists>dest' gs. own_frame frame dest = Some (ok, dest') \<and>
    plane_geometry (fv_pixel_format frame) w h = Some gs \<and>
    (\<forall>k < length gs. \<forall>row < unat (snd (gs ! k)). \<forall>col < unat (fst (gs ! k)).
       of_planes dest' k ! (row * unat (fst (gs ! k)) + col) =
       memory (plane_ptr frame k) ! (row * unat (fv_strides frame k) + col))"
proof -
  obtain gs where gs: "plane_geometry (fv_pixel_format frame) w h = Some gs"
      and readable: "\<forall>k < length gs. plane_readable frame k (gs ! k)"
    using assms by (rule layout_ok_readable)
  note shape = layout_ok_shape [OF assms(1)]
  with gs have "own_frame frame dest = Some (ok, with_planes frame 0 gs
    (dest\<lparr>of_pixel_format := fv_pixel_format frame, of_width := fv_width frame,
          of_height := fv_height frame, of_pts := fv_pts frame\<rparr>))"
    by (intro own_frame_readable [OF _ readable]) simp
  moreover have "of_planes (with_planes frame 0 gs d) k ! (row * unat (fst (gs ! k)) + col) =
      memory (plane_ptr frame k) ! (row * unat (fv_strides frame k) + col)"
    if "k < length gs" "row < unat (snd (gs ! k))" "col < unat (fst (gs ! k))" for k row col d
    using that packed_plane_nth [OF readable [rule_format, OF that(1)] that(2,3)]
    by (simp add: with_planes_def)
  ultimately show ?thesis using gs by (intro exI conjI allI impI) assumption+
qed

theorem validated_frame_owned_witness:
  "\<exists>dest' gs. own_frame sample_i420 new_owned_frame = Some (ok, dest') \<and>
    plane_geometry (fv_pixel_format sample_i420) 2 2 = Some gs \<and>
    (\<forall>k < length gs. \<forall>row < unat (snd (gs ! k)). \<forall>col < unat (fst (gs ! k)).
       of_planes dest' k ! (row * unat (fst (gs ! k)) + col) =
       memory (plane_ptr sample_i420 k) ! (row * unat (fv_strides sample_i420 k) + col))"
  by (rule validated_frame_owned [OF sample_i420_checks(1) _ sample_i420_checks(2)]) simp


text \<open>A libyuv whose conversions are never reached.\<close>

definition no_libyuv :: libyuv where
  "no_libyuv = \<lparr>NV12ToI420 = (\<lambda>_ _ _ _ _ _. (1, [], [], [])),
     RGB24ToI420 = (\<lambda>_ _ _ _. (1, [], [], [])), RAWToI420 = (\<lambda>_ _ _ _. (1, [], [], [])),
     ARGBToI420 = (\<lambda>_ _ _ _. (1, [], [], [])), I420ToNV12 = (\<lambda>_ _ _ _ _ _ _ _. (1, [], []))\<rparr>"


end
