(* ===== verification/Metrics.thy ===== *)
theory Metrics
  imports Abi
begin

text \<open>
  Telemetry: the copy-edge counters of src/copy_edge_metrics.hpp, the component counters and
  the thread-local stack of exclusive timers of src/pipeline_component_metrics.hpp, the stage
  counters of the C ABI and the copy-path summary of the sessions. Counters are 64-bit words
  that wrap like the atomics. A time point is an integer number of nanoseconds of the steady
  clock. The main fact is that the timers split the wall time of a nest of scopes: what the
  components are charged adds up to the time between entering and leaving the outermost scope,
  however deep the nest, also beyond the stack's capacity.
\<close>

section \<open>Copy edges\<close>

datatype copy_edge = SharedSurface | ZeroCopy | GpuCopy | CpuUpload | CpuReadback
  | CpuNormalization | PixelConversion

type_synonym copy_edge_counters = "copy_edge \<Rightarrow> u64"

definition no_copies :: copy_edge_counters where
  "no_copies = (\<lambda>_. 0)"

definition add_copy :: "copy_edge \<Rightarrow> copy_edge_counters \<Rightarrow> copy_edge_counters" where
  "add_copy edge counters = counters(edge := counters edge + 1)"

record copy_edge_metrics =
  ce_struct_size :: u32
  ce_struct_version :: u32
  shared_surface_frames :: u64
  zero_copy_frames :: u64
  gpu_copy_frames :: u64
  cpu_upload_frames :: u64
  cpu_readback_frames :: u64
  cpu_normalization_frames :: u64
  pixel_conversion_frames :: u64
  driver_internal_observed :: u32

definition copy_edge_snapshot :: "copy_edge_counters \<Rightarrow> copy_edge_metrics" where
  "copy_edge_snapshot c = \<lparr>ce_struct_size = sizeof_copy_edge_metrics, ce_struct_version = 1,
     shared_surface_frames = c SharedSurface, zero_copy_frames = c ZeroCopy,
     gpu_copy_frames = c GpuCopy, cpu_upload_frames = c CpuUpload,
     cpu_readback_frames = c CpuReadback, cpu_normalization_frames = c CpuNormalization,
     pixel_conversion_frames = c PixelConversion, driver_internal_observed = 0\<rparr>"

lemma add_copy_same [simp]: "add_copy e c e = c e + 1"
  by (simp add: add_copy_def)

lemma add_copy_other [simp]: "e \<noteq> e' \<Longrightarrow> add_copy e c e' = c e'"
  by (simp add: add_copy_def)

section \<open>Copy path\<close>

definition merge_copy_path :: "u32 \<Rightarrow> u32 \<Rightarrow> u32" where
  "merge_copy_path current path =
     (if current = MKVC_COPY_PATH_UNKNOWN then path
      else if current \<noteq> path then MKVC_COPY_PATH_MIXED else current)"

text \<open>After any sequence of observations the summary is unknown before the first one, the
  common path when they agree, and mixed otherwise.\<close>

lemma merge_copy_path_simps [simp]:
  "merge_copy_path MKVC_COPY_PATH_UNKNOWN p = p"
  "merge_copy_path p p = p"
  "merge_copy_path MKVC_COPY_PATH_MIXED p = MKVC_COPY_PATH_MIXED"
  "q \<noteq> MKVC_COPY_PATH_UNKNOWN \<Longrightarrow> q \<noteq> p \<Longrightarrow> merge_copy_path q p = MKVC_COPY_PATH_MIXED"
  by (simp_all add: merge_copy_path_def)

lemma merge_copy_path_fold_mixed:
  "fold (\<lambda>p c. merge_copy_path c p) ps MKVC_COPY_PATH_MIXED = MKVC_COPY_PATH_MIXED"
  by (induction ps) simp_all

lemma merge_copy_path_fold:
  "p \<noteq> MKVC_COPY_PATH_UNKNOWN \<Longrightarrow>
   fold (\<lambda>q c. merge_copy_path c q) ps p =
     (if \<forall>q \<in> set ps. q = p then p else MKVC_COPY_PATH_MIXED)"
proof (induction ps)
  case Nil
  then show ?case by simp
next
  case (Cons q ps)
  then show ?case by (cases "q = p") (auto simp: merge_copy_path_fold_mixed)
qed

section \<open>Stage counters\<close>

record stage_metrics =
  frame_calls :: u64
  frame_time_ns :: u64
  flush_calls :: u64
  flush_time_ns :: u64
  close_calls :: u64
  close_time_ns :: u64
  sync_frame_calls :: u64
  sync_frame_time_ns :: u64
  worker_frame_calls :: u64
  worker_frame_time_ns :: u64

definition no_stages :: stage_metrics where
  "no_stages = \<lparr>frame_calls = 0, frame_time_ns = 0, flush_calls = 0, flush_time_ns = 0,
     close_calls = 0, close_time_ns = 0, sync_frame_calls = 0, sync_frame_time_ns = 0,
     worker_frame_calls = 0, worker_frame_time_ns = 0\<rparr>"

definition count_sync_frame :: "u64 \<Rightarrow> stage_metrics \<Rightarrow> stage_metrics" where
  "count_sync_frame elapsed m = m\<lparr>frame_calls := frame_calls m + 1,
     frame_time_ns := frame_time_ns m + elapsed, sync_frame_calls := sync_frame_calls m + 1,
     sync_frame_time_ns := sync_frame_time_ns m + elapsed\<rparr>"

definition count_worker_frame :: "u64 \<Rightarrow> stage_metrics \<Rightarrow> stage_metrics" where
  "count_worker_frame elapsed m = m\<lparr>frame_calls := frame_calls m + 1,
     frame_time_ns := frame_time_ns m + elapsed, worker_frame_calls := worker_frame_calls m + 1,
     worker_frame_time_ns := worker_frame_time_ns m + elapsed\<rparr>"

definition count_flush :: "u64 \<Rightarrow> stage_metrics \<Rightarrow> stage_metrics" where
  "count_flush elapsed m = m\<lparr>flush_calls := flush_calls m + 1,
     flush_time_ns := flush_time_ns m + elapsed\<rparr>"

definition count_close :: "u64 \<Rightarrow> stage_metrics \<Rightarrow> stage_metrics" where
  "count_close elapsed m = m\<lparr>close_calls := close_calls m + 1,
     close_time_ns := close_time_ns m + elapsed\<rparr>"

text \<open>The frame totals are the sum of the caller-thread and the worker share.\<close>

definition stages_split :: "stage_metrics \<Rightarrow> bool" where
  "stages_split m \<longleftrightarrow> frame_calls m = sync_frame_calls m + worker_frame_calls m \<and>
     frame_time_ns m = sync_frame_time_ns m + worker_frame_time_ns m"

lemma stages_split_count [invariant_intros]:
  "stages_split no_stages"
  "stages_split m \<Longrightarrow> stages_split (count_sync_frame t m)"
  "stages_split m \<Longrightarrow> stages_split (count_worker_frame t m)"
  "stages_split m \<Longrightarrow> stages_split (count_flush t m)"
  "stages_split m \<Longrightarrow> stages_split (count_close t m)"
  by (simp_all add: stages_split_def no_stages_def count_sync_frame_def count_worker_frame_def
      count_flush_def count_close_def)

section \<open>Component counters\<close>

datatype pipeline_component = Conversion | Codec | ContainerIO | GpuWait

type_synonym component_counters = "pipeline_component \<Rightarrow> u64 \<times> u64" \<comment> \<open>calls, nanoseconds\<close>

definition no_components :: component_counters where
  "no_components = (\<lambda>_. (0, 0))"

definition add_component :: "pipeline_component \<Rightarrow> u64 \<Rightarrow> component_counters \<Rightarrow> component_counters" where
  "add_component component elapsed_ns c =
     c(component := (fst (c component) + 1, snd (c component) + elapsed_ns))"

record component_metrics =
  cm_struct_size :: u32
  cm_struct_version :: u32
  cm_conversion :: "u64 \<times> u64"
  cm_codec :: "u64 \<times> u64"
  cm_container :: "u64 \<times> u64"
  cm_gpu_wait :: "u64 \<times> u64"

definition component_snapshot :: "component_counters \<Rightarrow> component_metrics" where
  "component_snapshot c = \<lparr>cm_struct_size = sizeof_component_metrics, cm_struct_version = 1,
     cm_conversion = c Conversion, cm_codec = c Codec, cm_container = c ContainerIO, cm_gpu_wait = c GpuWait\<rparr>"

definition charged_ns :: "component_counters \<Rightarrow> u64" where
  "charged_ns c = snd (c Conversion) + snd (c Codec) + snd (c ContainerIO) + snd (c GpuWait)"

lemma charged_ns_add [simp]: "charged_ns (add_component k t c) = charged_ns c + t"
  by (cases k) (simp_all add: charged_ns_def add_component_def)

section \<open>The thread-local stack of exclusive timers\<close>

text \<open>An accumulator is named by its address, here a natural number; \<open>entries\<close> is the
  fixed array of 32 entries, of which the first \<open>depth\<close> are live.\<close>

record timer_entry =
  te_accumulator :: nat
  te_component :: pipeline_component
  te_started :: int
  te_elapsed :: u64
  te_running :: bool

definition timer_capacity :: nat where
  "timer_capacity = 32"

record timer_thread =
  accumulators :: "nat \<Rightarrow> component_counters"
  active_metrics :: "nat option"
  timer_entries :: "timer_entry list"
  timer_depth :: nat

definition component_duration :: "int \<Rightarrow> int \<Rightarrow> u64" where
  "component_duration begin_time end_time = word_of_int (end_time - begin_time)"

definition pause_timer :: "int \<Rightarrow> timer_entry \<Rightarrow> timer_entry" where
  "pause_timer now e =
     (if \<not> te_running e then e
      else e\<lparr>te_elapsed := te_elapsed e + component_duration (te_started e) now, te_running := False\<rparr>)"

definition resume_timer :: "int \<Rightarrow> timer_entry \<Rightarrow> timer_entry" where
  "resume_timer now e = e\<lparr>te_started := now, te_running := True\<rparr>"

text \<open>Constructor: the new scope's index, or nothing for a scope that does not measure.\<close>

definition open_timer :: "pipeline_component \<Rightarrow> int \<Rightarrow> timer_thread \<Rightarrow> nat option \<times> timer_thread" where
  "open_timer k now th =
     (case active_metrics th of
        None \<Rightarrow> (None, th)
      | Some a \<Rightarrow>
          if timer_depth th = timer_capacity then (None, th)
          else let es = (if timer_depth th \<noteq> 0
                         then (timer_entries th)[timer_depth th - 1 := pause_timer now (timer_entries th ! (timer_depth th - 1))]
                         else timer_entries th);
                   i = timer_depth th
               in (Some i, th\<lparr>timer_entries := es[i := \<lparr>te_accumulator = a, te_component = k, te_started = now,
                                                te_elapsed = 0, te_running = True\<rparr>],
                              timer_depth := Suc i\<rparr>))"

text \<open>Destructor of the scope with that index.\<close>

definition close_timer :: "nat option \<Rightarrow> int \<Rightarrow> timer_thread \<Rightarrow> timer_thread" where
  "close_timer scope now th =
     (case scope of
        None \<Rightarrow> th
      | Some i \<Rightarrow>
          let entry = pause_timer now (timer_entries th ! i);
              es = (timer_entries th)[i := entry];
              es' = (if i \<noteq> 0 then es[i - 1 := resume_timer now (es ! (i - 1))] else es)
          in th\<lparr>timer_entries := es',
                accumulators := (accumulators th)(te_accumulator entry :=
                  add_component (te_component entry) (te_elapsed entry)
                    (accumulators th (te_accumulator entry))),
                timer_depth := i\<rparr>)"

text \<open>\<^verbatim>\<open>ActiveComponentMetrics\<close>: the constructor keeps the previous binding for the destructor.\<close>

definition bind_metrics :: "nat \<Rightarrow> timer_thread \<Rightarrow> nat option \<times> timer_thread" where
  "bind_metrics a th = (active_metrics th, th\<lparr>active_metrics := Some a\<rparr>)"

definition unbind_metrics :: "nat option \<Rightarrow> timer_thread \<Rightarrow> timer_thread" where
  "unbind_metrics previous th = th\<lparr>active_metrics := previous\<rparr>"

text \<open>A nest of C++ scopes: its component, the time it is entered, the scopes inside, and
  the time it is left.\<close>

datatype timer_scope = Scope pipeline_component int "timer_scope list" int

fun run_scope :: "timer_scope \<Rightarrow> timer_thread \<Rightarrow> timer_thread"
  and run_scopes :: "timer_scope list \<Rightarrow> timer_thread \<Rightarrow> timer_thread" where
  "run_scope (Scope k t0 inner t1) th =
     (let (i, th') = open_timer k t0 th in close_timer i t1 (run_scopes inner th'))"
| "run_scopes [] th = th"
| "run_scopes (s # ss) th = run_scopes ss (run_scope s th)"

section \<open>The timers split the wall time\<close>

definition timer_thread_wf :: "nat \<Rightarrow> timer_thread \<Rightarrow> bool" where
  "timer_thread_wf a th \<longleftrightarrow> active_metrics th = Some a \<and> length (timer_entries th) = timer_capacity \<and>
     timer_depth th \<le> timer_capacity \<and>
     (\<forall>i < timer_depth th. te_accumulator (timer_entries th ! i) = a \<and>
        te_running (timer_entries th ! i) = (i = timer_depth th - 1))"

text \<open>What is charged to \<open>a\<close> if every live scope were left at time \<open>t\<close>.\<close>

definition entry_charge :: "int \<Rightarrow> timer_entry \<Rightarrow> u64" where
  "entry_charge t e = te_elapsed (pause_timer t e)"

definition pending_charge :: "nat \<Rightarrow> int \<Rightarrow> timer_thread \<Rightarrow> u64" where
  "pending_charge a t th = charged_ns (accumulators th a) +
     sum_list (map (entry_charge t) (take (timer_depth th) (timer_entries th)))"

lemma pending_charge_later:
  assumes "timer_thread_wf a th" and "timer_depth th \<noteq> 0"
  shows "pending_charge a t' th = pending_charge a t th + word_of_int (t' - t)"
proof -
  obtain d where d: "timer_depth th = Suc d" using assms(2) by (cases "timer_depth th") auto
  have len: "d < length (timer_entries th)" using assms(1) d by (auto simp: timer_thread_wf_def)
  have tk: "take (Suc d) (timer_entries th) = take d (timer_entries th) @ [timer_entries th ! d]"
    using len by (rule take_Suc_conv_app_nth)
  have low: "map (entry_charge u) (take d (timer_entries th)) = map te_elapsed (take d (timer_entries th))" for u
    using assms(1) d len by (auto simp: timer_thread_wf_def entry_charge_def pause_timer_def
        in_set_conv_nth)
  have run: "te_running (timer_entries th ! d)" using assms(1) d by (auto simp: timer_thread_wf_def)
  have "entry_charge t' (timer_entries th ! d) = entry_charge t (timer_entries th ! d) + word_of_int (t' - t)"
    using run by (simp add: entry_charge_def pause_timer_def component_duration_def)
  then show ?thesis by (simp add: pending_charge_def d tk low)
qed


lemma open_timer_wf:
  assumes wf: "timer_thread_wf a th" and room: "timer_depth th \<noteq> timer_capacity"
    and opened: "open_timer k t th = (i, th')"
  shows "timer_thread_wf a th'" "timer_depth th' = Suc (timer_depth th)" "i = Some (timer_depth th)"
    "pending_charge a t th' = pending_charge a t th"
proof -
  let ?d = "timer_depth th"
  have act: "active_metrics th = Some a" and len: "length (timer_entries th) = timer_capacity"
    and lt: "?d < timer_capacity"
    using wf room by (auto simp: timer_thread_wf_def)
  define e where "e = \<lparr>te_accumulator = a, te_component = k, te_started = t, te_elapsed = 0, te_running = True\<rparr>"
  define es where "es = (if ?d \<noteq> 0 then (timer_entries th)[?d - 1 := pause_timer t (timer_entries th ! (?d - 1))]
                         else timer_entries th)"
  have th': "th' = th\<lparr>timer_entries := es[?d := e], timer_depth := Suc ?d\<rparr>" and i: "i = Some ?d"
    using opened act room by (auto simp: open_timer_def Let_def es_def e_def split: if_splits)
  have les: "length es = timer_capacity" by (simp add: es_def len)
  have paused: "es ! j = (if Suc j = ?d then pause_timer t (timer_entries th ! j) else timer_entries th ! j)" for j
    using len lt by (cases "Suc j = ?d") (auto simp: es_def nth_list_update split: if_splits)
  show "i = Some ?d" by (rule i)
  show "timer_depth th' = Suc ?d" by (simp add: th')
  show "timer_thread_wf a th'"
    using wf les lt
    by (auto simp: timer_thread_wf_def th' nth_list_update paused e_def pause_timer_def)
  have "map (entry_charge t) (take ?d es) = map (entry_charge t) (take ?d (timer_entries th))"
    using len les lt by (intro nth_equalityI)
      (auto simp: paused entry_charge_def pause_timer_def component_duration_def)
  moreover have "take (Suc ?d) (es[?d := e]) = take ?d es @ [e]"
    using les lt by (simp add: take_Suc_conv_app_nth)
  ultimately show "pending_charge a t th' = pending_charge a t th"
    by (simp add: pending_charge_def th' e_def entry_charge_def pause_timer_def
        component_duration_def)
qed

lemma close_timer_wf:
  assumes wf: "timer_thread_wf a th" and d: "timer_depth th = Suc i"
  shows "timer_thread_wf a (close_timer (Some i) t th)" "timer_depth (close_timer (Some i) t th) = i"
    "pending_charge a t (close_timer (Some i) t th) = pending_charge a t th"
proof -
  define e where "e = pause_timer t (timer_entries th ! i)"
  define es where "es = (timer_entries th)[i := e]"
  define es' where "es' = (if i \<noteq> 0 then es[i - 1 := resume_timer t (es ! (i - 1))] else es)"
  have len: "length (timer_entries th) = timer_capacity" and lt: "i < timer_capacity"
    and acc: "te_accumulator e = a" and act: "active_metrics th = Some a"
    using wf d by (auto simp: timer_thread_wf_def e_def pause_timer_def)
  have closed: "close_timer (Some i) t th = th\<lparr>timer_entries := es', accumulators := (accumulators th)
      (a := add_component (te_component e) (te_elapsed e) (accumulators th a)), timer_depth := i\<rparr>"
    using acc by (simp add: close_timer_def Let_def e_def es_def es'_def)
  have les: "length es' = timer_capacity" by (simp add: es'_def es_def len)
  have nth: "j < i \<Longrightarrow> es' ! j = (if Suc j = i then resume_timer t (timer_entries th ! j) else timer_entries th ! j)" for j
    using len lt by (cases "Suc j = i") (auto simp: es'_def es_def nth_list_update split: if_splits)
  have stopped: "j < i \<Longrightarrow> te_accumulator (timer_entries th ! j) = a \<and> \<not> te_running (timer_entries th ! j)" for j
    using wf d by (auto simp: timer_thread_wf_def)
  show "timer_depth (close_timer (Some i) t th) = i" by (simp add: closed)
  show "timer_thread_wf a (close_timer (Some i) t th)"
    unfolding timer_thread_wf_def closed
    using les lt act stopped by (auto simp: nth resume_timer_def)
  have "map (entry_charge t) (take i es') = map (entry_charge t) (take i (timer_entries th))"
    using len les lt stopped by (intro nth_equalityI)
      (auto simp: nth entry_charge_def pause_timer_def component_duration_def resume_timer_def)
  moreover have "take (Suc i) (timer_entries th) = take i (timer_entries th) @ [timer_entries th ! i]"
    using len lt by (simp add: take_Suc_conv_app_nth)
  ultimately show "pending_charge a t (close_timer (Some i) t th) = pending_charge a t th"
    unfolding closed using d by (simp add: pending_charge_def e_def entry_charge_def)
qed

lemma pending_charge_move:
  assumes "timer_thread_wf a th" "timer_depth th \<noteq> 0" "timer_thread_wf a th'" "timer_depth th' \<noteq> 0"
    and "pending_charge a t th' = pending_charge a t th"
  shows "pending_charge a u th' = pending_charge a u th"
  using pending_charge_later [OF assms(1,2), of u t] pending_charge_later [OF assms(3,4), of u t]
    assms(5) by simp

definition nests :: "nat \<Rightarrow> timer_thread \<Rightarrow> timer_thread \<Rightarrow> bool" where
  "nests a th th' \<longleftrightarrow> timer_thread_wf a th' \<and> timer_depth th' = timer_depth th \<and>
     (timer_depth th \<noteq> 0 \<longrightarrow> (\<forall>t. pending_charge a t th' = pending_charge a t th))"

lemma run_scope_nests:
  "timer_thread_wf a th \<Longrightarrow> nests a th (run_scope s th)"
  "timer_thread_wf a th \<Longrightarrow> nests a th (run_scopes ss th)"
proof (induction s th and ss th rule: run_scope_run_scopes.induct)
  case (1 k t0 inner t1 th)
  obtain i th1 where opened: "open_timer k t0 th = (i, th1)" by fastforce
  define th2 where "th2 = run_scopes inner th1"
  have res: "run_scope (Scope k t0 inner t1) th = close_timer i t1 th2"
    by (simp add: opened th2_def)
  have act: "active_metrics th = Some a" using 1 by (simp add: timer_thread_wf_def)
  show ?case
  proof (cases "timer_depth th = timer_capacity")
    case True
    with opened act have "i = None" "th1 = th" by (auto simp: open_timer_def)
    with 1 opened show ?thesis unfolding res by (simp add: close_timer_def th2_def)
  next
    case False
    note op = open_timer_wf [OF 1(2) False opened]
    have "nests a th1 th2" unfolding th2_def by (rule 1(1)) (auto simp: opened op)
    with op have n: "timer_thread_wf a th2" "timer_depth th2 = Suc (timer_depth th)"
        "\<And>t. pending_charge a t th2 = pending_charge a t th1"
      by (auto simp: nests_def)
    note cl = close_timer_wf [OF n(1,2), of t1]
    have "pending_charge a t (close_timer i t1 th2) = pending_charge a t th" if "timer_depth th \<noteq> 0" for t
    proof -
      have "pending_charge a t0 th2 = pending_charge a t0 th" using op n by simp
      then have "pending_charge a t1 th2 = pending_charge a t1 th"
        using pending_charge_move [OF 1(2) that n(1)] n by simp
      then have "pending_charge a t1 (close_timer i t1 th2) = pending_charge a t1 th"
        using cl op by simp
      then show ?thesis
        using pending_charge_move [OF 1(2) that cl(1)] cl that op by simp
    qed
    then show ?thesis using cl op unfolding res by (auto simp: nests_def)
  qed
next
  case (2 th)
  then show ?case by (simp add: nests_def)
next
  case (3 s ss th)
  then show ?case by (auto simp: nests_def)
qed

lemma run_scope_outermost:
  assumes wf: "timer_thread_wf a th" and d: "timer_depth th = 0"
  shows "charged_ns (accumulators (run_scope (Scope k t0 inner t1) th) a) =
    charged_ns (accumulators th a) + word_of_int (t1 - t0)"
proof -
  obtain i th1 where opened: "open_timer k t0 th = (i, th1)" by fastforce
  have room: "timer_depth th \<noteq> timer_capacity" by (simp add: d timer_capacity_def)
  note op = open_timer_wf [OF wf room opened]
  have n: "timer_thread_wf a (run_scopes inner th1)" "timer_depth (run_scopes inner th1) = Suc 0"
    "\<And>t. pending_charge a t (run_scopes inner th1) = pending_charge a t th1"
    using run_scope_nests(2) [OF op(1), of inner] op d by (auto simp: nests_def)
  note cl = close_timer_wf [OF n(1) n(2), of t1]
  have "charged_ns (accumulators (run_scope (Scope k t0 inner t1) th) a) =
      pending_charge a t1 (run_scope (Scope k t0 inner t1) th)"
    using cl op d by (simp add: opened pending_charge_def)
  also have "\<dots> = pending_charge a t1 th1" using cl n op d by (simp add: opened)
  also have "\<dots> = pending_charge a t0 th1 + word_of_int (t1 - t0)"
    using op by (intro pending_charge_later) auto
  also have "\<dots> = charged_ns (accumulators th a) + word_of_int (t1 - t0)"
    using op d by (simp add: pending_charge_def)
  finally show ?thesis .
qed

definition fresh_thread :: "nat \<Rightarrow> timer_thread" where
  "fresh_thread a = \<lparr>accumulators = (\<lambda>_. no_components), active_metrics = Some a,
     timer_entries = replicate timer_capacity \<lparr>te_accumulator = 0, te_component = Conversion, te_started = 0,
       te_elapsed = 0, te_running = False\<rparr>, timer_depth = 0\<rparr>"

section \<open>Properties\<close>

text \<open>C5. However scopes nest on a thread, also beyond the 32 entries of the timer stack, the
  nanoseconds charged to the pipeline's components add up exactly to the wall time of the
  outermost scope.\<close>

theorem component_times_partition:
  assumes "timer_thread_wf a th" and "timer_depth th = 0"
  shows "charged_ns (accumulators (run_scope (Scope k t0 inner t1) th) a) =
    charged_ns (accumulators th a) + word_of_int (t1 - t0)"
  by (rule run_scope_outermost [OF assms])

theorem component_times_partition_witness:
  "charged_ns (accumulators (run_scope
     (Scope Codec 100 [Scope ContainerIO 110 [Scope GpuWait 115 [] 120] 130, Scope Conversion 150 [] 155] 200)
     (fresh_thread 7)) 7) = 100"
  using component_times_partition [of 7 "fresh_thread 7" Codec 100
      "[Scope ContainerIO 110 [Scope GpuWait 115 [] 120] 130, Scope Conversion 150 [] 155]" 200]
  by (simp add: timer_thread_wf_def fresh_thread_def charged_ns_def no_components_def)

end
