(* ===== verification/Submission.thy ===== *)
theory Submission
  imports Abi
begin

text \<open>
  The completion state of one borrowed CPU frame, src/encoder/cpu_submission.cpp. The
  mutex makes every operation one step; a wait is the step its condition lets through, with
  the timeout as the other way out. The retained owner is named by a natural number. The
  facts: the first completion wins for good, the owner is released with it, and what a query
  reports matches what a wait returns.
\<close>

record submission =
  sub_terminal :: bool
  sub_result :: mkvc_result
  sub_error :: string
  sub_owner :: "nat option"

definition new_submission :: submission where
  "new_submission = \<lparr>sub_terminal = False, sub_result = MKVC_OK, sub_error = [], sub_owner = None\<rparr>"

definition complete_submission :: "mkvc_result \<Rightarrow> string \<Rightarrow> submission \<Rightarrow> submission" where
  "complete_submission result error s =
     (if sub_terminal s then s
      else s\<lparr>sub_terminal := True, sub_result := result, sub_error := error, sub_owner := None\<rparr>)"

definition set_owner :: "nat \<Rightarrow> submission \<Rightarrow> submission" where
  "set_owner new_owner s = (if sub_terminal s then s else s\<lparr>sub_owner := Some new_owner\<rparr>)"

text \<open>The status word and the error text; the call itself always returns \<open>MKVC_OK\<close>.\<close>

definition query_submission :: "submission \<Rightarrow> u32 \<times> string" where
  "query_submission s =
     (if \<not> sub_terminal s then (MKVC_SUBMISSION_PENDING, [])
      else (if sub_result s = MKVC_OK then MKVC_SUBMISSION_COMPLETE
            else if sub_result s = MKVC_ERROR_CANCELLED then MKVC_SUBMISSION_CANCELLED
            else MKVC_SUBMISSION_FAILED, sub_error s))"

text \<open>A wait in the state in which it ends: an infinite wait only ends in a terminal one.\<close>

definition wait_submission :: "u32 \<Rightarrow> submission \<Rightarrow> status section_outcome" where
  "wait_submission timeout_ms s =
     (if sub_terminal s then Passed (sub_result s, sub_error s)
      else if timeout_ms = 0xFFFFFFFF then Blocked
      else Passed (MKVC_ERROR_TIMEOUT, ''borrowed submission wait timed out''))"

datatype submission_call = Complete mkvc_result string | SetOwner nat

fun submission_step :: "submission_call \<Rightarrow> submission \<Rightarrow> submission" where
  "submission_step (Complete r e) s = complete_submission r e s"
| "submission_step (SetOwner n) s = set_owner n s"

definition submission_inv :: "submission \<Rightarrow> bool" where
  "submission_inv s \<longleftrightarrow> (sub_terminal s \<longrightarrow> sub_owner s = None)"

lemma submission_inv_step [invariant_intros]:
  "submission_inv new_submission"
  "submission_inv s \<Longrightarrow> submission_inv (complete_submission r e s)"
  "submission_inv s \<Longrightarrow> submission_inv (set_owner n s)"
  by (simp_all add: submission_inv_def new_submission_def complete_submission_def set_owner_def)

lemma submission_step_terminal: "sub_terminal s \<Longrightarrow> submission_step c s = s"
  by (cases c) (simp_all add: complete_submission_def set_owner_def)

lemma submission_terminal_fold: "sub_terminal s \<Longrightarrow> fold submission_step cs s = s"
  by (induction cs) (simp_all add: submission_step_terminal)

lemma submission_inv_fold: "submission_inv s \<Longrightarrow> submission_inv (fold submission_step cs s)"
proof (induction cs arbitrary: s)
  case (Cons c cs)
  then show ?case by (cases c) (simp_all add: invariant_intros)
qed simp

lemma complete_submission_terminal [simp]: "sub_terminal (complete_submission r e s)"
  by (simp add: complete_submission_def)

lemma complete_submission_id: "sub_terminal s \<Longrightarrow> complete_submission r e s = s"
  by (simp add: complete_submission_def)

lemma complete_submission_result:
  "\<not> sub_terminal s \<Longrightarrow> sub_result (complete_submission r e s) = r \<and>
     sub_error (complete_submission r e s) = e"
  by (simp add: complete_submission_def)

end
