(* ===== verification/EncoderSession.thy ===== *)
theory EncoderSession
  imports CpuFrame Metrics Submission
begin

text \<open>
  One encoder session: its state (src/encoder/encoder_session_state.hpp), the calls into the
  backend with their accounting (encoder_backend_execution.cpp), the synchronous operations
  of src/encoder_session.cpp and the critical sections of the asynchronous ones
  (encoder_queue_submission.cpp, encoder_queue_control.cpp, encoder_worker.cpp). Each
  \<^verbatim>\<open>lock_guard\<close> block is one function; a section that begins with a wait on a condition
  variable is \<open>Blocked\<close> in the states its predicate refuses. Times measured by the code are
  arguments. The abstract class EncoderBackend (encoder_backend.hpp) is the record \<open>backend\<close>
  of its virtual functions over a state \<open>'b\<close>: theorems hold for every implementation.

  The interleaving of callers and worker is the subject of EncoderQueue.
\<close>

section \<open>Backends\<close>

text \<open>A backend call returns or throws, charges components and moves the backend's state.
  The adapter's \<^verbatim>\<open>hardware_pending\<close> reads the state.\<close>

record 'b backend =
  be_write :: "frame_view \<Rightarrow> 'b \<Rightarrow> status call \<times> 'b"
  be_flush :: "'b \<Rightarrow> status call \<times> 'b"
  be_close :: "'b \<Rightarrow> status call \<times> 'b"
  be_write_gpu :: "nat \<Rightarrow> 'b \<Rightarrow> status call \<times> 'b"
  be_supports_gpu :: bool
  be_hardware_pending :: "'b \<Rightarrow> u32"

text \<open>\<^verbatim>\<open>EncoderBackendAdapter\<close> for a concrete encoder that takes no GPU frames.\<close>

definition cpu_backend_adapter ::
    "(frame_view \<Rightarrow> 'b \<Rightarrow> status call \<times> 'b) \<Rightarrow> ('b \<Rightarrow> status call \<times> 'b) \<Rightarrow>
     ('b \<Rightarrow> status call \<times> 'b) \<Rightarrow> 'b backend" where
  "cpu_backend_adapter write flush close = \<lparr>be_write = write, be_flush = flush, be_close = close,
     be_write_gpu = (\<lambda>_ b. (Returns (MKVC_ERROR_NOT_SUPPORTED,
       ''GPU frame is not compatible with this encoder backend''), b)),
     be_supports_gpu = False, be_hardware_pending = (\<lambda>_. 0)\<rparr>"

definition gpu_backend_adapter ::
    "(frame_view \<Rightarrow> 'b \<Rightarrow> status call \<times> 'b) \<Rightarrow> ('b \<Rightarrow> status call \<times> 'b) \<Rightarrow>
     ('b \<Rightarrow> status call \<times> 'b) \<Rightarrow> (nat \<Rightarrow> 'b \<Rightarrow> status call \<times> 'b) \<Rightarrow> ('b \<Rightarrow> u32) \<Rightarrow> 'b backend" where
  "gpu_backend_adapter write flush close write_gpu max_pending_observed =
     \<lparr>be_write = write, be_flush = flush, be_close = close, be_write_gpu = write_gpu,
      be_supports_gpu = True, be_hardware_pending = max_pending_observed\<rparr>"

text \<open>Which concrete encoder \<^verbatim>\<open>create_backend\<close> asks for.\<close>

datatype encoder_kind = IntelWebmEncoder | NvidiaWebmEncoder | CpuVp9Encoder | CpuAv1Encoder

definition encoder_kind_of :: "encoder_config \<Rightarrow> encoder_kind option" where
  "encoder_kind_of config =
     (if ec_backend config = MKVC_BACKEND_INTEL then Some IntelWebmEncoder
      else if ec_backend config = MKVC_BACKEND_NVIDIA then Some NvidiaWebmEncoder
      else if ec_codec config = MKVC_CODEC_VP9 then Some CpuVp9Encoder
      else if ec_codec config = MKVC_CODEC_AV1 then Some CpuAv1Encoder
      else None)"

text \<open>\<open>construct\<close> is the concrete type's own factory: an encoder or an error.\<close>

definition create_encoder_backend ::
    "(encoder_kind \<Rightarrow> encoder_config \<Rightarrow> string + 'e) \<Rightarrow> encoder_config \<Rightarrow> string + 'e" where
  "create_encoder_backend construct config =
     (case encoder_kind_of config of
        None \<Rightarrow> Inl ''unsupported encoder backend or codec''
      | Some kind \<Rightarrow> construct kind config)"

section \<open>Session state\<close>

datatype item =
    OwnedItem owned_frame
  | BorrowedItem frame_view nat \<comment> \<open>the submission's index\<close>
  | FlushItem u64

fun is_frame_item :: "item \<Rightarrow> bool" where
  "is_frame_item (FlushItem token) = False"
| "is_frame_item _ = True"

fun item_submission :: "item \<Rightarrow> nat option" where
  "item_submission (BorrowedItem frame i) = Some i"
| "item_submission _ = None"

fun item_frame :: "item \<Rightarrow> owned_frame option" where
  "item_frame (OwnedItem frame) = Some frame"
| "item_frame _ = None"

record 'b session =
  es_backend :: 'b
  es_width :: u32
  es_height :: u32
  es_capacity :: nat
  es_queue :: "item list"
  es_free_frames :: "owned_frame list"
  es_accepting :: bool
  es_close_requested :: bool
  es_closed :: bool
  es_failed :: bool
  es_canceled :: bool
  es_terminal :: status \<comment> \<open>\<open>terminal_result\<close> and \<open>terminal_error\<close>\<close>
  es_next_flush_token :: u64
  es_completed_flush_token :: u64
  es_accepted_frames :: u64
  es_completed_frames :: u64
  es_rejected_frames :: u64
  es_queue_wait_ns :: u64
  es_backend_time_ns :: u64
  es_stages :: stage_metrics
  es_copy_edges :: copy_edge_counters
  es_peak_queue_depth :: u32
  es_hardware_pending_peak :: u32
  es_copy_path :: u32
  es_hardware_backend :: bool
  es_require_gpu_resident :: bool
  es_allow_gpu_copy :: bool
  es_allow_cpu_copy :: bool
  es_cpu_layout_mode :: u32
  es_cpu_required_alignment :: u32
  es_test_fail_after :: "u64 option" \<comment> \<open>absent without MKVC_ENABLE_TEST_HOOKS\<close>
  es_submissions :: "submission list" \<comment> \<open>the shared completion states handed out\<close>

definition new_session :: "'b \<Rightarrow> encoder_config \<Rightarrow> u64 option \<Rightarrow> 'b session" where
  "new_session b config test_fail_after = \<lparr>es_backend = b, es_width = ec_width config,
     es_height = ec_height config, es_capacity = unat (ec_queue_size config), es_queue = [],
     es_free_frames = replicate (unat (ec_queue_size config)) new_owned_frame,
     es_accepting = True, es_close_requested = False, es_closed = False, es_failed = False,
     es_canceled = False, es_terminal = ok, es_next_flush_token = 0,
     es_completed_flush_token = 0, es_accepted_frames = 0, es_completed_frames = 0,
     es_rejected_frames = 0, es_queue_wait_ns = 0, es_backend_time_ns = 0, es_stages = no_stages,
     es_copy_edges = no_copies, es_peak_queue_depth = 0, es_hardware_pending_peak = 0,
     es_copy_path = MKVC_COPY_PATH_UNKNOWN,
     es_hardware_backend = (ec_backend config \<noteq> MKVC_BACKEND_CPU),
     es_require_gpu_resident = False, es_allow_gpu_copy = True, es_allow_cpu_copy = True,
     es_cpu_layout_mode = MKVC_CPU_LAYOUT_ALLOW_COPY, es_cpu_required_alignment = 1,
     es_test_fail_after = test_fail_after, es_submissions = []\<rparr>"

definition create_session ::
    "(encoder_kind \<Rightarrow> encoder_config \<Rightarrow> string + 'b) \<Rightarrow> encoder_config \<Rightarrow> u64 option \<Rightarrow>
     string + 'b session" where
  "create_session construct config test_fail_after =
     (case create_encoder_backend construct config of
        Inl error \<Rightarrow> Inl error
      | Inr b \<Rightarrow> Inr (new_session b config test_fail_after))"

definition stopped_result :: "'b session \<Rightarrow> status" where
  "stopped_result s =
     (if es_canceled s then (MKVC_ERROR_CANCELLED, ''encoder was cancelled'')
      else (MKVC_ERROR_INVALID_STATE, ''encoder is closing or closed''))"

text \<open>A complete call on the shared state of submission \<open>i\<close>.\<close>

definition complete_at :: "nat \<Rightarrow> mkvc_result \<Rightarrow> string \<Rightarrow> submission list \<Rightarrow> submission list" where
  "complete_at i r e subs = subs[i := complete_submission r e (subs ! i)]"

definition complete_item :: "mkvc_result \<Rightarrow> string \<Rightarrow> item \<Rightarrow> submission list \<Rightarrow> submission list" where
  "complete_item r e it subs =
     (case item_submission it of None \<Rightarrow> subs | Some i \<Rightarrow> complete_at i r e subs)"

text \<open>\<^verbatim>\<open>fail_queued_submissions\<close>\<close>

definition fail_queued_submissions ::
    "mkvc_result \<Rightarrow> string \<Rightarrow> item list \<Rightarrow> submission list \<Rightarrow> submission list" where
  "fail_queued_submissions r e queue subs = fold (complete_item r e) queue subs"

section \<open>Accounting\<close>

definition observe_copy_path :: "u32 \<Rightarrow> 'b session \<Rightarrow> 'b session" where
  "observe_copy_path path s = s\<lparr>es_copy_path := merge_copy_path (es_copy_path s) path\<rparr>"

definition observe_pending :: "u32 \<Rightarrow> 'b session \<Rightarrow> 'b session" where
  "observe_pending pending s =
     s\<lparr>es_hardware_pending_peak := max (es_hardware_pending_peak s) pending\<rparr>"

definition add_edge :: "copy_edge \<Rightarrow> 'b session \<Rightarrow> 'b session" where
  "add_edge edge s = s\<lparr>es_copy_edges := add_copy edge (es_copy_edges s)\<rparr>"

definition native_format :: "'b session \<Rightarrow> u32" where
  "native_format s = (if es_hardware_backend s then MKVC_PIXEL_FORMAT_NV12 else MKVC_PIXEL_FORMAT_I420)"

text \<open>The edges of a CPU frame that reached the backend.\<close>

definition add_encode_edges :: "u32 \<Rightarrow> 'b session \<Rightarrow> 'b session" where
  "add_encode_edges format s =
     (let s = (if es_hardware_backend s then add_edge CpuUpload s else s)
      in if format \<noteq> native_format s then add_edge PixelConversion s else s)"

section \<open>Synchronous execution\<close>

definition account_sync_frame :: "u64 \<Rightarrow> u32 \<Rightarrow> 'b session \<Rightarrow> 'b session" where
  "account_sync_frame elapsed pending s = observe_pending pending
     (s\<lparr>es_backend_time_ns := es_backend_time_ns s + elapsed,
        es_stages := count_sync_frame elapsed (es_stages s)\<rparr>)"

definition write_cpu_sync :: "'b backend \<Rightarrow> u64 \<Rightarrow> frame_view \<Rightarrow> 'b session \<Rightarrow> status call \<times> 'b session" where
  "write_cpu_sync ops elapsed frame s =
     (case be_write ops frame (es_backend s) of
        (Throws what, b) \<Rightarrow> (Throws what, s\<lparr>es_backend := b\<rparr>)
      | (Returns (r, e), b) \<Rightarrow>
          let s = account_sync_frame elapsed (be_hardware_pending ops b) (s\<lparr>es_backend := b\<rparr>)
          in (Returns (r, e),
              if r = MKVC_OK
              then observe_copy_path MKVC_COPY_PATH_CPU
                     (s\<lparr>es_accepted_frames := es_accepted_frames s + 1,
                        es_completed_frames := es_completed_frames s + 1\<rparr>)
              else s))"

definition write_gpu_sync_locked :: "'b backend \<Rightarrow> u64 \<Rightarrow> nat \<Rightarrow> 'b session \<Rightarrow> status call \<times> 'b session" where
  "write_gpu_sync_locked ops elapsed gpu_frame s =
     (case be_write_gpu ops gpu_frame (es_backend s) of
        (Throws what, b) \<Rightarrow> (Throws what, s\<lparr>es_backend := b\<rparr>)
      | (Returns (r, e), b) \<Rightarrow>
          let s = account_sync_frame elapsed (be_hardware_pending ops b) (s\<lparr>es_backend := b\<rparr>)
          in (Returns (r, e),
              if r = MKVC_OK
              then add_edge ZeroCopy (add_edge SharedSurface
                     (observe_copy_path MKVC_COPY_PATH_ZERO_COPY
                       (s\<lparr>es_accepted_frames := es_accepted_frames s + 1,
                          es_completed_frames := es_completed_frames s + 1\<rparr>)))
              else s))"

definition flush_sync :: "'b backend \<Rightarrow> u64 \<Rightarrow> 'b session \<Rightarrow> status call \<times> 'b session" where
  "flush_sync ops elapsed s =
     (case be_flush ops (es_backend s) of
        (Throws what, b) \<Rightarrow> (Throws what, s\<lparr>es_backend := b\<rparr>)
      | (Returns st, b) \<Rightarrow> (Returns st, observe_pending (be_hardware_pending ops b)
          (s\<lparr>es_backend := b, es_backend_time_ns := es_backend_time_ns s + elapsed,
             es_stages := count_flush elapsed (es_stages s)\<rparr>)))"

definition close_sync :: "'b backend \<Rightarrow> u64 \<Rightarrow> 'b session \<Rightarrow> status call \<times> 'b session" where
  "close_sync ops elapsed s =
     (case be_close ops (es_backend s) of
        (Throws what, b) \<Rightarrow> (Throws what, s\<lparr>es_backend := b\<rparr>)
      | (Returns st, b) \<Rightarrow> (Returns st, observe_pending (be_hardware_pending ops b)
          (s\<lparr>es_backend := b, es_backend_time_ns := es_backend_time_ns s + elapsed,
             es_stages := count_close elapsed (es_stages s)\<rparr>)))"

section \<open>Entry checks and policies\<close>

text \<open>The locked prologue of \<^verbatim>\<open>EncoderSession::write\<close>: the status it returns early, if any.\<close>

definition write_check :: "frame_view \<Rightarrow> 'b session \<Rightarrow> status option" where
  "write_check frame s =
     (if es_require_gpu_resident s \<or> \<not> es_allow_cpu_copy s
      then Some (MKVC_ERROR_NOT_SUPPORTED, ''CPU frame submission is prohibited by copy policy'')
      else if es_failed s then Some (es_terminal s)
      else if es_canceled s then Some (MKVC_ERROR_CANCELLED, ''encoder was cancelled'')
      else if \<not> es_accepting s then Some (stopped_result s)
      else let layout = validate_cpu_frame_layout frame (es_width s) (es_height s)
                          (es_cpu_layout_mode s) (es_cpu_required_alignment s)
           in if fst layout \<noteq> MKVC_OK then Some layout else None)"

text \<open>\<^verbatim>\<open>write\<close> of a session without a queue.\<close>

definition write_synchronous :: "'b backend \<Rightarrow> u64 \<Rightarrow> frame_view \<Rightarrow> 'b session \<Rightarrow> status call \<times> 'b session" where
  "write_synchronous ops elapsed frame s =
     (case write_check frame s of
        Some st \<Rightarrow> (Returns st, s)
      | None \<Rightarrow>
          (case write_cpu_sync ops elapsed frame s of
             (Throws what, s) \<Rightarrow> (Throws what, s)
           | (Returns st, s) \<Rightarrow> (Returns st,
               if fst st = MKVC_OK
               then add_encode_edges (fv_pixel_format frame) (add_edge CpuNormalization s) else s)))"

definition write_borrowed :: "'b backend \<Rightarrow> u64 \<Rightarrow> frame_view \<Rightarrow> 'b session \<Rightarrow> status call \<times> 'b session" where
  "write_borrowed ops elapsed frame s =
     (if es_capacity s \<noteq> 0
      then (Returns (MKVC_ERROR_NOT_SUPPORTED, ''borrowed CPU writes require queue_size=0''), s)
      else if es_failed s then (Returns (es_terminal s), s)
      else if \<not> es_accepting s then (Returns (stopped_result s), s)
      else (case write_cpu_sync ops elapsed frame s of
              (Throws what, s) \<Rightarrow> (Throws what, s)
            | (Returns st, s) \<Rightarrow> (Returns st,
                if fst st = MKVC_OK
                then add_encode_edges (fv_pixel_format frame)
                       (add_edge CpuNormalization (add_edge ZeroCopy s)) else s)))"

definition set_copy_policy :: "'b backend \<Rightarrow> copy_policy \<Rightarrow> 'b session \<Rightarrow> status \<times> 'b session" where
  "set_copy_policy ops policy s =
     (if es_accepted_frames s \<noteq> 0 \<or> es_completed_frames s \<noteq> 0
      then ((MKVC_ERROR_INVALID_STATE, ''copy policy must be set before the first encoder frame''), s)
      else if (cp_require_gpu_resident policy \<noteq> 0 \<or> cp_allow_cpu_copy policy = 0) \<and> es_capacity s \<noteq> 0
      then ((MKVC_ERROR_NOT_SUPPORTED, ''GPU-resident encoding currently requires queue_size=0''), s)
      else if cp_require_gpu_resident policy \<noteq> 0 \<and> \<not> be_supports_gpu ops
      then ((MKVC_ERROR_NOT_SUPPORTED, ''GPU-resident encoding is unavailable for this backend''), s)
      else if cp_require_gpu_resident policy \<noteq> 0 \<and> cp_allow_cpu_copy policy \<noteq> 0
      then ((MKVC_ERROR_INVALID_ARGUMENT, ''require_gpu_resident conflicts with allow_cpu_copy''), s)
      else (ok, s\<lparr>es_require_gpu_resident := cp_require_gpu_resident policy \<noteq> 0,
                  es_allow_gpu_copy := cp_allow_gpu_copy policy \<noteq> 0,
                  es_allow_cpu_copy := cp_allow_cpu_copy policy \<noteq> 0\<rparr>))"

definition set_cpu_layout_policy :: "cpu_layout_policy \<Rightarrow> 'b session \<Rightarrow> status \<times> 'b session" where
  "set_cpu_layout_policy policy s =
     (if es_accepted_frames s \<noteq> 0 \<or> es_completed_frames s \<noteq> 0
      then ((MKVC_ERROR_INVALID_STATE,
             ''CPU layout policy must be set before the first encoder frame''), s)
      else (ok, s\<lparr>es_cpu_layout_mode := lp_mode policy,
                  es_cpu_required_alignment := lp_required_alignment policy\<rparr>))"

definition write_gpu :: "'b backend \<Rightarrow> u64 \<Rightarrow> nat \<Rightarrow> 'b session \<Rightarrow> status call \<times> 'b session" where
  "write_gpu ops elapsed gpu_frame s =
     (if es_capacity s \<noteq> 0
      then (Returns (MKVC_ERROR_NOT_SUPPORTED, ''GPU frame submission currently requires queue_size=0''), s)
      else if es_failed s then (Returns (es_terminal s), s)
      else if \<not> es_accepting s \<or> es_closed s then (Returns (stopped_result s), s)
      else if \<not> be_supports_gpu ops
      then (Returns (MKVC_ERROR_NOT_SUPPORTED,
              ''GPU frame is not compatible with this encoder backend''), s)
      else write_gpu_sync_locked ops elapsed gpu_frame s)"

text \<open>\<^verbatim>\<open>flush\<close> of a session without a queue.\<close>

definition flush_synchronous :: "'b backend \<Rightarrow> u64 \<Rightarrow> 'b session \<Rightarrow> status call \<times> 'b session" where
  "flush_synchronous ops elapsed s =
     (if es_canceled s then (Returns (MKVC_ERROR_CANCELLED, ''encoder was cancelled''), s)
      else if es_failed s then (Returns (es_terminal s), s)
      else flush_sync ops elapsed s)"

definition get_metrics :: "'b session \<Rightarrow> pipeline_metrics" where
  "get_metrics s = \<lparr>pm_accepted_frames = es_accepted_frames s,
     pm_completed_frames = es_completed_frames s, pm_rejected_frames = es_rejected_frames s,
     pm_queue_wait_ns = es_queue_wait_ns s, pm_backend_time_ns = es_backend_time_ns s,
     pm_queue_capacity = of_nat (es_capacity s), pm_peak_queue_depth = es_peak_queue_depth s,
     pm_hardware_pending_peak = es_hardware_pending_peak s, pm_copy_path = es_copy_path s\<rparr>"

definition get_stage_metrics :: "'b session \<Rightarrow> u32 \<times> u32 \<times> stage_metrics" where
  "get_stage_metrics s = (sizeof_stage_metrics, 1, es_stages s)"

definition get_copy_edge_metrics :: "'b session \<Rightarrow> copy_edge_metrics" where
  "get_copy_edge_metrics s = copy_edge_snapshot (es_copy_edges s)"

end
