(* ===== verification/EncoderQueue.thy ===== *)
theory EncoderQueue
  imports EncoderSession
begin

text \<open>
  The asynchronous encoder: callers that write, submit borrowed frames, flush, cancel and
  close (src/encoder/encoder_queue_submission.cpp, encoder_queue_control.cpp) against the
  worker thread (encoder_worker.cpp). A caller and the worker are program counters; one step
  runs one critical section, one deep copy or one backend call, so every interleaving of the
  code's locked blocks is an execution. The system record adds the history of the queue,
  which the code does not keep.

  The facts are invariants of the reachable systems: the queue is bounded and first-in
  first-out, the backend has executed exactly a prefix of what was accepted, in order, a
  flush returns success only behind its barrier, and a finished worker leaves no submission
  pending and no caller blocked.
\<close>

section \<open>Callers\<close>

datatype caller =
    Idle
  | Returned status
  | WriteChecked frame_view bool \<comment> \<open>entering \<open>enqueue_owned\<close>\<close>
  | WriteTake frame_view bool \<comment> \<open>about to take a free frame\<close>
  | WriteCopy frame_view bool owned_frame
  | WritePush frame_view bool owned_frame
  | WriteAbort owned_frame status \<comment> \<open>the copy failed\<close>
  | SubmitChecked frame_view
  | SubmitPush frame_view
  | CountEdge copy_edge \<comment> \<open>success; the copy edge is counted behind the lock\<close>
  | FlushStart
  | FlushWait u64
  | CloseJoin
  | UndefinedBehaviour

datatype request = Write frame_view bool | SubmitBorrowed frame_view | Flush | Cancel | Close
  | SetCpuLayoutPolicy cpu_layout_policy | SetOwner nat nat

definition has_room :: "'b session \<Rightarrow> bool" where
  "has_room s \<longleftrightarrow> length (es_queue s) < es_capacity s"

definition count_rejected :: "'b session \<Rightarrow> 'b session" where
  "count_rejected s = s\<lparr>es_rejected_frames := es_rejected_frames s + 1\<rparr>"

definition count_wait :: "u64 \<Rightarrow> 'b session \<Rightarrow> 'b session" where
  "count_wait elapsed s = s\<lparr>es_queue_wait_ns := es_queue_wait_ns s + elapsed\<rparr>"

definition return_frame :: "owned_frame \<Rightarrow> 'b session \<Rightarrow> 'b session" where
  "return_frame owned s = s\<lparr>es_free_frames := es_free_frames s @ [owned]\<rparr>"

definition push_frame :: "item \<Rightarrow> 'b session \<Rightarrow> 'b session" where
  "push_frame it s = s\<lparr>es_queue := es_queue s @ [it], es_accepted_frames := es_accepted_frames s + 1,
     es_peak_queue_depth := max (es_peak_queue_depth s) (of_nat (Suc (length (es_queue s))))\<rparr>"

text \<open>\<^verbatim>\<open>enqueue_owned\<close>, section by section.\<close>

definition enqueue_owned_enter :: "frame_view \<Rightarrow> bool \<Rightarrow> 'b session \<Rightarrow> caller" where
  "enqueue_owned_enter frame block s =
     (if es_failed s then Returned (es_terminal s)
      else if \<not> es_accepting s then Returned (stopped_result s)
      else if fv_width frame \<noteq> es_width s \<or> fv_height frame \<noteq> es_height s
      then Returned (MKVC_ERROR_INVALID_ARGUMENT,
             ''frame dimensions do not match encoder configuration'')
      else WriteTake frame block)"

definition enqueue_owned_take ::
    "u64 \<Rightarrow> frame_view \<Rightarrow> bool \<Rightarrow> 'b session \<Rightarrow> (caller \<times> 'b session) section_outcome" where
  "enqueue_owned_take elapsed frame block s =
     (let full = (\<not> has_room s \<or> es_free_frames s = []) in
      if \<not> block \<and> full then Passed (Returned (MKVC_WOULD_BLOCK, []), count_rejected s)
      else if block \<and> full \<and> es_accepting s \<and> \<not> es_failed s then Blocked
      else let s = (if block then count_wait elapsed s else s) in
           if es_failed s then Passed (Returned (es_terminal s), s)
           else if \<not> es_accepting s then Passed (Returned (stopped_result s), s)
           else if full then Passed (Returned (MKVC_WOULD_BLOCK, []), count_rejected s)
           else Passed (WriteCopy frame block (hd (es_free_frames s)),
                        s\<lparr>es_free_frames := tl (es_free_frames s)\<rparr>))"

definition enqueue_owned_copy :: "frame_view \<Rightarrow> bool \<Rightarrow> owned_frame \<Rightarrow> caller" where
  "enqueue_owned_copy frame block owned =
     (case own_frame frame owned of
        None \<Rightarrow> UndefinedBehaviour
      | Some (st, owned) \<Rightarrow>
          if fst st \<noteq> MKVC_OK then WriteAbort owned st else WritePush frame block owned)"

definition enqueue_owned_push ::
    "u64 \<Rightarrow> bool \<Rightarrow> owned_frame \<Rightarrow> 'b session \<Rightarrow> (caller \<times> 'b session) section_outcome" where
  "enqueue_owned_push elapsed block owned s =
     (if block \<and> \<not> has_room s \<and> es_accepting s \<and> \<not> es_failed s then Blocked
      else let s = (if block then count_wait elapsed s else s) in
           if es_failed s then Passed (Returned (es_terminal s), return_frame owned s)
           else if \<not> es_accepting s then Passed (Returned (stopped_result s), return_frame owned s)
           else if \<not> has_room s
           then Passed (Returned (MKVC_WOULD_BLOCK, []), count_rejected (return_frame owned s))
           else Passed (CountEdge CpuNormalization, push_frame (OwnedItem owned) s))"

text \<open>\<^verbatim>\<open>submit_borrowed\<close> and \<^verbatim>\<open>enqueue_borrowed\<close>\<close>

definition submit_check :: "frame_view \<Rightarrow> 'b session \<Rightarrow> caller" where
  "submit_check frame s =
     (let layout = validate_cpu_frame_layout frame (es_width s) (es_height s)
                     (es_cpu_layout_mode s) (es_cpu_required_alignment s)
      in if fst layout \<noteq> MKVC_OK then Returned layout else SubmitChecked frame)"

definition enqueue_borrowed_enter :: "frame_view \<Rightarrow> 'b session \<Rightarrow> caller" where
  "enqueue_borrowed_enter frame s =
     (if fv_width frame \<noteq> es_width s \<or> fv_height frame \<noteq> es_height s
      then Returned (MKVC_ERROR_INVALID_ARGUMENT,
             ''frame dimensions do not match encoder configuration'')
      else let validation = validate_borrowed_frame frame in
           if fst validation \<noteq> MKVC_OK then Returned validation else SubmitPush frame)"

definition enqueue_borrowed_push ::
    "u64 \<Rightarrow> frame_view \<Rightarrow> 'b session \<Rightarrow> (caller \<times> 'b session) section_outcome" where
  "enqueue_borrowed_push elapsed frame s =
     (if es_capacity s = 0
      then Passed (Returned (MKVC_ERROR_NOT_SUPPORTED,
             ''async borrowed submission requires queue_size greater than zero''), s)
      else if es_require_gpu_resident s \<or> \<not> es_allow_cpu_copy s
      then Passed (Returned (MKVC_ERROR_NOT_SUPPORTED,
             ''CPU frame submission is prohibited by copy policy''), s)
      else if \<not> has_room s \<and> es_accepting s \<and> \<not> es_failed s then Blocked
      else let s = count_wait elapsed s in
           if es_failed s then Passed (Returned (es_terminal s), s)
           else if \<not> es_accepting s then Passed (Returned (stopped_result s), s)
           else Passed (CountEdge ZeroCopy,
                  push_frame (BorrowedItem frame (length (es_submissions s)))
                    (s\<lparr>es_submissions := es_submissions s @ [new_submission]\<rparr>)))"

text \<open>\<^verbatim>\<open>flush_and_wait\<close>: the second wait releases the lock.\<close>

definition flush_enqueue :: "'b session \<Rightarrow> (caller \<times> 'b session) section_outcome" where
  "flush_enqueue s =
     (if \<not> has_room s \<and> es_accepting s \<and> \<not> es_failed s then Blocked
      else if es_failed s then Passed (Returned (es_terminal s), s)
      else if \<not> es_accepting s then Passed (Returned (stopped_result s), s)
      else let token = es_next_flush_token s + 1 in
           Passed (FlushWait token, s\<lparr>es_next_flush_token := token,
                     es_queue := es_queue s @ [FlushItem token]\<rparr>))"

definition flush_finish :: "u64 \<Rightarrow> 'b session \<Rightarrow> (caller \<times> 'b session) section_outcome" where
  "flush_finish token s =
     (if \<not> (es_completed_flush_token s \<ge> token \<or> es_failed s \<or> es_canceled s) then Blocked
      else if es_failed s then Passed (Returned (es_terminal s), s)
      else if es_canceled s then Passed (Returned (MKVC_ERROR_CANCELLED, ''encoder was cancelled''), s)
      else Passed (Returned ok, s))"

definition cancel_session :: "'b session \<Rightarrow> status \<times> 'b session" where
  "cancel_session s =
     (if es_closed s \<or> es_canceled s then (ok, s)
      else if es_failed s then (es_terminal s, s)
      else (ok, s\<lparr>es_canceled := True, es_accepting := False,
                  es_close_requested := es_capacity s \<noteq> 0 \<or> es_close_requested s,
                  es_submissions := fail_queued_submissions MKVC_ERROR_CANCELLED
                    ''encoder submission was cancelled'' (es_queue s) (es_submissions s),
                  es_free_frames := es_free_frames s @ List.map_filter item_frame (es_queue s),
                  es_queue := []\<rparr>))"

definition close_request :: "'b session \<Rightarrow> 'b session" where
  "close_request s =
     (if es_close_requested s then s
      else s\<lparr>es_accepting := False, es_close_requested := True\<rparr>)"

definition close_result :: "'b session \<Rightarrow> status" where
  "close_result s = (if es_failed s then es_terminal s else ok)"

fun start_request :: "request \<Rightarrow> 'b session \<Rightarrow> caller \<times> 'b session" where
  "start_request (Write frame block) s =
     ((case write_check frame s of Some st \<Rightarrow> Returned st | None \<Rightarrow> WriteChecked frame block), s)"
| "start_request (SubmitBorrowed frame) s = (submit_check frame s, s)"
| "start_request Flush s = (FlushStart, s)"
| "start_request Cancel s = (let (st, s) = cancel_session s in (Returned st, s))"
| "start_request Close s = (CloseJoin, close_request s)"
| "start_request (SetCpuLayoutPolicy policy) s =
     (let (st, s) = set_cpu_layout_policy policy s in (Returned st, s))"
| "start_request (SetOwner i owner) s =
     (Returned ok, if i < length (es_submissions s)
        then s\<lparr>es_submissions := (es_submissions s)[i := set_owner owner (es_submissions s ! i)]\<rparr>
        else s)"

text \<open>The next section of a caller, given whether the worker thread can be joined.\<close>

fun caller_step :: "u64 \<Rightarrow> bool \<Rightarrow> caller \<Rightarrow> 'b session \<Rightarrow> (caller \<times> 'b session) section_outcome" where
  "caller_step elapsed finished (WriteChecked frame block) s =
     Passed (enqueue_owned_enter frame block s, s)"
| "caller_step elapsed finished (WriteTake frame block) s = enqueue_owned_take elapsed frame block s"
| "caller_step elapsed finished (WriteCopy frame block owned) s =
     Passed (enqueue_owned_copy frame block owned, s)"
| "caller_step elapsed finished (WritePush frame block owned) s =
     enqueue_owned_push elapsed block owned s"
| "caller_step elapsed finished (WriteAbort owned st) s = Passed (Returned st, return_frame owned s)"
| "caller_step elapsed finished (SubmitChecked frame) s = Passed (enqueue_borrowed_enter frame s, s)"
| "caller_step elapsed finished (SubmitPush frame) s = enqueue_borrowed_push elapsed frame s"
| "caller_step elapsed finished (CountEdge edge) s = Passed (Returned ok, add_edge edge s)"
| "caller_step elapsed finished FlushStart s = flush_enqueue s"
| "caller_step elapsed finished (FlushWait token) s = flush_finish token s"
| "caller_step elapsed finished CloseJoin s =
     (if finished then Passed (Returned (close_result s), s) else Blocked)"
| "caller_step elapsed finished Idle s = Passed (Idle, s)"
| "caller_step elapsed finished (Returned st) s = Passed (Returned st, s)"
| "caller_step elapsed finished UndefinedBehaviour s = Passed (UndefinedBehaviour, s)"

section \<open>The worker\<close>

datatype worker =
    Waiting
  | Holding item bool \<comment> \<open>with the injected failure of the test hooks\<close>
  | Executed item status u32 u32 \<comment> \<open>result, pixel format, hardware pending\<close>
  | Closing "nat option" \<comment> \<open>left the loop with this active submission\<close>
  | ClosedBackend status u32
  | Caught "string option" "nat option"
  | Finished

fun joinable :: "worker \<Rightarrow> bool" where \<comment> \<open>a join returns once the thread function has\<close>
  "joinable Finished = True"
| "joinable _ = False"

lemma joinable_iff [simp]: "joinable w \<longleftrightarrow> w = Finished"
  by (cases w) simp_all

definition worker_take :: "'b session \<Rightarrow> (worker \<times> 'b session) section_outcome" where
  "worker_take s =
     (case es_queue s of
        [] \<Rightarrow> if es_close_requested s then Passed (Closing None, s) else Blocked
      | it # queue \<Rightarrow>
          Passed (Holding it (is_frame_item it \<and>
              (case es_test_fail_after s of None \<Rightarrow> False | Some n \<Rightarrow> es_completed_frames s \<ge> n)),
            s\<lparr>es_queue := queue\<rparr>))"

fun item_view :: "(nat \<Rightarrow> u64) \<Rightarrow> item \<Rightarrow> frame_view option" where
  "item_view address_of (OwnedItem frame) = Some (owned_view address_of frame)"
| "item_view address_of (BorrowedItem frame i) = Some frame"
| "item_view address_of (FlushItem token) = None"

text \<open>The backend call of one item: what it returned, the frame's format, the new backend.\<close>

definition execute_item ::
    "'b backend \<Rightarrow> (nat \<Rightarrow> u64) \<Rightarrow> item \<Rightarrow> bool \<Rightarrow> 'b \<Rightarrow> (status call \<times> u32) \<times> 'b" where
  "execute_item ops address_of it inject b =
     (case item_view address_of it of
        None \<Rightarrow> (let (r, b) = be_flush ops b in ((r, 0), b))
      | Some view \<Rightarrow>
          if inject
          then ((Returns (MKVC_ERROR_IO, ''injected asynchronous backend device loss''), 0), b)
          else (let (r, b) = be_write ops view b in ((r, fv_pixel_format view), b)))"

definition worker_execute ::
    "'b backend \<Rightarrow> (nat \<Rightarrow> u64) \<Rightarrow> item \<Rightarrow> bool \<Rightarrow> 'b session \<Rightarrow> worker \<times> 'b session" where
  "worker_execute ops address_of it inject s =
     (case execute_item ops address_of it inject (es_backend s) of
        ((Throws what, format), b) \<Rightarrow> (Caught what (item_submission it), s\<lparr>es_backend := b\<rparr>)
      | ((Returns st, format), b) \<Rightarrow>
          (Executed it st format (be_hardware_pending ops b), s\<lparr>es_backend := b\<rparr>))"

definition complete_frame :: "item \<Rightarrow> u32 \<Rightarrow> 'b session \<Rightarrow> 'b session" where
  "complete_frame it format s =
     (let s = (if item_submission it \<noteq> None then add_edge CpuNormalization s else s);
          s = add_encode_edges format s
      in observe_copy_path MKVC_COPY_PATH_CPU
           (s\<lparr>es_submissions := complete_item MKVC_OK [] it (es_submissions s),
              es_completed_frames := es_completed_frames s + 1\<rparr>))"

definition account_item :: "u64 \<Rightarrow> u32 \<Rightarrow> item \<Rightarrow> 'b session \<Rightarrow> 'b session" where
  "account_item elapsed pending it s =
     (let s = observe_pending pending (s\<lparr>es_backend_time_ns := es_backend_time_ns s + elapsed,
                es_stages := (if is_frame_item it then count_worker_frame elapsed (es_stages s)
                              else count_flush elapsed (es_stages s))\<rparr>)
      in case item_frame it of None \<Rightarrow> s | Some frame \<Rightarrow> return_frame frame s)"

definition fail_session :: "item \<Rightarrow> status \<Rightarrow> 'b session \<Rightarrow> 'b session" where
  "fail_session it st s = s\<lparr>
     es_submissions := fail_queued_submissions (fst st) (snd st) (es_queue s)
       (complete_item (fst st) (snd st) it (es_submissions s)),
     es_failed := True, es_accepting := False, es_terminal := st, es_queue := []\<rparr>"

definition worker_finish ::
    "u64 \<Rightarrow> item \<Rightarrow> status \<Rightarrow> u32 \<Rightarrow> u32 \<Rightarrow> 'b session \<Rightarrow> worker \<times> 'b session" where
  "worker_finish elapsed it st format pending s =
     (let s = account_item elapsed pending it s in
      if fst st \<noteq> MKVC_OK then (Closing (item_submission it), fail_session it st s)
      else (case it of
          FlushItem token \<Rightarrow> (Waiting, s\<lparr>es_completed_flush_token := token\<rparr>)
        | _ \<Rightarrow> (Waiting, complete_frame it format s)))"

definition worker_close :: "'b backend \<Rightarrow> nat option \<Rightarrow> 'b session \<Rightarrow> worker \<times> 'b session" where
  "worker_close ops active s =
     (case be_close ops (es_backend s) of
        (Throws what, b) \<Rightarrow> (Caught what active, s\<lparr>es_backend := b\<rparr>)
      | (Returns st, b) \<Rightarrow> (ClosedBackend st (be_hardware_pending ops b), s\<lparr>es_backend := b\<rparr>))"

definition worker_close_finish :: "u64 \<Rightarrow> status \<Rightarrow> u32 \<Rightarrow> 'b session \<Rightarrow> 'b session" where
  "worker_close_finish elapsed st pending s =
     (let s = observe_pending pending (s\<lparr>es_backend_time_ns := es_backend_time_ns s + elapsed,
                es_stages := count_close elapsed (es_stages s)\<rparr>);
          s = (if \<not> es_failed s \<and> fst st \<noteq> MKVC_OK then s\<lparr>es_failed := True, es_terminal := st\<rparr> else s)
      in s\<lparr>es_closed := True, es_accepting := False\<rparr>)"

text \<open>The two catch clauses.\<close>

definition worker_catch :: "string option \<Rightarrow> nat option \<Rightarrow> 'b session \<Rightarrow> 'b session" where
  "worker_catch what active s =
     (let error = (case what of Some text \<Rightarrow> text | None \<Rightarrow> ''unknown asynchronous encoder failure'');
          subs = (case active of None \<Rightarrow> es_submissions s
                  | Some i \<Rightarrow> complete_at i MKVC_ERROR_INTERNAL error (es_submissions s))
      in s\<lparr>es_submissions := fail_queued_submissions MKVC_ERROR_INTERNAL error (es_queue s) subs,
           es_failed := True, es_closed := True, es_accepting := False,
           es_terminal := (MKVC_ERROR_INTERNAL, error)\<rparr>)"

fun worker_step ::
    "'b backend \<Rightarrow> (nat \<Rightarrow> u64) \<Rightarrow> u64 \<Rightarrow> worker \<Rightarrow> 'b session \<Rightarrow> (worker \<times> 'b session) section_outcome" where
  "worker_step ops address_of elapsed Waiting s = worker_take s"
| "worker_step ops address_of elapsed (Holding it inject) s =
     Passed (worker_execute ops address_of it inject s)"
| "worker_step ops address_of elapsed (Executed it st format pending) s =
     Passed (worker_finish elapsed it st format pending s)"
| "worker_step ops address_of elapsed (Closing active) s = Passed (worker_close ops active s)"
| "worker_step ops address_of elapsed (ClosedBackend st pending) s =
     Passed (Finished, worker_close_finish elapsed st pending s)"
| "worker_step ops address_of elapsed (Caught what active) s =
     Passed (Finished, worker_catch what active s)"
| "worker_step ops address_of elapsed Finished s = Blocked"

section \<open>The system\<close>

record 'b system =
  sy_session :: "'b session"
  sy_worker :: worker
  sy_callers :: "caller list"
  sy_enqueued :: "item list" \<comment> \<open>every item ever queued\<close>
  sy_taken :: "(item \<times> bool) list" \<comment> \<open>what the worker removed, with the injected failure\<close>
  sy_done :: "(item \<times> bool) list" \<comment> \<open>what the backend finished successfully\<close>
  sy_dropped :: "item list" \<comment> \<open>discarded by a cancel or a failure\<close>

fun at_rest :: "caller \<Rightarrow> bool" where
  "at_rest Idle = True"
| "at_rest (Returned st) = True"
| "at_rest _ = False"

definition initial_system :: "'b \<Rightarrow> encoder_config \<Rightarrow> u64 option \<Rightarrow> nat \<Rightarrow> 'b system" where
  "initial_system b config test_fail_after n = \<lparr>sy_session = new_session b config test_fail_after,
     sy_worker = Waiting, sy_callers = replicate n Idle, sy_enqueued = [], sy_taken = [],
     sy_done = [], sy_dropped = []\<rparr>"

text \<open>A section of a caller leaves the queue, adds at its end or clears it.\<close>

definition caller_moves :: "nat \<Rightarrow> caller \<Rightarrow> 'b session \<Rightarrow> 'b system \<Rightarrow> 'b system" where
  "caller_moves i c s' y =
     (let q = es_queue (sy_session y); q' = es_queue s' in
      y\<lparr>sy_session := s', sy_callers := (sy_callers y)[i := c],
        sy_enqueued := sy_enqueued y @ drop (length q) q',
        sy_dropped := sy_dropped y @ (if q' = [] then q else [])\<rparr>)"

fun newly_taken :: "worker \<Rightarrow> worker \<Rightarrow> (item \<times> bool) list" where
  "newly_taken Waiting (Holding it inject) = [(it, inject)]"
| "newly_taken _ _ = []"

fun newly_dropped :: "worker \<Rightarrow> worker \<Rightarrow> item list \<Rightarrow> item list" where
  "newly_dropped (Executed it st format pending) (Closing active) q = q"
| "newly_dropped _ _ q = []"

fun newly_done :: "worker \<Rightarrow> worker \<Rightarrow> (item \<times> bool) list \<Rightarrow> (item \<times> bool) list" where
  "newly_done (Executed it st format pending) Waiting taken = [last taken]"
| "newly_done _ _ taken = []"

definition worker_moves :: "worker \<Rightarrow> 'b session \<Rightarrow> 'b system \<Rightarrow> 'b system" where
  "worker_moves w s' y =
     y\<lparr>sy_session := s', sy_worker := w,
       sy_taken := sy_taken y @ newly_taken (sy_worker y) w,
       sy_done := sy_done y @ newly_done (sy_worker y) w (sy_taken y),
       sy_dropped := sy_dropped y @ newly_dropped (sy_worker y) w (es_queue (sy_session y))\<rparr>"

inductive system_step :: "'b backend \<Rightarrow> (nat \<Rightarrow> u64) \<Rightarrow> 'b system \<Rightarrow> 'b system \<Rightarrow> bool"
  for ops :: "'b backend" and address_of :: "nat \<Rightarrow> u64" where
  Call: "i < length (sy_callers y) \<Longrightarrow> at_rest (sy_callers y ! i) \<Longrightarrow>
    start_request req (sy_session y) = (c, s') \<Longrightarrow>
    system_step ops address_of y (caller_moves i c s' y)"
| Caller: "i < length (sy_callers y) \<Longrightarrow>
    caller_step elapsed (joinable (sy_worker y)) (sy_callers y ! i) (sy_session y) = Passed (c, s') \<Longrightarrow>
    system_step ops address_of y (caller_moves i c s' y)"
| Worker: "worker_step ops address_of elapsed (sy_worker y) (sy_session y) = Passed (w, s') \<Longrightarrow>
    system_step ops address_of y (worker_moves w s' y)"

inductive reachable_system ::
    "'b backend \<Rightarrow> (nat \<Rightarrow> u64) \<Rightarrow> 'b system \<Rightarrow> 'b system \<Rightarrow> bool"
  for ops :: "'b backend" and address_of :: "nat \<Rightarrow> u64" and y0 :: "'b system" where
  Start: "reachable_system ops address_of y0 y0"
| Step: "reachable_system ops address_of y0 y \<Longrightarrow> system_step ops address_of y y' \<Longrightarrow>
    reachable_system ops address_of y0 y'"

section \<open>What a caller's section can do\<close>

text \<open>Nothing the invariants speak of changes, apart from the free frames.\<close>

definition quiet :: "'b session \<Rightarrow> 'b session \<Rightarrow> bool" where
  "quiet s s' \<longleftrightarrow> es_backend s' = es_backend s \<and> es_capacity s' = es_capacity s \<and>
     es_queue s' = es_queue s \<and> es_accepting s' = es_accepting s \<and>
     es_close_requested s' = es_close_requested s \<and> es_closed s' = es_closed s \<and>
     es_failed s' = es_failed s \<and> es_canceled s' = es_canceled s \<and>
     es_terminal s' = es_terminal s \<and> es_next_flush_token s' = es_next_flush_token s \<and>
     es_completed_flush_token s' = es_completed_flush_token s \<and>
     es_submissions s' = es_submissions s \<and> es_stages s' = es_stages s \<and>
     es_completed_frames s' = es_completed_frames s"

lemma quiet_refl [simp]: "quiet s s"
  by (simp add: quiet_def)

fun held :: "caller \<Rightarrow> nat" where
  "held (WriteCopy frame block owned) = 1"
| "held (WritePush frame block owned) = 1"
| "held (WriteAbort owned st) = 1"
| "held _ = 0"

fun item_token :: "item \<Rightarrow> u64 option" where
  "item_token (FlushItem token) = Some token"
| "item_token _ = None"

fun flush_token :: "caller \<Rightarrow> u64 option" where
  "flush_token (FlushWait token) = Some token"
| "flush_token _ = None"

definition owned_items :: "item list \<Rightarrow> nat" where
  "owned_items q = count_if (\<lambda>it. item_frame it \<noteq> None) q"

definition frames_kept :: "caller \<Rightarrow> 'b session \<Rightarrow> caller \<Rightarrow> 'b session \<Rightarrow> bool" where
  "frames_kept c s c' s' \<longleftrightarrow> length (es_free_frames s') + owned_items (es_queue s') + held c' \<le>
     length (es_free_frames s) + owned_items (es_queue s) + held c"

definition pushes :: "item \<Rightarrow> 'b session \<Rightarrow> 'b session \<Rightarrow> bool" where
  "pushes it s s' \<longleftrightarrow> quiet (s\<lparr>es_queue := es_queue s @ [it],
       es_next_flush_token := es_next_flush_token s + (if is_frame_item it then 0 else 1),
       es_submissions := es_submissions s @ (if item_submission it = None then [] else [new_submission])\<rparr>) s' \<and>
     es_accepting s \<and> \<not> es_failed s \<and> has_room s \<and>
     (\<forall>token. it = FlushItem token \<longrightarrow> token = es_next_flush_token s + 1) \<and>
     (\<forall>frame i. it = BorrowedItem frame i \<longrightarrow> i = length (es_submissions s))"

definition cancels :: "'b session \<Rightarrow> 'b session \<Rightarrow> bool" where
  "cancels s s' \<longleftrightarrow> quiet (s\<lparr>es_canceled := True, es_accepting := False,
       es_close_requested := es_capacity s \<noteq> 0 \<or> es_close_requested s,
       es_submissions := fail_queued_submissions MKVC_ERROR_CANCELLED
         ''encoder submission was cancelled'' (es_queue s) (es_submissions s), es_queue := []\<rparr>) s' \<and>
     \<not> es_failed s"

inductive caller_effect :: "caller \<Rightarrow> 'b session \<Rightarrow> caller \<Rightarrow> 'b session \<Rightarrow> bool" where
  Quiet: "quiet s s' \<Longrightarrow> flush_token c' = None \<or> flush_token c' = flush_token c \<Longrightarrow>
    caller_effect c s c' s'"
| Push: "pushes it s s' \<Longrightarrow>
    flush_token c' = item_token it \<Longrightarrow>
    caller_effect c s c' s'"
| Cancelled: "cancels s s' \<Longrightarrow> flush_token c' = None \<Longrightarrow> caller_effect c s c' s'"
| CloseRequested: "quiet (s\<lparr>es_accepting := False, es_close_requested := True\<rparr>) s' \<Longrightarrow>
    flush_token c' = None \<Longrightarrow> caller_effect c s c' s'"
| OwnerSet: "quiet (s\<lparr>es_submissions := (es_submissions s)[i := set_owner owner (es_submissions s ! i)]\<rparr>) s' \<Longrightarrow>
    i < length (es_submissions s) \<Longrightarrow> flush_token c' = None \<Longrightarrow> caller_effect c s c' s'"

lemma length_map_filter: "length (List.map_filter f xs) = count_if (\<lambda>x. f x \<noteq> None) xs"
  by (induction xs) (auto simp: map_filter_simps split: option.splits)

lemma owned_items_append [simp]: "owned_items (xs @ ys) = owned_items xs + owned_items ys"
  by (simp add: owned_items_def)

lemma owned_items_simps [simp]:
  "owned_items [] = 0"
  "owned_items (it # q) = (if item_frame it = None then 0 else 1) + owned_items q"
  by (auto simp: owned_items_def)

lemmas session_moves = quiet_def frames_kept_def count_rejected_def count_wait_def return_frame_def
  push_frame_def add_edge_def

lemma quiet_trans: "quiet s s' \<Longrightarrow> quiet s' s'' \<Longrightarrow> quiet s s''"
  by (simp add: quiet_def)

lemma quiet_counts [simp]:
  "quiet s (count_rejected s)" "quiet s (count_wait elapsed s)" "quiet s (return_frame owned s)"
  "quiet s (add_edge edge s)" "quiet s (s\<lparr>es_free_frames := frames\<rparr>)"
  by (simp_all add: session_moves)

lemma pushes_push_frame:
  assumes "quiet s t" "es_accepting s" "\<not> es_failed s" "has_room s"
  shows "pushes (OwnedItem owned) s (push_frame (OwnedItem owned) t)"
    "pushes (BorrowedItem frame (length (es_submissions s))) s
       (push_frame (BorrowedItem frame (length (es_submissions s)))
         (t\<lparr>es_submissions := es_submissions t @ [new_submission]\<rparr>))"
  using assms by (simp_all add: pushes_def quiet_def push_frame_def)

lemma enqueue_owned_take_effect:
  assumes "enqueue_owned_take elapsed frame block s = Passed (c', s')"
  shows "quiet s s'" "flush_token c' = None" "frames_kept (WriteTake frame block) s c' s'"
  using assms by (auto simp: enqueue_owned_take_def session_moves Let_def split: if_splits)

text \<open>The four ways the last section of \<^verbatim>\<open>enqueue_owned\<close> ends.\<close>

lemma enqueue_owned_push_cases:
  assumes "enqueue_owned_push elapsed block owned s = Passed (c', s')"
  obtains (Returned) st t where "quiet s t" "es_free_frames t = es_free_frames s" "c' = Returned st"
      "s' = return_frame owned t \<or> s' = count_rejected (return_frame owned t)"
    | (Pushed) t where "quiet s t" "es_free_frames t = es_free_frames s" "es_accepting s"
      "\<not> es_failed s" "has_room s" "c' = CountEdge CpuNormalization"
      "s' = push_frame (OwnedItem owned) t"
proof -
  define t where "t = (if block then count_wait elapsed s else s)"
  have t: "quiet s t" by (simp add: t_def)
  have tf: "es_free_frames t = es_free_frames s" by (simp add: t_def count_wait_def)
  have same: "es_failed t = es_failed s" "es_accepting t = es_accepting s" "has_room t = has_room s"
    using t by (simp_all add: quiet_def has_room_def)
  have res: "(c', s') = (if es_failed t then (Returned (es_terminal t), return_frame owned t)
      else if \<not> es_accepting t then (Returned (stopped_result t), return_frame owned t)
      else if \<not> has_room t then (Returned (MKVC_WOULD_BLOCK, []), count_rejected (return_frame owned t))
      else (CountEdge CpuNormalization, push_frame (OwnedItem owned) t))"
    using assms unfolding enqueue_owned_push_def Let_def t_def [symmetric]
    by (simp split: if_split_asm)
  show thesis
  proof (cases "es_failed t \<or> \<not> es_accepting t \<or> \<not> has_room t")
    case True
    then obtain st where "c' = Returned st"
        "s' = return_frame owned t \<or> s' = count_rejected (return_frame owned t)"
      using res by (auto split: if_splits)
    then show thesis by (rule that(1) [OF t tf])
  next
    case False
    with res same have "es_accepting s" "\<not> es_failed s" "has_room s"
        "c' = CountEdge CpuNormalization" "s' = push_frame (OwnedItem owned) t"
      by auto
    then show thesis by (rule that(2) [OF t tf])
  qed
qed

lemma enqueue_owned_push_effect:
  assumes "enqueue_owned_push elapsed block owned s = Passed (c', s')"
  shows "caller_effect (WritePush frame block owned) s c' s' \<and>
    frames_kept (WritePush frame block owned) s c' s'"
  using assms
proof (cases rule: enqueue_owned_push_cases)
  case (Returned st t)
  then have "quiet s s'" using quiet_trans [of s t] quiet_trans [of t "return_frame owned t"] by auto
  with Returned show ?thesis
    by (auto simp: frames_kept_def return_frame_def count_rejected_def quiet_def [of s t]
        intro!: caller_effect.Quiet)
next
  case (Pushed t)
  have "pushes (OwnedItem owned) s s'"
    using pushes_push_frame(1) [OF Pushed(1,3-5)] Pushed by simp
  then have "caller_effect (WritePush frame block owned) s c' s'"
    by (rule caller_effect.Push) (simp add: Pushed)
  moreover have "es_queue t = es_queue s" using Pushed by (simp add: quiet_def)
  ultimately show ?thesis using Pushed by (simp add: frames_kept_def push_frame_def)
qed

lemma enqueue_borrowed_push_effect:
  assumes "enqueue_borrowed_push elapsed frame s = Passed (c', s')"
  shows "caller_effect (SubmitPush frame) s c' s' \<and> frames_kept (SubmitPush frame) s c' s'"
proof -
  define t where "t = count_wait elapsed s"
  have t: "quiet s t" by (simp add: t_def)
  have tf: "es_free_frames t = es_free_frames s" by (simp add: t_def count_wait_def)
  have same: "es_failed t = es_failed s" "es_accepting t = es_accepting s" "has_room t = has_room s"
      "es_submissions t = es_submissions s" "es_queue t = es_queue s"
    using t by (simp_all add: quiet_def has_room_def)
  define u where "u = push_frame (BorrowedItem frame (length (es_submissions s)))
      (t\<lparr>es_submissions := es_submissions t @ [new_submission]\<rparr>)"
  have res: "enqueue_borrowed_push elapsed frame s =
     (if es_capacity s = 0
      then Passed (Returned (MKVC_ERROR_NOT_SUPPORTED,
             ''async borrowed submission requires queue_size greater than zero''), s)
      else if es_require_gpu_resident s \<or> \<not> es_allow_cpu_copy s
      then Passed (Returned (MKVC_ERROR_NOT_SUPPORTED,
             ''CPU frame submission is prohibited by copy policy''), s)
      else if \<not> has_room s \<and> es_accepting s \<and> \<not> es_failed s then Blocked
      else if es_failed s then Passed (Returned (es_terminal t), t)
      else if \<not> es_accepting s then Passed (Returned (stopped_result t), t)
      else Passed (CountEdge ZeroCopy, u))"
    unfolding enqueue_borrowed_push_def Let_def t_def [symmetric] u_def same ..
  consider (Quiet) st where "c' = Returned st" "s' = s \<or> s' = t"
    | (Push) "es_accepting s" "\<not> es_failed s" "has_room s" "c' = CountEdge ZeroCopy" "s' = u"
    using assms unfolding res by (cases "es_terminal t"; cases "stopped_result t"; force split: if_split_asm)
  then show ?thesis
  proof cases
    case Quiet
    then show ?thesis using t tf by (auto simp: frames_kept_def same intro!: caller_effect.Quiet)
  next
    case Push
    then have "pushes (BorrowedItem frame (length (es_submissions s))) s s'"
      using pushes_push_frame(2) [OF t] unfolding u_def by simp
    then have "caller_effect (SubmitPush frame) s c' s'"
      by (rule caller_effect.Push) (simp add: Push)
    moreover have "es_queue u = es_queue s @ [BorrowedItem frame (length (es_submissions s))]"
        "es_free_frames u = es_free_frames s"
      unfolding u_def push_frame_def using tf same(5) by simp_all
    ultimately show ?thesis using Push by (simp add: frames_kept_def)
  qed
qed

lemma flush_enqueue_effect:
  assumes "flush_enqueue s = Passed (c', s')"
  shows "caller_effect FlushStart s c' s'" "frames_kept FlushStart s c' s'"
proof -
  show "frames_kept FlushStart s c' s'"
    using assms by (auto simp: flush_enqueue_def session_moves Let_def split: if_splits)
  have "quiet s s' \<and> flush_token c' = None \<or>
      pushes (FlushItem (es_next_flush_token s + 1)) s s' \<and>
        flush_token c' = Some (es_next_flush_token s + 1)"
    using assms by (auto simp: flush_enqueue_def session_moves pushes_def Let_def split: if_splits)
  then show "caller_effect FlushStart s c' s'"
    by (auto intro: caller_effect.intros)
qed

lemma caller_step_effect:
  assumes "caller_step elapsed finished c s = Passed (c', s')"
  shows "caller_effect c s c' s'" "frames_kept c s c' s'"
proof -
  have "caller_effect c s c' s' \<and> frames_kept c s c' s'"
  proof (cases c)
    case (WritePush frame block owned)
    with assms show ?thesis using enqueue_owned_push_effect by simp
  next
    case (SubmitPush frame)
    with assms enqueue_borrowed_push_effect [of elapsed frame s c' s'] show ?thesis by simp
  next
    case FlushStart
    with assms flush_enqueue_effect [of s c' s'] show ?thesis by simp
  next
    case (WriteTake frame block)
    with assms enqueue_owned_take_effect [of elapsed frame block s c' s'] show ?thesis
      by (auto intro: caller_effect.Quiet)
  next
    case (WriteChecked frame block)
    with assms show ?thesis
      by (auto simp: enqueue_owned_enter_def frames_kept_def split: if_splits
          intro!: caller_effect.Quiet)
  next
    case (WriteCopy frame block owned)
    with assms show ?thesis
      by (auto simp: enqueue_owned_copy_def frames_kept_def split: if_splits option.splits
          intro!: caller_effect.Quiet)
  next
    case (SubmitChecked frame)
    with assms show ?thesis
      by (auto simp: enqueue_borrowed_enter_def frames_kept_def Let_def split: if_splits
          intro!: caller_effect.Quiet)
  next
    case (FlushWait token)
    with assms show ?thesis
      by (auto simp: flush_finish_def frames_kept_def split: if_splits intro!: caller_effect.Quiet)
  qed (use assms in \<open>auto simp: session_moves split: if_splits intro!: caller_effect.Quiet\<close>)
  then show "caller_effect c s c' s'" "frames_kept c s c' s'" by auto
qed

lemma start_request_effect:
  assumes "start_request req s = (c', s')" "at_rest c"
  shows "caller_effect c s c' s'" "frames_kept c s c' s'"
proof -
  have rest: "held c = 0" "flush_token c = None" using assms(2) by (cases c; simp)+
  have "caller_effect c s c' s' \<and> frames_kept c s c' s'"
  proof (cases req)
    case Cancel
    then have "cancels s s' \<and> flush_token c' = None \<or> quiet s s' \<and> flush_token c' = None"
    proof (cases "es_closed s \<or> es_canceled s \<or> es_failed s")
      case True
      with Cancel assms(1) show ?thesis by (auto simp: cancel_session_def split: if_splits)
    next
      case False
      with Cancel assms(1) have "c' = Returned ok" and s': "s' = snd (cancel_session s)"
        by (auto simp: cancel_session_def)
      moreover have "cancels s s'"
        using False unfolding s' cancel_session_def cancels_def by (simp add: quiet_def)
      ultimately show ?thesis by simp
    qed
    moreover have "frames_kept c s c' s'"
      using Cancel assms rest
      by (auto simp: cancel_session_def frames_kept_def Let_def length_map_filter owned_items_def
          split: if_splits)
    ultimately show ?thesis by (auto intro: caller_effect.intros)
  next
    case Close
    then have "c' = CloseJoin" "s' = s \<or> s' = s\<lparr>es_accepting := False, es_close_requested := True\<rparr>"
      using assms by (auto simp: close_request_def)
    then show ?thesis
      by (auto simp: frames_kept_def intro: caller_effect.CloseRequested caller_effect.Quiet)
  next
    case (SetOwner i owner)
    then have c': "c' = Returned ok" using assms by simp
    show ?thesis
    proof (cases "i < length (es_submissions s)")
      case True
      with SetOwner assms have "quiet (s\<lparr>es_submissions := (es_submissions s)
          [i := set_owner owner (es_submissions s ! i)]\<rparr>) s'" by auto
      then have "caller_effect c s c' s'" by (rule caller_effect.OwnerSet) (use True c' in simp_all)
      then show ?thesis using SetOwner assms True by (auto simp: frames_kept_def)
    next
      case False
      with SetOwner assms c' show ?thesis
        by (auto simp: frames_kept_def intro!: caller_effect.Quiet)
    qed
  qed (use assms rest in \<open>auto simp: session_moves submit_check_def set_cpu_layout_policy_def Let_def
        split: if_splits option.splits intro!: caller_effect.Quiet\<close>)
  then show "caller_effect c s c' s'" "frames_kept c s c' s'" by auto
qed

section \<open>Invariants\<close>

lemma quiet_fields:
  assumes "quiet s s'"
  shows "es_backend s' = es_backend s" "es_capacity s' = es_capacity s" "es_queue s' = es_queue s"
    "es_accepting s' = es_accepting s" "es_close_requested s' = es_close_requested s"
    "es_closed s' = es_closed s" "es_failed s' = es_failed s" "es_canceled s' = es_canceled s"
    "es_terminal s' = es_terminal s" "es_next_flush_token s' = es_next_flush_token s"
    "es_completed_flush_token s' = es_completed_flush_token s"
    "es_submissions s' = es_submissions s" "es_stages s' = es_stages s"
  using assms by (simp_all add: quiet_def)

text \<open>The flags and the queue's bound.\<close>

definition flags_inv :: "'b session \<Rightarrow> bool" where
  "flags_inv s \<longleftrightarrow> length (es_queue s) \<le> es_capacity s \<and> stages_split (es_stages s) \<and>
     (es_failed s \<or> es_canceled s \<or> es_closed s \<or> es_close_requested s \<longrightarrow> \<not> es_accepting s)"

lemma flags_inv_quiet: "quiet s s' \<Longrightarrow> flags_inv s \<Longrightarrow> flags_inv s'"
  by (simp add: flags_inv_def quiet_fields)

lemma flags_inv_caller:
  assumes "caller_effect c s c' s'" "flags_inv s"
  shows "flags_inv s'"
  using assms(1)
proof (cases rule: caller_effect.cases)
  case (Push it)
  then have eff: "pushes it s s'" by simp
  from eff [unfolded pushes_def, THEN conjunct1] show ?thesis
    by (rule flags_inv_quiet) (use assms(2) eff in \<open>simp add: flags_inv_def pushes_def has_room_def\<close>)
next
  case Cancelled
  from this(1) [unfolded cancels_def, THEN conjunct1] show ?thesis
    by (rule flags_inv_quiet) (use assms(2) in \<open>simp add: flags_inv_def\<close>)
next
  case Quiet
  then show ?thesis using assms(2) by (auto intro: flags_inv_quiet)
next
  case CloseRequested
  from this(1) show ?thesis
    by (rule flags_inv_quiet) (use assms(2) in \<open>simp add: flags_inv_def\<close>)
next
  case OwnerSet
  from this(1) show ?thesis
    by (rule flags_inv_quiet) (use assms(2) in \<open>simp add: flags_inv_def\<close>)
qed

lemma account_item_fields [simp]:
  "es_backend (account_item elapsed pending it s) = es_backend s"
  "es_capacity (account_item elapsed pending it s) = es_capacity s"
  "es_queue (account_item elapsed pending it s) = es_queue s"
  "es_accepting (account_item elapsed pending it s) = es_accepting s"
  "es_close_requested (account_item elapsed pending it s) = es_close_requested s"
  "es_closed (account_item elapsed pending it s) = es_closed s"
  "es_failed (account_item elapsed pending it s) = es_failed s"
  "es_canceled (account_item elapsed pending it s) = es_canceled s"
  "es_next_flush_token (account_item elapsed pending it s) = es_next_flush_token s"
  "es_completed_flush_token (account_item elapsed pending it s) = es_completed_flush_token s"
  "es_submissions (account_item elapsed pending it s) = es_submissions s"
  "es_stages (account_item elapsed pending it s) = (if is_frame_item it
     then count_worker_frame elapsed (es_stages s) else count_flush elapsed (es_stages s))"
  "es_free_frames (account_item elapsed pending it s) =
     es_free_frames s @ (case item_frame it of None \<Rightarrow> [] | Some f \<Rightarrow> [f])"
  by (simp_all add: account_item_def observe_pending_def return_frame_def Let_def split: option.splits)

lemma complete_frame_fields [simp]:
  "es_backend (complete_frame it format s) = es_backend s"
  "es_capacity (complete_frame it format s) = es_capacity s"
  "es_queue (complete_frame it format s) = es_queue s"
  "es_accepting (complete_frame it format s) = es_accepting s"
  "es_close_requested (complete_frame it format s) = es_close_requested s"
  "es_closed (complete_frame it format s) = es_closed s"
  "es_failed (complete_frame it format s) = es_failed s"
  "es_canceled (complete_frame it format s) = es_canceled s"
  "es_next_flush_token (complete_frame it format s) = es_next_flush_token s"
  "es_completed_flush_token (complete_frame it format s) = es_completed_flush_token s"
  "es_submissions (complete_frame it format s) = complete_item MKVC_OK [] it (es_submissions s)"
  "es_stages (complete_frame it format s) = es_stages s"
  "es_free_frames (complete_frame it format s) = es_free_frames s"
  by (simp_all add: complete_frame_def add_encode_edges_def add_edge_def observe_copy_path_def Let_def)

lemma fail_session_fields [simp]:
  "es_backend (fail_session it st s) = es_backend s"
  "es_capacity (fail_session it st s) = es_capacity s"
  "es_queue (fail_session it st s) = []"
  "es_accepting (fail_session it st s) = False"
  "es_close_requested (fail_session it st s) = es_close_requested s"
  "es_failed (fail_session it st s) = True"
  "es_canceled (fail_session it st s) = es_canceled s"
  "es_next_flush_token (fail_session it st s) = es_next_flush_token s"
  "es_completed_flush_token (fail_session it st s) = es_completed_flush_token s"
  "es_stages (fail_session it st s) = es_stages s"
  "es_free_frames (fail_session it st s) = es_free_frames s"
  "es_submissions (fail_session it st s) = fail_queued_submissions (fst st) (snd st) (es_queue s)
     (complete_item (fst st) (snd st) it (es_submissions s))"
  by (simp_all add: fail_session_def)

lemma worker_close_finish_fields [simp]:
  "es_backend (worker_close_finish elapsed st pending s) = es_backend s"
  "es_capacity (worker_close_finish elapsed st pending s) = es_capacity s"
  "es_queue (worker_close_finish elapsed st pending s) = es_queue s"
  "es_accepting (worker_close_finish elapsed st pending s) = False"
  "es_failed (worker_close_finish elapsed st pending s) = (es_failed s \<or> fst st \<noteq> MKVC_OK)"
  "es_canceled (worker_close_finish elapsed st pending s) = es_canceled s"
  "es_next_flush_token (worker_close_finish elapsed st pending s) = es_next_flush_token s"
  "es_completed_flush_token (worker_close_finish elapsed st pending s) = es_completed_flush_token s"
  "es_submissions (worker_close_finish elapsed st pending s) = es_submissions s"
  "es_stages (worker_close_finish elapsed st pending s) = count_close elapsed (es_stages s)"
  "es_free_frames (worker_close_finish elapsed st pending s) = es_free_frames s"
  by (auto simp: worker_close_finish_def observe_pending_def Let_def)

lemma worker_catch_fields [simp]:
  "es_backend (worker_catch what active s) = es_backend s"
  "es_capacity (worker_catch what active s) = es_capacity s"
  "es_queue (worker_catch what active s) = es_queue s"
  "es_accepting (worker_catch what active s) = False"
  "es_failed (worker_catch what active s) = True"
  "es_canceled (worker_catch what active s) = es_canceled s"
  "es_next_flush_token (worker_catch what active s) = es_next_flush_token s"
  "es_completed_flush_token (worker_catch what active s) = es_completed_flush_token s"
  "es_stages (worker_catch what active s) = es_stages s"
  "es_free_frames (worker_catch what active s) = es_free_frames s"
  by (simp_all add: worker_catch_def Let_def)

text \<open>The worker's steps, one by one.\<close>

lemma worker_step_cases:
  assumes "worker_step ops address_of elapsed w s = Passed (w', s')"
  obtains (Stop) "w = Waiting" "es_queue s = []" "es_close_requested s" "w' = Closing None" "s' = s"
    | (Take) it inject queue where "w = Waiting" "es_queue s = it # queue" "w' = Holding it inject"
        "s' = s\<lparr>es_queue := queue\<rparr>"
    | (Throw) it inject what format b where "w = Holding it inject"
        "execute_item ops address_of it inject (es_backend s) = ((Throws what, format), b)"
        "w' = Caught what (item_submission it)" "s' = s\<lparr>es_backend := b\<rparr>"
    | (Execute) it inject st format b where "w = Holding it inject"
        "execute_item ops address_of it inject (es_backend s) = ((Returns st, format), b)"
        "w' = Executed it st format (be_hardware_pending ops b)" "s' = s\<lparr>es_backend := b\<rparr>"
    | (Fail) it st format pending where "w = Executed it st format pending" "fst st \<noteq> MKVC_OK"
        "w' = Closing (item_submission it)" "s' = fail_session it st (account_item elapsed pending it s)"
    | (Flushed) token st format pending where "w = Executed (FlushItem token) st format pending"
        "fst st = MKVC_OK" "w' = Waiting"
        "s' = account_item elapsed pending (FlushItem token) s\<lparr>es_completed_flush_token := token\<rparr>"
    | (Encoded) it st format pending where "w = Executed it st format pending" "is_frame_item it"
        "fst st = MKVC_OK" "w' = Waiting"
        "s' = complete_frame it format (account_item elapsed pending it s)"
    | (CloseThrow) active what b where "w = Closing active" "be_close ops (es_backend s) = (Throws what, b)"
        "w' = Caught what active" "s' = s\<lparr>es_backend := b\<rparr>"
    | (CloseReturn) active st b where "w = Closing active" "be_close ops (es_backend s) = (Returns st, b)"
        "w' = ClosedBackend st (be_hardware_pending ops b)" "s' = s\<lparr>es_backend := b\<rparr>"
    | (CloseFinish) st pending where "w = ClosedBackend st pending" "w' = Finished"
        "s' = worker_close_finish elapsed st pending s"
    | (Catch) what active where "w = Caught what active" "w' = Finished"
        "s' = worker_catch what active s"
proof (cases w)
  case Waiting
  then show thesis using assms that(1,2)
    by (auto simp: worker_take_def split: list.splits if_splits)
next
  case (Holding it inject)
  obtain r format b where e: "execute_item ops address_of it inject (es_backend s) = ((r, format), b)"
    by (metis prod.collapse)
  show thesis
    using assms Holding e that(3) [OF Holding, of _ format b] that(4) [OF Holding, of _ format b]
    by (cases r) (auto simp: worker_execute_def)
next
  case (Executed it st format pending)
  show thesis
  proof (cases "fst st = MKVC_OK")
    case False
    with assms Executed that(5) show thesis by (auto simp: worker_finish_def Let_def)
  next
    case True
    with assms Executed that(6,7) show thesis
      by (cases it) (auto simp: worker_finish_def Let_def)
  qed
next
  case (Closing active)
  obtain r b where "be_close ops (es_backend s) = (r, b)" by force
  with assms Closing that(8,9) show thesis by (cases r) (auto simp: worker_close_def)
next
  case (ClosedBackend st pending)
  with assms that(10) show thesis by simp
next
  case (Caught what active)
  with assms that(11) show thesis by simp
next
  case Finished
  with assms show thesis by simp
qed

lemma flags_inv_worker:
  assumes "worker_step ops address_of elapsed w s = Passed (w', s')" "flags_inv s"
  shows "flags_inv s'"
  using assms(1)
proof (cases rule: worker_step_cases)
  case (CloseFinish st pending)
  then show ?thesis using assms(2) by (simp add: flags_inv_def stages_split_count)
qed (use assms(2) in \<open>auto simp: flags_inv_def stages_split_count fail_session_def\<close>)

end
