(* ===== verification/SlotPool.thy ===== *)
theory SlotPool
  imports Prelude
begin

text \<open>
  The contract shared by the fixed-capacity pools of the library (src/cpu_frame_pool.cpp,
  src/gpu/gpu_resource_pool.cpp, src/gpu/gpu_frame_pool.cpp): a vector of slots, each in use or
  free and stamped with a generation that grows at every acquisition; a lease is a slot index
  with the generation it was issued for. \<open>pool_run\<close> is a client's history: acquisitions and
  recyclings in any order, also of stale or forged leases. The locale \<open>slot_pool\<close> states what a
  provider promises about single calls; inside it, the facts about whole histories.
\<close>

section \<open>Counters that do not wrap\<close>

lemma u64_succ: "unat (x :: u64) < 18446744073709551615 \<Longrightarrow> unat (x + 1) = Suc (unat x)"
  using unat_add_lem [of x 1] by simp

lemma u32_succ: "unat (x :: u32) < 4294967295 \<Longrightarrow> unat (x + 1) = Suc (unat x)"
  using unat_add_lem [of x 1] by simp

lemma word_pred: "x \<noteq> 0 \<Longrightarrow> unat (x - 1 :: 'a :: len word) = unat x - 1"
  by (rule unat_minus_one)

section \<open>Histories\<close>

type_synonym lease = "nat \<times> u64"

datatype ('a, 'r) pool_op = AcquireSlot 'a | RecycleLease lease 'r

text \<open>The state of a history: the pool, the leases that are out and all that were ever issued.\<close>

fun pool_run ::
    "('a \<Rightarrow> 'p \<Rightarrow> lease option \<times> 'p) \<Rightarrow> ('r \<Rightarrow> lease \<Rightarrow> 'p \<Rightarrow> 'p) \<Rightarrow> ('a, 'r) pool_op list \<Rightarrow>
     'p \<times> lease list \<times> lease list \<Rightarrow> 'p \<times> lease list \<times> lease list" where
  "pool_run acquire recycle [] s = s"
| "pool_run acquire recycle (AcquireSlot a # ops) (p, live, issued) =
     (case acquire a p of
        (None, p') \<Rightarrow> pool_run acquire recycle ops (p', live, issued)
      | (Some l, p') \<Rightarrow> pool_run acquire recycle ops (p', l # live, l # issued))"
| "pool_run acquire recycle (RecycleLease l r # ops) (p, live, issued) =
     pool_run acquire recycle ops (recycle r l p, removeAll l live, issued)"

lemma pool_run_preserves:
  assumes "\<And>a p. P p \<Longrightarrow> P (snd (acquire a p))" "\<And>r l p. P p \<Longrightarrow> P (recycle r l p)"
  shows "P p \<Longrightarrow> P (fst (pool_run acquire recycle ops (p, live, issued)))"
proof (induction ops arbitrary: p live issued)
  case Nil
  then show ?case by simp
next
  case (Cons op ops)
  show ?case
  proof (cases op)
    case (AcquireSlot a)
    obtain l p' where acq: "acquire a p = (l, p')" by (cases "acquire a p")
    have "P p'" using assms(1) [OF Cons.prems, of a] acq by simp
    then show ?thesis using Cons.IH AcquireSlot acq by (cases l) simp_all
  next
    case (RecycleLease l r)
    then show ?thesis using Cons.IH [OF assms(2) [OF Cons.prems]] by simp
  qed
qed

lemma pool_run_issued:
  "length (snd (snd (pool_run acquire recycle ops (p, live, issued)))) \<le> length issued + length ops"
proof (induction ops arbitrary: p live issued)
  case Nil
  then show ?case by simp
next
  case (Cons op ops)
  show ?case
  proof (cases op)
    case (AcquireSlot a)
    obtain l p' where acq: "acquire a p = (l, p')" by (cases "acquire a p")
    show ?thesis
    proof (cases l)
      case None
      then show ?thesis using Cons.IH [of p' live issued] AcquireSlot acq by simp
    next
      case (Some ig)
      then show ?thesis using Cons.IH [of p' "ig # live" "ig # issued"] AcquireSlot acq by simp
    qed
  next
    case (RecycleLease l r)
    then show ?thesis using Cons.IH [of "recycle r l p" "removeAll l live" issued] by simp
  qed
qed

section \<open>The contract\<close>

locale slot_pool =
  fixes slots :: "'p \<Rightarrow> (bool \<times> u64) list"
    and counter :: "'p \<Rightarrow> nat"
    and acquire :: "'a \<Rightarrow> 'p \<Rightarrow> lease option \<times> 'p"
    and recycle :: "'r \<Rightarrow> lease \<Rightarrow> 'p \<Rightarrow> 'p"
  assumes acquire_none: "acquire a p = (None, p') \<Longrightarrow>
      slots p' = slots p \<and> counter p' = counter p \<and> (\<forall>s \<in> set (slots p). fst s)"
    and acquire_some: "acquire a p = (Some (i, g), p') \<Longrightarrow>
      i < length (slots p) \<and> \<not> fst (slots p ! i) \<and> slots p' = (slots p)[i := (True, g)]"
    and acquire_generation: "acquire a p = (Some (i, g), p') \<Longrightarrow>
      unat (snd (slots p ! i)) < 18446744073709551615 \<Longrightarrow> unat g = Suc (unat (snd (slots p ! i)))"
    and acquire_counter: "acquire a p = (Some (i, g), p') \<Longrightarrow> length (slots p) < 4294967296 \<Longrightarrow>
      counter p = count_if fst (slots p) \<Longrightarrow> counter p' = Suc (counter p)"
    and recycle_slots: "slots (recycle r (i, g) p) =
      (if i < length (slots p) \<and> slots p ! i = (True, g) then (slots p)[i := (False, g)] else slots p)"
    and recycle_counter: "counter p = count_if fst (slots p) \<Longrightarrow>
      counter (recycle r (i, g) p) =
        (if i < length (slots p) \<and> slots p ! i = (True, g) then counter p - 1 else counter p)"
begin

definition leases_match :: "'p \<Rightarrow> lease list \<Rightarrow> bool" where
  "leases_match p live \<longleftrightarrow> distinct live \<and>
     (\<forall>i g. (i, g) \<in> set live \<longleftrightarrow> i < length (slots p) \<and> slots p ! i = (True, g))"

definition history_match :: "'p \<Rightarrow> lease list \<Rightarrow> bool" where
  "history_match p issued \<longleftrightarrow> distinct issued \<and>
     (\<forall>(i, g) \<in> set issued. i < length (slots p) \<and> unat g \<le> unat (snd (slots p ! i))) \<and>
     (\<forall>i < length (slots p). unat (snd (slots p ! i)) \<le> length issued)"

definition pool_inv :: "'p \<times> lease list \<times> lease list \<Rightarrow> bool" where
  "pool_inv s \<longleftrightarrow> (case s of (p, live, issued) \<Rightarrow>
     length (slots p) < 4294967296 \<and> counter p = count_if fst (slots p) \<and>
     leases_match p live \<and> history_match p issued)"

lemma pool_inv_fresh:
  assumes "length (slots p) < 4294967296" "counter p = 0" "\<forall>s \<in> set (slots p). s = (False, 0)"
  shows "pool_inv (p, [], [])"
proof -
  have "count_if fst (slots p) = 0" using assms(3) by (auto simp: count_if_def filter_empty_conv)
  moreover have "slots p ! i = (False, 0)" if "i < length (slots p)" for i
    using assms(3) nth_mem [OF that] by blast
  ultimately show ?thesis using assms(1,2) by (simp add: pool_inv_def leases_match_def history_match_def)
qed

lemma acquire_none_inv:
  assumes "pool_inv (p, live, issued)" "acquire a p = (None, p')"
  shows "pool_inv (p', live, issued)"
  using assms acquire_none [OF assms(2)]
  by (simp add: pool_inv_def leases_match_def history_match_def)

lemma acquire_some_inv:
  assumes inv: "pool_inv (p, live, issued)" and acq: "acquire a p = (Some (i, g), p')"
    and room: "length issued < 18446744073709551615"
  shows "pool_inv (p', (i, g) # live, (i, g) # issued)"
proof -
  note s = acquire_some [OF acq]
  have i: "i < length (slots p)" "\<not> fst (slots p ! i)" "slots p' = (slots p)[i := (True, g)]"
    using s by simp_all
  have hist: "history_match p issued" and live: "leases_match p live"
      and count: "counter p = count_if fst (slots p)" and len: "length (slots p) < 4294967296"
    using inv by (simp_all add: pool_inv_def)
  have "unat (snd (slots p ! i)) \<le> length issued" using hist i(1) by (simp add: history_match_def)
  with room have g: "unat g = Suc (unat (snd (slots p ! i)))" by (intro acquire_generation [OF acq]) simp
  have fresh: "(i, g) \<notin> set issued" using hist g by (fastforce simp: history_match_def)
  have fresh_live: "(i, g') \<notin> set live" for g'
    using live i(2) by (auto simp: leases_match_def)
  have "leases_match p' ((i, g) # live)"
    using live fresh_live i by (auto simp: leases_match_def nth_list_update split: if_splits)
  moreover have "history_match p' ((i, g) # issued)"
    using hist fresh i(1,3) g by (fastforce simp: history_match_def nth_list_update split: if_splits)
  moreover have "counter p' = count_if fst (slots p')"
    using acquire_counter [OF acq len count] count count_if_update [OF i(1), of fst "(True, g)"] i(2,3)
    by simp
  ultimately show ?thesis using i(3) len by (simp add: pool_inv_def)
qed

lemma recycle_inv:
  assumes inv: "pool_inv (p, live, issued)"
  shows "pool_inv (recycle r (i, g) p, removeAll (i, g) live, issued)"
proof (cases "i < length (slots p) \<and> slots p ! i = (True, g)")
  case True
  let ?p = "recycle r (i, g) p"
  have s: "slots ?p = (slots p)[i := (False, g)]" using True by (simp add: recycle_slots)
  have count: "counter p = count_if fst (slots p)" using inv by (simp add: pool_inv_def)
  have "counter ?p = counter p - 1" using recycle_counter [OF count, of r i g] True by simp
  moreover have "count_if fst (slots ?p) + 1 = count_if fst (slots p)"
    using count_if_update [of i "slots p" fst "(False, g)"] True s by simp
  ultimately have "counter ?p = count_if fst (slots ?p)" using count by simp
  moreover have "leases_match ?p (removeAll (i, g) live)"
    using inv True s
    by (auto simp: pool_inv_def leases_match_def nth_list_update distinct_removeAll split: if_splits)
  moreover have "history_match ?p issued"
    using inv True s by (fastforce simp: pool_inv_def history_match_def nth_list_update split: if_splits)
  ultimately show ?thesis using inv s by (simp add: pool_inv_def)
next
  case False
  have count: "counter p = count_if fst (slots p)" using inv by (simp add: pool_inv_def)
  have same: "slots (recycle r (i, g) p) = slots p" "counter (recycle r (i, g) p) = counter p"
    using False recycle_counter [OF count, of r i g] by (auto simp: recycle_slots)
  have "(i, g) \<notin> set live" using inv False by (auto simp: pool_inv_def leases_match_def)
  then have "removeAll (i, g) live = live" by simp
  then show ?thesis using inv same by (simp add: pool_inv_def leases_match_def history_match_def)
qed

lemma pool_run_inv:
  "pool_inv (p, live, issued) \<Longrightarrow> length issued + length ops < 18446744073709551616 \<Longrightarrow>
   pool_inv (pool_run acquire recycle ops (p, live, issued))"
proof (induction ops arbitrary: p live issued)
  case Nil
  then show ?case by simp
next
  case (Cons op ops)
  show ?case
  proof (cases op)
    case (AcquireSlot a)
    obtain l p' where acq: "acquire a p = (l, p')" by (cases "acquire a p")
    show ?thesis
    proof (cases l)
      case None
      then have "pool_inv (p', live, issued)" using acquire_none_inv [OF Cons.prems(1)] acq by simp
      from Cons.IH [OF this] show ?thesis using Cons.prems(2) AcquireSlot acq None by simp
    next
      case (Some ig)
      obtain i g where ig: "ig = (i, g)" by (cases ig)
      have "pool_inv (p', (i, g) # live, (i, g) # issued)"
        using Cons.prems acq Some ig by (intro acquire_some_inv) simp_all
      from Cons.IH [OF this] show ?thesis using Cons.prems(2) AcquireSlot acq Some ig by simp
    qed
  next
    case (RecycleLease l r)
    obtain i g where ig: "l = (i, g)" by (cases l)
    have "pool_inv (recycle r (i, g) p, removeAll (i, g) live, issued)"
      by (rule recycle_inv [OF Cons.prems(1)])
    from Cons.IH [OF this] show ?thesis using Cons.prems(2) RecycleLease ig by simp
  qed
qed

text \<open>What a client may rely on at any point of a history.\<close>

lemma live_facts:
  assumes "pool_inv (p, live, issued)"
  shows "distinct (map fst live)" "length live = counter p" "length live \<le> length (slots p)"
    "distinct issued"
proof -
  have live: "distinct live"
      "\<And>i g. (i, g) \<in> set live \<longleftrightarrow> i < length (slots p) \<and> slots p ! i = (True, g)"
    using assms by (auto simp: pool_inv_def leases_match_def)
  have inj: "inj_on fst (set live)" using live(2) by (auto simp: inj_on_def)
  then show "distinct (map fst live)" using live(1) by (simp add: distinct_map)
  have "fst ` set live = {i. i < length (slots p) \<and> fst (slots p ! i)}"
  proof -
    have "i \<in> fst ` set live \<longleftrightarrow> i < length (slots p) \<and> fst (slots p ! i)" for i
    proof
      assume "i \<in> fst ` set live"
      then show "i < length (slots p) \<and> fst (slots p ! i)" using live(2) by auto
    next
      assume "i < length (slots p) \<and> fst (slots p ! i)"
      then have "(i, snd (slots p ! i)) \<in> set live" using live(2) by (simp add: prod_eq_iff)
      then show "i \<in> fst ` set live" by force
    qed
    then show ?thesis by blast
  qed
  then have "card (set live) = count_if fst (slots p)"
    using card_image [OF inj] by (simp add: count_if_def length_filter_conv_card)
  then show "length live = counter p"
    using assms distinct_card [OF live(1)] by (simp add: pool_inv_def)
  then show "length live \<le> length (slots p)"
    using assms count_if_le [of fst "slots p"] by (simp add: pool_inv_def)
  show "distinct issued" using assms by (simp add: pool_inv_def history_match_def)
qed

lemma live_iff_slot:
  "pool_inv (p, live, issued) \<Longrightarrow>
   (i, g) \<in> set live \<longleftrightarrow> i < length (slots p) \<and> slots p ! i = (True, g)"
  by (simp add: pool_inv_def leases_match_def)

lemma acquire_unless_full:
  assumes "pool_inv (p, live, issued)" "length live < length (slots p)"
  shows "fst (acquire a p) \<noteq> None"
proof
  assume "fst (acquire a p) = None"
  then obtain p' where "acquire a p = (None, p')" by (cases "acquire a p") simp
  then have "\<forall>s \<in> set (slots p). fst s" using acquire_none by simp
  then have "count_if fst (slots p) = length (slots p)" by (simp add: count_if_full)
  then show False using assms live_facts(2) [OF assms(1)] by (simp add: pool_inv_def)
qed

end

section \<open>Searching for a free slot\<close>

text \<open>The loop of the acquire functions: the first index whose slot is not in use.\<close>

fun first_free :: "('s \<Rightarrow> bool) \<Rightarrow> 's list \<Rightarrow> nat \<Rightarrow> nat option" where
  "first_free in_use [] index = None"
| "first_free in_use (slot # slots) index =
     (if in_use slot then first_free in_use slots (Suc index) else Some index)"

lemma first_free_None: "first_free in_use slots k = None \<longleftrightarrow> (\<forall>s \<in> set slots. in_use s)"
  by (induction slots arbitrary: k) auto

lemma first_free_Some:
  "first_free in_use slots k = Some i \<Longrightarrow>
   k \<le> i \<and> i - k < length slots \<and> \<not> in_use (slots ! (i - k)) \<and> (\<forall>j < i - k. in_use (slots ! j))"
proof (induction slots arbitrary: k)
  case Nil
  then show ?case by simp
next
  case (Cons slot slots)
  show ?case
  proof (cases "in_use slot")
    case True
    then have "first_free in_use slots (Suc k) = Some i" using Cons.prems by simp
    from Cons.IH [OF this] have ih: "Suc k \<le> i" "i - Suc k < length slots"
        "\<not> in_use (slots ! (i - Suc k))" "\<forall>j < i - Suc k. in_use (slots ! j)" by simp_all
    have split: "i - k = Suc (i - Suc k)" using ih(1) by simp
    have "in_use ((slot # slots) ! j)" if "j < i - k" for j
      using that True ih(4) split by (cases j) auto
    then show ?thesis using ih split by simp
  next
    case False
    then show ?thesis using Cons.prems by simp
  qed
qed

lemma first_free_0:
  assumes "first_free in_use slots 0 = Some i"
  shows "i < length slots" "\<not> in_use (slots ! i)"
  using first_free_Some [OF assms] by simp_all

end
