(* ===== verification/FramePool.thy ===== *)
theory FramePool
  imports SlotPool CpuFrame
begin

text \<open>
  The native CPU frame pool: the allocations of src/cpu_page_lock.cpp and the pool and its leases
  of src/cpu_frame_pool.cpp. The operating system's page size and its answers to a request for
  locked pages are parameters: \<open>os_lock\<close> takes the system's state and a number of bytes and
  returns no message or the diagnostic of the failure. Waiting for a slot is a section that is
  blocked until a slot is free or the deadline has \<open>expired\<close>; \<open>elapsed\<close> is the time a call took.
\<close>

section \<open>Dedicated allocations\<close>

record cpu_allocation =
  ca_pageable :: bytes
  ca_locked :: "bytes option"
  ca_size :: nat
  ca_locked_bytes :: nat

definition empty_allocation :: cpu_allocation where
  "empty_allocation = \<lparr>ca_pageable = [], ca_locked = None, ca_size = 0, ca_locked_bytes = 0\<rparr>"

definition page_size :: "int \<Rightarrow> nat" where
  "page_size reported = (if reported > 0 then nat reported else 4096)"

definition reset_allocation :: "cpu_allocation \<Rightarrow> cpu_allocation" where
  "reset_allocation a =
     (let a = a\<lparr>ca_pageable := []\<rparr>
      in if ca_locked a = None then a\<lparr>ca_size := 0, ca_locked_bytes := 0\<rparr>
         else a\<lparr>ca_locked := None, ca_size := 0, ca_locked_bytes := 0\<rparr>)"

definition allocate ::
    "nat \<Rightarrow> ('o \<Rightarrow> nat \<Rightarrow> string option \<times> 'o) \<Rightarrow> nat \<Rightarrow> bool \<Rightarrow> cpu_allocation \<Rightarrow> 'o \<Rightarrow>
     (bool \<times> string) \<times> cpu_allocation \<times> 'o" where
  "allocate page os_lock bytes page_locked a os =
     (let a = reset_allocation a
      in if \<not> page_locked
         then ((True, []), a\<lparr>ca_pageable := replicate bytes 0, ca_size := bytes\<rparr>, os)
         else let locked_bytes = (bytes + page - 1) div page * page
              in (case os_lock os locked_bytes of
                    (None, os') \<Rightarrow> ((True, []), a\<lparr>ca_locked := Some (replicate locked_bytes 0),
                      ca_locked_bytes := locked_bytes, ca_size := bytes\<rparr>, os')
                  | (Some message, os') \<Rightarrow> ((False, message),
                      a\<lparr>ca_locked := None, ca_locked_bytes := 0\<rparr>, os')))"

definition allocation_data :: "cpu_allocation \<Rightarrow> bytes" where
  "allocation_data a = (case ca_locked a of Some mem \<Rightarrow> mem | None \<Rightarrow> ca_pageable a)"

text \<open>Moving leaves the source empty; assigning to oneself does nothing.\<close>

definition move_allocation :: "cpu_allocation \<Rightarrow> cpu_allocation \<times> cpu_allocation" where
  "move_allocation other = (other, other\<lparr>ca_pageable := [], ca_locked := None, ca_size := 0, ca_locked_bytes := 0\<rparr>)"

definition move_assign :: "bool \<Rightarrow> cpu_allocation \<Rightarrow> cpu_allocation \<Rightarrow> cpu_allocation \<times> cpu_allocation" where
  "move_assign same this other =
     (if same then (this, other)
      else let this = reset_allocation this
           in (this\<lparr>ca_pageable := ca_pageable other, ca_locked := ca_locked other,
                 ca_size := ca_size other, ca_locked_bytes := ca_locked_bytes other\<rparr>,
               other\<lparr>ca_pageable := [], ca_locked := None, ca_size := 0, ca_locked_bytes := 0\<rparr>))"

section \<open>Slots, leases and the pool\<close>

record cpu_slot =
  cs_planes :: "cpu_allocation list"
  cs_strides :: "i32 list"
  cs_in_use :: bool
  cs_generation :: u64

definition new_slot :: cpu_slot where
  "new_slot = \<lparr>cs_planes = replicate 4 empty_allocation, cs_strides = replicate 4 0,
     cs_in_use = False, cs_generation = 0\<rparr>"

record buffer_lease =
  bl_attached :: bool \<comment> \<open>the shared pointer to the pool is not null\<close>
  bl_slot :: nat
  bl_generation :: u64
  bl_pixel_format :: u32
  bl_width :: u32
  bl_height :: u32
  bl_plane_count :: u32

record cpu_frame_pool =
  fp_pixel_format :: u32
  fp_width :: u32
  fp_height :: u32
  fp_plane_count :: u32
  fp_memory_mode :: u32
  fp_allocation_bytes :: u64
  fp_page_locked_bytes :: u64
  fp_in_use :: u32
  fp_peak_in_use :: u32
  fp_acquisitions :: u64
  fp_rejected_acquisitions :: u64
  fp_wait_ns :: u64
  fp_lease_time_ns :: u64
  fp_peak_lease_time_ns :: u64
  fp_slots :: "cpu_slot list"

record cpu_frame_pool_config =
  pc_struct_size :: u32
  pc_struct_version :: u32
  pc_pixel_format :: u32
  pc_width :: u32
  pc_height :: u32
  pc_capacity :: u32

record cpu_frame_pool_stats =
  ps_struct_size :: u32
  ps_struct_version :: u32
  ps_capacity :: u32
  ps_in_use :: u32
  ps_peak_in_use :: u32
  ps_memory_mode :: u32
  ps_allocation_bytes :: u64
  ps_page_locked_bytes :: u64
  ps_acquisitions :: u64
  ps_rejected_acquisitions :: u64
  ps_wait_ns :: u64
  ps_lease_time_ns :: u64
  ps_peak_lease_time_ns :: u64

abbreviation sizeof_cpu_frame_pool_stats :: u32 where "sizeof_cpu_frame_pool_stats \<equiv> 80"

section \<open>Creation\<close>

text \<open>The chain of \<^verbatim>\<open>allocate(...) && ...\<close>: index, row bytes and rows of each plane.\<close>

fun allocate_planes ::
    "nat \<Rightarrow> ('o \<Rightarrow> nat \<Rightarrow> string option \<times> 'o) \<Rightarrow> bool \<Rightarrow> (nat \<times> u32 \<times> u32) list \<Rightarrow> cpu_slot \<Rightarrow> 'o \<Rightarrow>
     (bool \<times> string) \<times> cpu_slot \<times> 'o" where
  "allocate_planes page os_lock page_locked [] slot os = ((True, []), slot, os)"
| "allocate_planes page os_lock page_locked ((index, row_bytes, rows) # planes) slot os =
     (case allocate page os_lock (unat row_bytes * unat rows) page_locked (cs_planes slot ! index) os of
        ((done, error), plane, os') \<Rightarrow>
          let slot' = slot\<lparr>cs_strides := (cs_strides slot)[index := row_bytes],
                           cs_planes := (cs_planes slot)[index := plane]\<rparr>
          in if done then allocate_planes page os_lock page_locked planes slot' os'
             else ((False, error), slot', os'))"

text \<open>The planes a format has.\<close>

definition pool_layout :: "u32 \<Rightarrow> u32 \<Rightarrow> u32 \<Rightarrow> (nat \<times> u32 \<times> u32) list option" where
  "pool_layout format width height =
     (if format = MKVC_PIXEL_FORMAT_I420
      then Some [(0, width, height), (1, width div 2, height div 2), (2, width div 2, height div 2)]
      else if format = MKVC_PIXEL_FORMAT_NV12 then Some [(0, width, height), (1, width, height div 2)]
      else if format = MKVC_PIXEL_FORMAT_BGR24 \<or> format = MKVC_PIXEL_FORMAT_RGB24
      then Some [(0, width * 3, height)]
      else if format = MKVC_PIXEL_FORMAT_BGRA32 then Some [(0, width * 4, height)]
      else None)"

definition configure_slot ::
    "nat \<Rightarrow> ('o \<Rightarrow> nat \<Rightarrow> string option \<times> 'o) \<Rightarrow> u32 \<Rightarrow> u32 \<Rightarrow> u32 \<Rightarrow> bool \<Rightarrow> cpu_slot \<Rightarrow> u32 \<Rightarrow> 'o \<Rightarrow>
     (bool \<times> string) \<times> cpu_slot \<times> u32 \<times> 'o" where
  "configure_slot page os_lock format width height page_locked slot plane_count os =
     (case pool_layout format width height of
        None \<Rightarrow> ((False, ''unsupported native CPU pool pixel format''), slot, plane_count, os)
      | Some planes \<Rightarrow>
          (case allocate_planes page os_lock page_locked planes slot os of
             (result, slot', os') \<Rightarrow> (result, slot', of_nat (length planes), os')))"

fun configure_slots ::
    "nat \<Rightarrow> ('o \<Rightarrow> nat \<Rightarrow> string option \<times> 'o) \<Rightarrow> u32 \<Rightarrow> u32 \<Rightarrow> u32 \<Rightarrow> bool \<Rightarrow> nat \<Rightarrow> u32 \<Rightarrow> 'o \<Rightarrow>
     (string + cpu_slot list \<times> u32) \<times> 'o" where
  "configure_slots page os_lock format width height page_locked 0 plane_count os =
     (Inr ([], plane_count), os)"
| "configure_slots page os_lock format width height page_locked (Suc n) plane_count os =
     (case configure_slot page os_lock format width height page_locked new_slot plane_count os of
        ((False, error), _, _, os') \<Rightarrow> (Inl error, os')
      | ((True, _), slot, plane_count', os') \<Rightarrow>
          (case configure_slots page os_lock format width height page_locked n plane_count' os' of
             (Inl error, os'') \<Rightarrow> (Inl error, os'')
           | (Inr (slots, plane_count''), os'') \<Rightarrow> (Inr (slot # slots, plane_count''), os'')))"

definition new_pool :: "cpu_frame_pool_config \<Rightarrow> u32 \<Rightarrow> u32 \<Rightarrow> cpu_slot list \<Rightarrow> cpu_frame_pool" where
  "new_pool config memory_mode plane_count slots =
     (let planes = concat (map cs_planes slots)
      in \<lparr>fp_pixel_format = pc_pixel_format config, fp_width = pc_width config,
          fp_height = pc_height config, fp_plane_count = plane_count, fp_memory_mode = memory_mode,
          fp_allocation_bytes = sum_list (map (\<lambda>plane. of_nat (ca_size plane)) planes),
          fp_page_locked_bytes = sum_list (map (\<lambda>plane. of_nat (ca_locked_bytes plane)) planes),
          fp_in_use = 0, fp_peak_in_use = 0, fp_acquisitions = 0, fp_rejected_acquisitions = 0,
          fp_wait_ns = 0, fp_lease_time_ns = 0, fp_peak_lease_time_ns = 0, fp_slots = slots\<rparr>)"

definition create_cpu_frame_pool ::
    "nat \<Rightarrow> ('o \<Rightarrow> nat \<Rightarrow> string option \<times> 'o) \<Rightarrow> cpu_frame_pool_config \<Rightarrow> u32 \<Rightarrow> 'o \<Rightarrow>
     cpu_frame_pool outcome" where
  "create_cpu_frame_pool page os_lock config memory_mode os =
     (if pc_capacity config = 0 \<or> pc_width config = 0 \<or> pc_height config = 0 \<or>
         pc_width config AND 1 \<noteq> 0 \<or> pc_height config AND 1 \<noteq> 0
      then Inl (MKVC_ERROR_INVALID_ARGUMENT, ''CPU pool capacity and even dimensions must be positive'')
      else if memory_mode \<noteq> MKVC_CPU_MEMORY_PAGEABLE \<and> memory_mode \<noteq> MKVC_CPU_MEMORY_PAGE_LOCKED
      then Inl (MKVC_ERROR_INVALID_ARGUMENT, ''unsupported CPU pool memory mode'')
      else if pc_width config > 2147483647 div 4
      then Inl (MKVC_ERROR_INVALID_ARGUMENT, ''CPU pool row stride exceeds the ABI int32 limit'')
      else if pc_pixel_format config \<notin> {MKVC_PIXEL_FORMAT_I420, MKVC_PIXEL_FORMAT_NV12,
          MKVC_PIXEL_FORMAT_BGR24, MKVC_PIXEL_FORMAT_RGB24, MKVC_PIXEL_FORMAT_BGRA32}
      then Inl (MKVC_ERROR_INVALID_ARGUMENT, ''unsupported native CPU pool pixel format'')
      else (case fst (configure_slots page os_lock (pc_pixel_format config) (pc_width config)
                (pc_height config) (memory_mode = MKVC_CPU_MEMORY_PAGE_LOCKED)
                (unat (pc_capacity config)) 0 os) of
              Inl error \<Rightarrow> Inl (if memory_mode = MKVC_CPU_MEMORY_PAGE_LOCKED
                               then MKVC_ERROR_NOT_SUPPORTED else MKVC_ERROR_INVALID_ARGUMENT, error)
            | Inr (slots, plane_count) \<Rightarrow> Inr (new_pool config memory_mode plane_count slots)))"

section \<open>Acquiring, viewing and recycling\<close>

definition take_slot :: "u64 \<Rightarrow> cpu_frame_pool \<Rightarrow> (status \<times> buffer_lease option) \<times> cpu_frame_pool" where
  "take_slot elapsed p =
     (case first_free cs_in_use (fp_slots p) 0 of
        None \<Rightarrow> (((MKVC_WOULD_BLOCK, ''native CPU frame pool has no free slot''), None),
                 p\<lparr>fp_rejected_acquisitions := fp_rejected_acquisitions p + 1\<rparr>)
      | Some index \<Rightarrow>
          let slot = fp_slots p ! index; next_generation = cs_generation slot + 1
          in ((ok, Some \<lparr>bl_attached = True, bl_slot = index, bl_generation = next_generation,
                 bl_pixel_format = fp_pixel_format p, bl_width = fp_width p,
                 bl_height = fp_height p, bl_plane_count = fp_plane_count p\<rparr>),
              p\<lparr>fp_slots := (fp_slots p)[index :=
                   slot\<lparr>cs_in_use := True, cs_generation := next_generation\<rparr>],
                fp_wait_ns := fp_wait_ns p + elapsed, fp_acquisitions := fp_acquisitions p + 1,
                fp_in_use := fp_in_use p + 1,
                fp_peak_in_use := max (fp_peak_in_use p) (fp_in_use p + 1)\<rparr>))"

definition acquire_cpu_buffer ::
    "u32 \<Rightarrow> bool \<Rightarrow> u64 \<Rightarrow> cpu_frame_pool \<Rightarrow>
     ((status \<times> buffer_lease option) \<times> cpu_frame_pool) section_outcome" where
  "acquire_cpu_buffer timeout_ms expired elapsed p =
     (if list_ex (\<lambda>slot. \<not> cs_in_use slot) (fp_slots p) then Passed (take_slot elapsed p)
      else if timeout_ms = - 1 then Blocked
      else if expired \<or> timeout_ms = 0
      then Passed (((if timeout_ms = 0 then MKVC_WOULD_BLOCK else MKVC_ERROR_TIMEOUT,
                     ''native CPU frame pool acquire timed out''), None),
                   p\<lparr>fp_wait_ns := fp_wait_ns p + elapsed,
                     fp_rejected_acquisitions := fp_rejected_acquisitions p + 1\<rparr>)
      else Blocked)"

definition get_pool_view ::
    "(nat \<Rightarrow> nat \<Rightarrow> u64) \<Rightarrow> nat \<Rightarrow> u64 \<Rightarrow> cpu_frame_pool \<Rightarrow> mutable_frame_view outcome" where
  "get_pool_view address_of slot_index generation p =
     (if slot_index \<ge> length (fp_slots p)
      then Inl (MKVC_ERROR_INVALID_STATE, ''native CPU buffer slot is invalid'')
      else let slot = fp_slots p ! slot_index
      in if \<not> cs_in_use slot \<or> cs_generation slot \<noteq> generation
      then Inl (MKVC_ERROR_INVALID_STATE, ''native CPU buffer generation is stale'')
      else Inr \<lparr>fv_struct_size = sizeof_frame_view, fv_struct_version = 1,
          fv_pixel_format = fp_pixel_format p, fv_width = fp_width p, fv_height = fp_height p,
          fv_planes = (\<lambda>i. if i < unat (fp_plane_count p) \<and> allocation_data (cs_planes slot ! i) \<noteq> []
             then Some \<lparr>address = address_of slot_index i, memory = allocation_data (cs_planes slot ! i)\<rparr>
             else None),
          fv_strides = (\<lambda>i. if i < unat (fp_plane_count p) then cs_strides slot ! i else 0),
          fv_pts = - 1\<rparr>)"

definition lease_view ::
    "(nat \<Rightarrow> nat \<Rightarrow> u64) \<Rightarrow> buffer_lease \<Rightarrow> cpu_frame_pool \<Rightarrow> mutable_frame_view outcome" where
  "lease_view address_of l p =
     (if \<not> bl_attached l then Inl (MKVC_ERROR_INVALID_STATE, ''native CPU buffer lease is released'')
      else get_pool_view address_of (bl_slot l) (bl_generation l) p)"

definition recycle_cpu_buffer :: "u64 \<Rightarrow> lease \<Rightarrow> cpu_frame_pool \<Rightarrow> cpu_frame_pool" where
  "recycle_cpu_buffer lease_ns l p =
     (case l of (slot_index, generation) \<Rightarrow>
        if slot_index \<ge> length (fp_slots p) then p
        else let slot = fp_slots p ! slot_index
        in if \<not> cs_in_use slot \<or> cs_generation slot \<noteq> generation then p
        else p\<lparr>fp_slots := (fp_slots p)[slot_index := slot\<lparr>cs_in_use := False\<rparr>],
               fp_in_use := (if fp_in_use p \<noteq> 0 then fp_in_use p - 1 else fp_in_use p),
               fp_lease_time_ns := fp_lease_time_ns p + lease_ns,
               fp_peak_lease_time_ns := max (fp_peak_lease_time_ns p) lease_ns\<rparr>)"

definition release_lease :: "u64 \<Rightarrow> buffer_lease \<Rightarrow> cpu_frame_pool \<Rightarrow> cpu_frame_pool" where
  "release_lease lease_ns l p =
     (if bl_attached l then recycle_cpu_buffer lease_ns (bl_slot l, bl_generation l) p else p)"

definition pool_capacity :: "cpu_frame_pool \<Rightarrow> u32" where
  "pool_capacity p = of_nat (length (fp_slots p))"

definition pool_stats :: "cpu_frame_pool \<Rightarrow> cpu_frame_pool_stats" where
  "pool_stats p = \<lparr>ps_struct_size = sizeof_cpu_frame_pool_stats, ps_struct_version = 1,
     ps_capacity = pool_capacity p, ps_in_use = fp_in_use p, ps_peak_in_use = fp_peak_in_use p,
     ps_memory_mode = fp_memory_mode p, ps_allocation_bytes = fp_allocation_bytes p,
     ps_page_locked_bytes = fp_page_locked_bytes p, ps_acquisitions = fp_acquisitions p,
     ps_rejected_acquisitions = fp_rejected_acquisitions p, ps_wait_ns = fp_wait_ns p,
     ps_lease_time_ns = fp_lease_time_ns p, ps_peak_lease_time_ns = fp_peak_lease_time_ns p\<rparr>"

section \<open>The pool keeps the contract of a slot pool\<close>

definition cpu_slots :: "cpu_frame_pool \<Rightarrow> (bool \<times> u64) list" where
  "cpu_slots p = map (\<lambda>s. (cs_in_use s, cs_generation s)) (fp_slots p)"

text \<open>An acquisition as a client's history sees it: the slot and generation of the lease.\<close>

definition cpu_acquire :: "u32 \<times> bool \<times> u64 \<Rightarrow> cpu_frame_pool \<Rightarrow> lease option \<times> cpu_frame_pool" where
  "cpu_acquire a p = (case a of (timeout_ms, expired, elapsed) \<Rightarrow>
     (case acquire_cpu_buffer timeout_ms expired elapsed p of
        Blocked \<Rightarrow> (None, p)
      | Passed ((st, l), p') \<Rightarrow> (map_option (\<lambda>l. (bl_slot l, bl_generation l)) l, p')))"

lemma free_slot_iff: "list_ex (\<lambda>slot. \<not> cs_in_use slot) slots \<longleftrightarrow> first_free cs_in_use slots 0 \<noteq> None"
  using first_free_None [of cs_in_use slots 0] by (auto simp: list_ex_iff)

lemma cpu_acquire_full:
  assumes "first_free cs_in_use (fp_slots p) 0 = None"
  shows "fst (cpu_acquire a p) = None" "fp_slots (snd (cpu_acquire a p)) = fp_slots p"
    "fp_in_use (snd (cpu_acquire a p)) = fp_in_use p"
  using assms by (simp_all add: cpu_acquire_def acquire_cpu_buffer_def free_slot_iff split: prod.split)

lemma cpu_acquire_free:
  assumes "first_free cs_in_use (fp_slots p) 0 = Some i"
  shows "fst (cpu_acquire a p) = Some (i, cs_generation (fp_slots p ! i) + 1)"
    "fp_slots (snd (cpu_acquire a p)) = (fp_slots p)[i := (fp_slots p ! i)
        \<lparr>cs_in_use := True, cs_generation := cs_generation (fp_slots p ! i) + 1\<rparr>]"
    "fp_in_use (snd (cpu_acquire a p)) = fp_in_use p + 1"
  using assms
  by (simp_all add: cpu_acquire_def acquire_cpu_buffer_def free_slot_iff take_slot_def Let_def split: prod.split)

interpretation cpu_pool: slot_pool cpu_slots "\<lambda>p. unat (fp_in_use p)" cpu_acquire recycle_cpu_buffer
proof
  fix a p p'
  assume acq: "cpu_acquire a p = (None, p')"
  then have "first_free cs_in_use (fp_slots p) 0 = None"
    using cpu_acquire_free(1) [of p _ a] by (cases "first_free cs_in_use (fp_slots p) 0") auto
  then show "cpu_slots p' = cpu_slots p \<and> unat (fp_in_use p') = unat (fp_in_use p) \<and>
      (\<forall>s \<in> set (cpu_slots p). fst s)"
    using cpu_acquire_full [of p a] acq by (auto simp: cpu_slots_def first_free_None)
next
  fix a p i g p'
  assume acq: "cpu_acquire a p = (Some (i, g), p')"
  then obtain k where k: "first_free cs_in_use (fp_slots p) 0 = Some k"
    using cpu_acquire_full(1) [of p a] by (cases "first_free cs_in_use (fp_slots p) 0") auto
  note f = cpu_acquire_free [OF k, of a, unfolded acq] and free = first_free_0 [OF k]
  then have ik: "i = k" "g = cs_generation (fp_slots p ! k) + 1" by simp_all
  show "i < length (cpu_slots p) \<and> \<not> fst (cpu_slots p ! i) \<and> cpu_slots p' = (cpu_slots p)[i := (True, g)]"
    using f free ik by (simp add: cpu_slots_def map_update)
  show "unat g = Suc (unat (snd (cpu_slots p ! i)))"
    if "unat (snd (cpu_slots p ! i)) < 18446744073709551615"
    using that free ik by (simp add: cpu_slots_def u64_succ)
  show "unat (fp_in_use p') = Suc (unat (fp_in_use p))"
    if "length (cpu_slots p) < 4294967296" "unat (fp_in_use p) = count_if fst (cpu_slots p)"
  proof -
    have "count_if fst (cpu_slots p) < length (cpu_slots p)"
    proof -
      have "count_if fst (cpu_slots p) \<noteq> length (cpu_slots p)"
        unfolding count_if_full using free by (auto simp: cpu_slots_def intro!: bexI [of _ "fp_slots p ! k"])
      then show ?thesis using count_if_le [of fst "cpu_slots p"] by simp
    qed
    then show ?thesis using f(3) that by (simp add: u32_succ)
  qed
next
  fix r i g p
  show "cpu_slots (recycle_cpu_buffer r (i, g) p) =
      (if i < length (cpu_slots p) \<and> cpu_slots p ! i = (True, g)
       then (cpu_slots p)[i := (False, g)] else cpu_slots p)"
    by (auto simp: recycle_cpu_buffer_def cpu_slots_def map_update Let_def)
  show "unat (fp_in_use (recycle_cpu_buffer r (i, g) p)) =
      (if i < length (cpu_slots p) \<and> cpu_slots p ! i = (True, g)
       then unat (fp_in_use p) - 1 else unat (fp_in_use p))"
    by (auto simp: recycle_cpu_buffer_def cpu_slots_def Let_def word_pred)
qed

section \<open>The shape of a pool\<close>

text \<open>What creation promises of each slot: every plane of the layout has its stride and at least
  its bytes.\<close>

definition slot_shaped :: "(nat \<times> u32 \<times> u32) list \<Rightarrow> cpu_slot \<Rightarrow> bool" where
  "slot_shaped layout slot \<longleftrightarrow> length (cs_planes slot) = 4 \<and> length (cs_strides slot) = 4 \<and>
     (\<forall>(i, row_bytes, rows) \<in> set layout. cs_strides slot ! i = row_bytes \<and>
        unat row_bytes * unat rows \<le> length (allocation_data (cs_planes slot ! i)))"

definition pool_shaped :: "cpu_frame_pool_config \<Rightarrow> cpu_frame_pool \<Rightarrow> bool" where
  "pool_shaped config p \<longleftrightarrow>
     (case pool_layout (pc_pixel_format config) (pc_width config) (pc_height config) of
        None \<Rightarrow> False
      | Some layout \<Rightarrow> (\<forall>slot \<in> set (fp_slots p). slot_shaped layout slot) \<and>
          fp_pixel_format p = pc_pixel_format config \<and> fp_width p = pc_width config \<and>
          fp_height p = pc_height config \<and> unat (fp_plane_count p) = length layout)"

lemma page_size_pos: "0 < page_size reported"
  by (simp add: page_size_def)

lemma page_rounding: "0 < page \<Longrightarrow> bytes \<le> (bytes + page - 1) div page * (page :: nat)"
proof -
  assume page: "0 < page"
  have "bytes + page - 1 = (bytes + page - 1) div page * page + (bytes + page - 1) mod page" by simp
  moreover have "(bytes + page - 1) mod page \<le> page - 1" using mod_less_divisor [OF page] by (simp add: less_Suc_eq_le [symmetric] page)
  ultimately show ?thesis using page by linarith
qed

lemma allocate_length:
  assumes "allocate page os_lock bytes page_locked a os = ((True, error), a', os')" "0 < page"
  shows "bytes \<le> length (allocation_data a')"
  using assms page_rounding [OF assms(2), of bytes]
  by (auto simp: allocate_def reset_allocation_def allocation_data_def Let_def
      split: if_splits option.splits prod.splits)

lemma allocate_planes_shape:
  assumes "0 < page"
  shows "allocate_planes page os_lock page_locked planes slot os = ((True, error), slot', os') \<Longrightarrow>
    distinct (map fst planes) \<Longrightarrow> \<forall>i \<in> fst ` set planes. i < 4 \<Longrightarrow>
    length (cs_planes slot) = 4 \<Longrightarrow> length (cs_strides slot) = 4 \<Longrightarrow>
    slot_shaped planes slot' \<and> cs_in_use slot' = cs_in_use slot \<and>
    cs_generation slot' = cs_generation slot \<and>
    (\<forall>j. j \<notin> fst ` set planes \<longrightarrow> cs_strides slot' ! j = cs_strides slot ! j \<and>
       cs_planes slot' ! j = cs_planes slot ! j)"
proof (induction planes arbitrary: slot os)
  case Nil
  then show ?case by (simp add: slot_shaped_def)
next
  case (Cons x planes)
  obtain index row_bytes rows where x: "x = (index, row_bytes, rows)" by (cases x)
  obtain done' e plane os1 where al: "allocate page os_lock (unat row_bytes * unat rows) page_locked
      (cs_planes slot ! index) os = ((done', e), plane, os1)" by (metis prod.exhaust)
  let ?s = "slot\<lparr>cs_strides := (cs_strides slot)[index := row_bytes],
      cs_planes := (cs_planes slot)[index := plane]\<rparr>"
  have d: "done'" and rest: "allocate_planes page os_lock page_locked planes ?s os1 = ((True, error), slot', os')"
    using Cons.prems(1) x al by (auto simp: Let_def split: if_splits)
  have bytes: "unat row_bytes * unat rows \<le> length (allocation_data plane)"
    using allocate_length [OF _ assms] al d by fastforce
  have ih: "slot_shaped planes slot'" "cs_in_use slot' = cs_in_use slot"
      "cs_generation slot' = cs_generation slot"
      "\<forall>j. j \<notin> fst ` set planes \<longrightarrow> cs_strides slot' ! j = cs_strides ?s ! j \<and>
         cs_planes slot' ! j = cs_planes ?s ! j"
    using Cons.IH [OF rest] Cons.prems(2-5) by simp_all
  have fresh: "index \<notin> fst ` set planes" "index < 4" using Cons.prems(2,3) x by auto
  then have "cs_strides slot' ! index = row_bytes" "cs_planes slot' ! index = plane"
    using ih(4) Cons.prems(4,5) by simp_all
  then have "slot_shaped (x # planes) slot'"
    using ih(1) bytes x by (simp add: slot_shaped_def)
  then show ?case using ih(2-4) fresh x by auto
qed

lemma pool_layout_indices:
  "pool_layout format w h = Some planes \<Longrightarrow> distinct (map fst planes) \<and> (\<forall>i \<in> fst ` set planes. i < 4) \<and>
   length planes \<le> 3 \<and> map fst planes = [0..<length planes]"
  by (auto simp: pool_layout_def upt_rec split: if_splits)

lemma configure_slots_shape:
  assumes "0 < page" "pool_layout format w h = Some planes"
  shows "configure_slots page os_lock format w h page_locked n plane_count os = (Inr (slots, count), os') \<Longrightarrow>
    length slots = n \<and> (\<forall>s \<in> set slots. slot_shaped planes s \<and> \<not> cs_in_use s \<and> cs_generation s = 0) \<and>
    (0 < n \<longrightarrow> unat count = length planes) \<and> (n = 0 \<longrightarrow> count = plane_count)"
proof (induction n arbitrary: plane_count os slots)
  case 0
  then show ?case by simp
next
  case (Suc n)
  note layout = pool_layout_indices [OF assms(2)]
  obtain r e slot os1 where al: "allocate_planes page os_lock page_locked planes new_slot os = ((r, e), slot, os1)"
    by (metis prod.exhaust)
  have r: r using Suc.prems al assms(2) by (auto simp: configure_slot_def split: bool.splits)
  then obtain rest where rest: "configure_slots page os_lock format w h page_locked n
        (of_nat (length planes)) os1 = (Inr (rest, count), os')" "slots = slot # rest"
    using Suc.prems al assms(2) by (auto simp: configure_slot_def split: sum.splits prod.splits)
  have "slot_shaped planes slot \<and> \<not> cs_in_use slot \<and> cs_generation slot = 0"
    using allocate_planes_shape [OF assms(1) al [unfolded eqTrueI [OF r]]] layout by (simp add: new_slot_def)
  moreover have "unat (of_nat (length planes) :: u32) = length planes"
    using layout by (simp add: unsigned_of_nat take_bit_nat_eq_self)
  ultimately show ?case using Suc.IH [OF rest(1)] rest(2) by (cases n) auto
qed

lemma create_facts:
  assumes "create_cpu_frame_pool page os_lock config mode os = Inr p" "0 < page"
  shows "pool_shaped config p" "length (fp_slots p) = unat (pc_capacity config)"
    "fp_in_use p = 0" "\<forall>s \<in> set (cpu_slots p). s = (False, 0)"
    "pc_width config \<noteq> 0" "pc_height config \<noteq> 0" "even (unat (pc_width config))"
    "even (unat (pc_height config))" "unat (pc_width config) \<le> 536870911"
proof -
  obtain planes where layout: "pool_layout (pc_pixel_format config) (pc_width config) (pc_height config) = Some planes"
    using assms(1) by (auto simp: create_cpu_frame_pool_def pool_layout_def split: if_splits)
  obtain slots count os' where conf: "configure_slots page os_lock (pc_pixel_format config) (pc_width config)
        (pc_height config) (mode = MKVC_CPU_MEMORY_PAGE_LOCKED) (unat (pc_capacity config)) 0 os =
        (Inr (slots, count), os')" and p: "p = new_pool config mode count slots"
    using assms(1)
    by (cases "configure_slots page os_lock (pc_pixel_format config) (pc_width config)
        (pc_height config) (mode = MKVC_CPU_MEMORY_PAGE_LOCKED) (unat (pc_capacity config)) 0 os")
      (auto simp: create_cpu_frame_pool_def split: if_splits sum.splits)
  have args: "pc_capacity config \<noteq> 0" "pc_width config \<noteq> 0" "pc_height config \<noteq> 0"
      "pc_width config AND 1 = 0" "pc_height config AND 1 = 0" "pc_width config \<le> 2147483647 div 4"
    using assms(1) by (auto simp: create_cpu_frame_pool_def split: if_splits)
  note shape = configure_slots_shape [OF assms(2) layout conf]
  have cap: "0 < unat (pc_capacity config)" using args(1) by (simp add: unat_gt_0)
  show "pool_shaped config p" using shape cap layout by (auto simp: pool_shaped_def p new_pool_def Let_def)
  show "length (fp_slots p) = unat (pc_capacity config)" using shape by (simp add: p new_pool_def Let_def)
  show "fp_in_use p = 0" by (simp add: p new_pool_def Let_def)
  show "\<forall>s \<in> set (cpu_slots p). s = (False, 0)"
    using shape by (auto simp: cpu_slots_def p new_pool_def Let_def)
  show "pc_width config \<noteq> 0" "pc_height config \<noteq> 0" by (fact args)+
  show "even (unat (pc_width config))" "even (unat (pc_height config))"
    using args(4,5) by (simp_all add: even_word_iff)
  show "unat (pc_width config) \<le> 536870911" using args(6) by (simp add: word_le_nat_alt)
qed

text \<open>A pool after any history of a client.\<close>

lemma cpu_history_inv:
  assumes "create_cpu_frame_pool page os_lock config mode os = Inr p0" "0 < page"
    and "length ops < 18446744073709551616"
  shows "cpu_pool.pool_inv (pool_run cpu_acquire recycle_cpu_buffer ops (p0, [], []))"
proof -
  note c = create_facts [OF assms(1,2)]
  have "length (cpu_slots p0) < 4294967296"
    using c(2) u32_less [of "pc_capacity config"] by (simp add: cpu_slots_def)
  then have "cpu_pool.pool_inv (p0, [], [])" using c(3,4) by (intro cpu_pool.pool_inv_fresh) simp_all
  then show ?thesis using assms(3) by (intro cpu_pool.pool_run_inv) simp_all
qed

lemma pool_shaped_steps:
  "pool_shaped config p \<and> length (fp_slots p) = n \<Longrightarrow>
    pool_shaped config (snd (cpu_acquire a p)) \<and> length (fp_slots (snd (cpu_acquire a p))) = n"
  "pool_shaped config p \<and> length (fp_slots p) = n \<Longrightarrow>
    pool_shaped config (recycle_cpu_buffer r l p) \<and> length (fp_slots (recycle_cpu_buffer r l p)) = n"
proof -
  have upd: "\<forall>s \<in> set (xs[i := (xs ! i)\<lparr>cs_in_use := b, cs_generation := g\<rparr>]). slot_shaped planes s"
    if "\<forall>s \<in> set xs. slot_shaped planes s" "i < length xs" for xs i b g planes
  proof -
    have "slot_shaped planes ((xs ! i)\<lparr>cs_in_use := b, cs_generation := g\<rparr>)"
      using that by (simp add: slot_shaped_def)
    then show ?thesis using that(1) set_update_subset_insert [of xs i] by blast
  qed
  have upd': "\<forall>s \<in> set (xs[i := (xs ! i)\<lparr>cs_in_use := b\<rparr>]). slot_shaped planes s"
    if "\<forall>s \<in> set xs. slot_shaped planes s" "i < length xs" for xs i b planes
    using upd [OF that, where b = b and g = "cs_generation (xs ! i)"] by simp
  assume p: "pool_shaped config p \<and> length (fp_slots p) = n"
  obtain planes where planes: "pool_layout (pc_pixel_format config) (pc_width config) (pc_height config) = Some planes"
    using p by (auto simp: pool_shaped_def split: option.splits)
  show "pool_shaped config (recycle_cpu_buffer r l p) \<and> length (fp_slots (recycle_cpu_buffer r l p)) = n"
    using p planes upd' [where xs = "fp_slots p" and planes = planes and i = "fst l" and b = False]
    by (auto simp: recycle_cpu_buffer_def pool_shaped_def Let_def split: prod.split)
  show "pool_shaped config (snd (cpu_acquire a p)) \<and> length (fp_slots (snd (cpu_acquire a p))) = n"
  proof (cases "first_free cs_in_use (fp_slots p) 0")
    case None
    have "snd (cpu_acquire a p) = p \<or> (\<exists>w rj. snd (cpu_acquire a p) =
        p\<lparr>fp_wait_ns := w, fp_rejected_acquisitions := rj\<rparr>)"
      using None by (auto simp: cpu_acquire_def acquire_cpu_buffer_def free_slot_iff split: prod.split)
    then show ?thesis using p by (auto simp: pool_shaped_def split: option.splits)
  next
    case (Some i)
    note i = first_free_0 [OF Some]
    then show ?thesis using p planes Some upd [where xs = "fp_slots p" and planes = planes and i = i and b = True]
      by (auto simp: cpu_acquire_def acquire_cpu_buffer_def free_slot_iff take_slot_def pool_shaped_def Let_def
          split: prod.split)
  qed
qed

lemma cpu_history_shaped:
  assumes "create_cpu_frame_pool page os_lock config mode os = Inr p0" "0 < page"
  shows "pool_shaped config (fst (pool_run cpu_acquire recycle_cpu_buffer ops (p0, [], []))) \<and>
    length (fp_slots (fst (pool_run cpu_acquire recycle_cpu_buffer ops (p0, [], [])))) = unat (pc_capacity config)"
  by (rule pool_run_preserves [where P = "\<lambda>p. pool_shaped config p \<and>
        length (fp_slots p) = unat (pc_capacity config)"])
    (use pool_shaped_steps create_facts [OF assms] in blast)+

lemma view_iff_live:
  "(\<exists>v. get_pool_view address_of i g p = Inr v) \<longleftrightarrow>
     i < length (cpu_slots p) \<and> cpu_slots p ! i = (True, g)"
  by (auto simp: get_pool_view_def cpu_slots_def Let_def)

text \<open>The view of a slot of the promised shape.\<close>

lemma shaped_view_valid:
  assumes shaped: "pool_shaped config p" and view: "get_pool_view address_of i g p = Inr v"
    and dims: "pc_width config \<noteq> 0" "pc_height config \<noteq> 0" "even (unat (pc_width config))"
      "even (unat (pc_height config))" "unat (pc_width config) \<le> 536870911"
  shows "validate_borrowed_frame v = ok \<and> frame_memory v \<and> fv_pixel_format v = pc_pixel_format config \<and>
    fv_width v = pc_width config \<and> fv_height v = pc_height config"
proof -
  define w where "w = pc_width config"
  define h where "h = pc_height config"
  define slot where "slot = fp_slots p ! i"
  obtain planes where planes: "pool_layout (pc_pixel_format config) w h = Some planes"
    using shaped by (auto simp: pool_shaped_def w_def h_def split: option.splits)
  have i: "i < length (fp_slots p)" and v: "v = \<lparr>fv_struct_size = sizeof_frame_view, fv_struct_version = 1,
          fv_pixel_format = fp_pixel_format p, fv_width = fp_width p, fv_height = fp_height p,
          fv_planes = (\<lambda>k. if k < unat (fp_plane_count p) \<and> allocation_data (cs_planes slot ! k) \<noteq> []
             then Some \<lparr>address = address_of i k, memory = allocation_data (cs_planes slot ! k)\<rparr>
             else None),
          fv_strides = (\<lambda>k. if k < unat (fp_plane_count p) then cs_strides slot ! k else 0),
          fv_pts = - 1\<rparr>"
    using view by (auto simp: get_pool_view_def slot_def Let_def split: if_splits)
  have p: "slot_shaped planes slot" "fp_pixel_format p = pc_pixel_format config" "fp_width p = w"
      "fp_height p = h" "unat (fp_plane_count p) = length planes"
    using shaped planes i by (auto simp: pool_shaped_def w_def h_def slot_def)
  have d: "w \<noteq> 0" "h \<noteq> 0" "w AND 1 = 0" "h AND 1 = 0" "even (unat w)" "even (unat h)" "unat w \<le> 536870911"
    using dims by (simp_all add: w_def h_def even_word_iff)
  have pos: "0 < unat w" "0 < unat h" "0 < unat (w div 2)" "0 < unat (h div 2)"
  proof -
    show q: "0 < unat w" "0 < unat h" using d(1,2) by (simp_all add: unat_gt_0)
    show "0 < unat (w div 2)" "0 < unat (h div 2)"
      using q d(5,6) by (auto simp: unat_div elim!: evenE)
  qed
  have "unat (w * 3) = unat w * 3" "unat (w * 4) = unat w * 4"
    using d(7) unat_mult_lem [of w 3] unat_mult_lem [of w 4] by simp_all
  note mults = this
  have readable: "valid_plane v k rb \<and> plane_memory v k (rb, rows)"
    if "(k, rb, rows) \<in> set planes" "0 < unat rb * unat rows" for k rb rows
  proof -
    have s: "cs_strides slot ! k = rb" "unat rb * unat rows \<le> length (allocation_data (cs_planes slot ! k))"
      using that(1) p(1) by (auto simp: slot_shaped_def)
    have k: "k < length planes"
    proof -
      have "k \<in> set (map fst planes)" using that(1) by force
      then show ?thesis using pool_layout_indices [OF planes] by simp
    qed
    have ne: "allocation_data (cs_planes slot ! k) \<noteq> []" using s(2) that(2) by auto
    have "(unat rows - 1) * unat rb + unat rb \<le> length (allocation_data (cs_planes slot ! k))"
    proof -
      have "(unat rows - 1) * unat rb + unat rb = unat rb * unat rows"
        using that(2) by (cases "unat rows") (auto simp: algebra_simps)
      then show ?thesis using s(2) by simp
    qed
    then show ?thesis using k ne s(1) p(5)
      by (simp add: v valid_plane_def plane_memory_def plane_ptr_def)
  qed
  have shape: "fv_pixel_format v = pc_pixel_format config" "fv_width v = w" "fv_height v = h"
    using p(2-4) by (simp_all add: v)
  consider "pc_pixel_format config = MKVC_PIXEL_FORMAT_I420" | "pc_pixel_format config = MKVC_PIXEL_FORMAT_NV12"
    | "pc_pixel_format config = MKVC_PIXEL_FORMAT_BGR24" | "pc_pixel_format config = MKVC_PIXEL_FORMAT_RGB24"
    | "pc_pixel_format config = MKVC_PIXEL_FORMAT_BGRA32"
    using planes by (auto simp: pool_layout_def split: if_splits)
  then have "validate_borrowed_frame v = ok \<and> frame_memory v"
  proof cases
    case 1
    then have "planes = [(0, w, h), (1, w div 2, h div 2), (2, w div 2, h div 2)]"
      using planes by (simp add: pool_layout_def)
    then show ?thesis using readable [of 0 w h] readable [of 1 "w div 2" "h div 2"]
        readable [of 2 "w div 2" "h div 2"] pos d(1-4) 1 shape
      by (simp add: numeral_2_eq_2 validate_borrowed_frame_def frame_memory_def plane_geometry_def Let_def)
  next
    case 2
    then have "planes = [(0, w, h), (1, w, h div 2)]" using planes by (simp add: pool_layout_def)
    then show ?thesis using readable [of 0 w h] readable [of 1 w "h div 2"] pos d(1-4) 2 shape
      by (simp add: validate_borrowed_frame_def frame_memory_def plane_geometry_def Let_def)
  next
    case 3
    then have "planes = [(0, w * 3, h)]" using planes by (simp add: pool_layout_def)
    then show ?thesis using readable [of 0 "w * 3" h] pos mults d(1-4) 3 shape
      by (simp add: validate_borrowed_frame_def frame_memory_def plane_geometry_def Let_def)
  next
    case 4
    then have "planes = [(0, w * 3, h)]" using planes by (simp add: pool_layout_def)
    then show ?thesis using readable [of 0 "w * 3" h] pos mults d(1-4) 4 shape
      by (simp add: validate_borrowed_frame_def frame_memory_def plane_geometry_def Let_def)
  next
    case 5
    then have "planes = [(0, w * 4, h)]" using planes by (simp add: pool_layout_def)
    then show ?thesis using readable [of 0 "w * 4" h] pos mults d(1-4) 5 shape
      by (simp add: validate_borrowed_frame_def frame_memory_def plane_geometry_def Let_def)
  qed
  then show ?thesis using shape by (simp add: w_def h_def)
qed

section \<open>An execution\<close>

text \<open>Two RGB slots of 2x2 pixels in pageable memory: two leases, one returned, one more taken.\<close>

definition sample_pool_config :: cpu_frame_pool_config where
  "sample_pool_config = \<lparr>pc_struct_size = 24, pc_struct_version = 1,
     pc_pixel_format = MKVC_PIXEL_FORMAT_RGB24, pc_width = 2, pc_height = 2, pc_capacity = 2\<rparr>"

definition no_os :: "unit \<Rightarrow> nat \<Rightarrow> string option \<times> unit" where
  "no_os os bytes = (None, os)"

definition sample_pool :: cpu_frame_pool where
  "sample_pool = (case create_cpu_frame_pool (page_size 0) no_os sample_pool_config
       MKVC_CPU_MEMORY_PAGEABLE () of Inr p \<Rightarrow> p | Inl _ \<Rightarrow> new_pool sample_pool_config 0 0 [])"

definition sample_pool_ops :: "(u32 \<times> bool \<times> u64, u64) pool_op list" where
  "sample_pool_ops = [AcquireSlot (0, True, 1), AcquireSlot (0, True, 1), RecycleLease (0, 1) 5,
     AcquireSlot (0, True, 1), RecycleLease (0, 1) 5]"

lemma sample_pool_created:
  "create_cpu_frame_pool (page_size 0) no_os sample_pool_config MKVC_CPU_MEMORY_PAGEABLE () =
   Inr sample_pool"
  by code_simp

lemma sample_pool_history:
  "pool_run cpu_acquire recycle_cpu_buffer sample_pool_ops (sample_pool, [], []) =
   (fst (pool_run cpu_acquire recycle_cpu_buffer sample_pool_ops (sample_pool, [], [])),
    [(0, 2), (1, 1)], [(0, 2), (1, 1), (0, 1)])"
  by code_simp

section \<open>Properties\<close>

text \<open>C18. Exclusive leases of a CPU frame pool: after any history of acquisitions and releases,
  stale and repeated releases included, the leases that are out hold different slots, as many as
  the pool counts and never more than its capacity; a slot and generation can be viewed exactly
  while their lease is out, no lease was ever issued twice, and the pool refuses or blocks an
  acquisition only when every slot is out.\<close>

theorem cpu_pool_exclusive:
  assumes "create_cpu_frame_pool (page_size reported) os_lock config mode os = Inr p0"
    and "pool_run cpu_acquire recycle_cpu_buffer ops (p0, [], []) = (p, live, issued)"
    and "length ops < 18446744073709551616"
  shows "distinct (map fst live) \<and> length live = unat (fp_in_use p) \<and>
    length live \<le> unat (pc_capacity config) \<and> distinct issued \<and>
    (\<forall>i g. (\<exists>v. get_pool_view address_of i g p = Inr v) \<longleftrightarrow> (i, g) \<in> set live) \<and>
    (fst (cpu_acquire a p) = None \<longrightarrow> length live = unat (pc_capacity config))"
proof -
  note inv = cpu_history_inv [OF assms(1) page_size_pos assms(3), unfolded assms(2)]
  note facts = cpu_pool.live_facts [OF inv]
  have cap: "length (cpu_slots p) = unat (pc_capacity config)"
    using cpu_history_shaped [OF assms(1) page_size_pos, of ops] assms(2) by (simp add: cpu_slots_def)
  have views: "(\<exists>v. get_pool_view address_of i g p = Inr v) \<longleftrightarrow> (i, g) \<in> set live" for i g
    unfolding view_iff_live cpu_pool.live_iff_slot [OF inv] ..
  have full: "fst (cpu_acquire a p) = None \<longrightarrow> length live = unat (pc_capacity config)"
    using cpu_pool.acquire_unless_full [OF inv, of a] facts(3) cap by linarith
  show ?thesis using facts cap views full by auto
qed

theorem cpu_pool_exclusive_witness:
  "distinct (map fst [(0 :: nat, 2 :: u64), (1, 1)]) \<and>
    ((\<exists>v. get_pool_view (\<lambda>_ _. 64) 0 2
        (fst (pool_run cpu_acquire recycle_cpu_buffer sample_pool_ops (sample_pool, [], []))) = Inr v) \<longleftrightarrow>
      (0, 2) \<in> set [(0 :: nat, 2 :: u64), (1, 1)])"
  using cpu_pool_exclusive [OF sample_pool_created sample_pool_history, of "\<lambda>_ _. 64" "(0, True, 1)"]
  by (simp add: sample_pool_ops_def)

text \<open>C19. What a lease gives access to: the view of every lease that is out describes a frame of
  the pool's format and dimensions that the encoder's validation accepts, with planes as long as
  its strides promise.\<close>

theorem cpu_pool_view_valid:
  assumes "create_cpu_frame_pool (page_size reported) os_lock config mode os = Inr p0"
    and "pool_run cpu_acquire recycle_cpu_buffer ops (p0, [], []) = (p, live, issued)"
    and "length ops < 18446744073709551616" and "(i, g) \<in> set live"
  shows "\<exists>v. get_pool_view address_of i g p = Inr v \<and> validate_borrowed_frame v = ok \<and>
    frame_memory v \<and> fv_pixel_format v = pc_pixel_format config \<and>
    fv_width v = pc_width config \<and> fv_height v = pc_height config"
proof -
  note inv = cpu_history_inv [OF assms(1) page_size_pos assms(3), unfolded assms(2)]
  obtain v where v: "get_pool_view address_of i g p = Inr v"
    using assms(4) view_iff_live [of address_of i g p] cpu_pool.live_iff_slot [OF inv] by auto
  have "pool_shaped config p"
    using cpu_history_shaped [OF assms(1) page_size_pos, of ops] assms(2) by simp
  from shaped_view_valid [OF this v] create_facts [OF assms(1) page_size_pos] v
  show ?thesis by auto
qed

theorem cpu_pool_view_valid_witness:
  "\<exists>v. get_pool_view (\<lambda>_ _. 64) 0 2
      (fst (pool_run cpu_acquire recycle_cpu_buffer sample_pool_ops (sample_pool, [], []))) = Inr v \<and>
    validate_borrowed_frame v = ok \<and> frame_memory v \<and>
    fv_pixel_format v = pc_pixel_format sample_pool_config \<and>
    fv_width v = pc_width sample_pool_config \<and> fv_height v = pc_height sample_pool_config"
  by (rule cpu_pool_view_valid [OF sample_pool_created sample_pool_history])
    (simp_all add: sample_pool_ops_def)

end
