(* ===== verification/Decoder.thy ===== *)
theory Decoder
  imports Metrics
begin

text \<open>
  The decoder handle and its bounded read-ahead: state (src/c_api_internal.hpp), creation,
  copy policy and checks (src/decoder/decoder_c_api_support.cpp), backend selection and calls
  (decoder_pipeline.cpp, decoder_backend_io.cpp), synchronous reads (decoder_sync_read.cpp)
  and the prefetch worker with its readers (decoder_prefetch.cpp). The concrete decoders are a
  record of operations over a state; the probe of the input and the list of capabilities are
  arguments. As in the encoder every locked block is one function, \<open>Blocked\<close> where it waits.

  The facts: the queue is bounded, readers receive exactly the frames the decoder would
  yield one by one, in order, the end of the stream (or an error) is reported only behind the
  last frame, nobody deadlocks, and closing ends the worker.
\<close>

section \<open>Frames and backends\<close>

record decoded_frame =
  df_width :: u32
  df_height :: u32
  df_pts_ns :: i64
  df_pixels :: bytes
  df_offsets :: "nat list" \<comment> \<open>of Y, U, V\<close>
  df_strides :: "i32 list"

datatype decoder_kind = IntelDecoder | NvidiaDecoder | CpuVp9 | CpuAv1

fun hardware_decoder :: "decoder_kind \<Rightarrow> bool" where
  "hardware_decoder IntelDecoder = True"
| "hardware_decoder NvidiaDecoder = True"
| "hardware_decoder _ = False"

text \<open>The concrete decoder behind the handle; \<open>hardware_pending\<close> asks only hardware ones.\<close>

record ('b, 'f) decoder_ops =
  do_read :: "'b \<Rightarrow> (status \<times> 'f) call \<times> 'b"
  do_read_gpu :: "'b \<Rightarrow> status call \<times> 'b"
  do_close :: "'b \<Rightarrow> status call \<times> 'b"
  do_max_pending_observed :: "'b \<Rightarrow> u32"

record ('b, 'f) decoder =
  dd_kind :: decoder_kind
  dd_backend :: 'b
  dd_queue :: "'f list"
  dd_capacity :: nat
  dd_stop_requested :: bool
  dd_worker_finished :: bool
  dd_worker_status :: status \<comment> \<open>\<open>worker_result\<close> and \<open>worker_error\<close>\<close>
  dd_accepted_frames :: u64
  dd_completed_frames :: u64
  dd_queue_wait_ns :: u64
  dd_backend_time_ns :: u64
  dd_stages :: stage_metrics
  dd_copy_edges :: copy_edge_counters
  dd_peak_queue_depth :: u32
  dd_hardware_pending_peak :: u32
  dd_gpu_path_exercised :: bool
  dd_require_gpu_resident :: bool
  dd_allow_gpu_copy :: bool
  dd_allow_cpu_copy :: bool
  dd_video_info :: video_info

section \<open>Creation\<close>

definition decode_available :: "backend_capability list \<Rightarrow> decoder_config \<Rightarrow> bool" where
  "decode_available capabilities config \<longleftrightarrow>
     (\<exists>item \<in> set capabilities. bc_backend item = dc_backend config \<and>
        bc_codec item = dc_codec config \<and> bc_can_decode item \<noteq> 0)"

text \<open>\<open>construct\<close> is the concrete decoder's factory.\<close>

definition create_decoder_backend ::
    "backend_capability list \<Rightarrow> (decoder_kind \<Rightarrow> decoder_config \<Rightarrow> string + 'b) \<Rightarrow> decoder_config \<Rightarrow>
     status + (decoder_kind \<times> 'b)" where
  "create_decoder_backend capabilities construct config =
     (let build = (\<lambda>kind. case construct kind config of
              Inl error \<Rightarrow> Inl (MKVC_ERROR_CODEC, error) | Inr b \<Rightarrow> Inr (kind, b))
      in if (dc_backend config = MKVC_BACKEND_INTEL \<or> dc_backend config = MKVC_BACKEND_NVIDIA) \<and>
            \<not> decode_available capabilities config
         then Inl (MKVC_ERROR_NOT_SUPPORTED, ''requested hardware decode capability is unavailable'')
         else if dc_backend config = MKVC_BACKEND_INTEL then build IntelDecoder
         else if dc_backend config = MKVC_BACKEND_NVIDIA then build NvidiaDecoder
         else if dc_codec config = MKVC_CODEC_VP9 then build CpuVp9
         else build CpuAv1)"

definition new_decoder :: "decoder_kind \<Rightarrow> 'b \<Rightarrow> video_info \<Rightarrow> u32 \<Rightarrow> ('b, 'f) decoder" where
  "new_decoder kind b info prefetch = \<lparr>dd_kind = kind, dd_backend = b, dd_queue = [],
     dd_capacity = unat prefetch, dd_stop_requested = False, dd_worker_finished = False,
     dd_worker_status = ok, dd_accepted_frames = 0, dd_completed_frames = 0,
     dd_queue_wait_ns = 0, dd_backend_time_ns = 0, dd_stages = no_stages,
     dd_copy_edges = no_copies, dd_peak_queue_depth = 0, dd_hardware_pending_peak = 0,
     dd_gpu_path_exercised = False, dd_require_gpu_resident = False, dd_allow_gpu_copy = True,
     dd_allow_cpu_copy = True, dd_video_info = info\<rparr>"

definition create_decoder ::
    "(string \<Rightarrow> status + video_info) \<Rightarrow> backend_capability list \<Rightarrow>
     (decoder_kind \<Rightarrow> decoder_config \<Rightarrow> string + 'b) \<Rightarrow> decoder_config \<Rightarrow>
     status + ('b, 'f) decoder" where
  "create_decoder probe capabilities construct config =
     (case probe (case dc_input_path config of None \<Rightarrow> [] | Some path \<Rightarrow> path) of
        Inl failure \<Rightarrow> Inl failure
      | Inr info \<Rightarrow>
          if dc_codec config \<noteq> MKVC_CODEC_AUTO \<and> dc_codec config \<noteq> vi_codec info
          then Inl (MKVC_ERROR_INVALID_ARGUMENT,
                 ''input video codec does not match decoder configuration'')
          else (case create_decoder_backend capabilities construct (config\<lparr>dc_codec := vi_codec info\<rparr>) of
                  Inl failure \<Rightarrow> Inl failure
                | Inr (kind, b) \<Rightarrow> Inr (new_decoder kind b info (dc_prefetch config))))"

section \<open>Policy, checks and metrics\<close>

definition set_decoder_copy_policy :: "copy_policy \<Rightarrow> ('b, 'f) decoder \<Rightarrow> status \<times> ('b, 'f) decoder" where
  "set_decoder_copy_policy policy d =
     (if dd_accepted_frames d \<noteq> 0 \<or> dd_completed_frames d \<noteq> 0
      then ((MKVC_ERROR_INVALID_STATE, ''copy policy must be set before the first decoder frame''), d)
      else if (cp_require_gpu_resident policy \<noteq> 0 \<or> cp_allow_cpu_copy policy = 0) \<and> dd_capacity d \<noteq> 0
      then ((MKVC_ERROR_NOT_SUPPORTED, ''GPU-resident decoding currently requires prefetch=0''), d)
      else if cp_require_gpu_resident policy \<noteq> 0 \<and> cp_allow_cpu_copy policy \<noteq> 0
      then ((MKVC_ERROR_INVALID_ARGUMENT, ''require_gpu_resident conflicts with allow_cpu_copy''), d)
      else if cp_require_gpu_resident policy \<noteq> 0 \<and> \<not> hardware_decoder (dd_kind d)
      then ((MKVC_ERROR_NOT_SUPPORTED, ''GPU-resident decoding is unavailable for this backend''), d)
      else (ok, d\<lparr>dd_require_gpu_resident := cp_require_gpu_resident policy \<noteq> 0,
                  dd_allow_gpu_copy := cp_allow_gpu_copy policy \<noteq> 0,
                  dd_allow_cpu_copy := cp_allow_cpu_copy policy \<noteq> 0\<rparr>))"

definition check_cpu_read :: "('b, 'f) decoder \<Rightarrow> status" where
  "check_cpu_read d =
     (if dd_require_gpu_resident d \<or> \<not> dd_allow_cpu_copy d
      then (MKVC_ERROR_NOT_SUPPORTED, ''CPU frame read is prohibited by copy policy'') else ok)"

definition check_gpu_read :: "('b, 'f) decoder \<Rightarrow> status" where
  "check_gpu_read d =
     (if dd_capacity d \<noteq> 0
      then (MKVC_ERROR_NOT_SUPPORTED, ''GPU read currently requires decoder prefetch=0'')
      else if \<not> hardware_decoder (dd_kind d)
      then (MKVC_ERROR_NOT_SUPPORTED, ''GPU read is not implemented for this decoder backend'')
      else ok)"

definition snapshot_metrics :: "('b, 'f) decoder \<Rightarrow> pipeline_metrics" where
  "snapshot_metrics d = \<lparr>pm_accepted_frames = dd_accepted_frames d,
     pm_completed_frames = dd_completed_frames d, pm_rejected_frames = 0,
     pm_queue_wait_ns = dd_queue_wait_ns d, pm_backend_time_ns = dd_backend_time_ns d,
     pm_queue_capacity = of_nat (dd_capacity d), pm_peak_queue_depth = dd_peak_queue_depth d,
     pm_hardware_pending_peak = dd_hardware_pending_peak d,
     pm_copy_path = (if dd_gpu_path_exercised d then MKVC_COPY_PATH_ZERO_COPY
       else if dd_completed_frames d = 0 then MKVC_COPY_PATH_UNKNOWN else MKVC_COPY_PATH_CPU)\<rparr>"

section \<open>Reads and close\<close>

definition hardware_pending :: "('b, 'f) decoder_ops \<Rightarrow> decoder_kind \<Rightarrow> 'b \<Rightarrow> u32" where
  "hardware_pending ops kind b = (if hardware_decoder kind then do_max_pending_observed ops b else 0)"

definition count_readback :: "('b, 'f) decoder \<Rightarrow> ('b, 'f) decoder" where
  "count_readback d = (if hardware_decoder (dd_kind d)
     then d\<lparr>dd_copy_edges := add_copy CpuReadback (dd_copy_edges d)\<rparr> else d)"

definition read_cpu_sync ::
    "('b, 'f) decoder_ops \<Rightarrow> u64 \<Rightarrow> ('b, 'f) decoder \<Rightarrow> (status \<times> 'f) call \<times> ('b, 'f) decoder" where
  "read_cpu_sync ops elapsed d =
     (case do_read ops (dd_backend d) of
        (Throws what, b) \<Rightarrow> (Throws what, d\<lparr>dd_backend := b\<rparr>)
      | (Returns (st, frame), b) \<Rightarrow>
          let d = d\<lparr>dd_backend := b, dd_backend_time_ns := dd_backend_time_ns d + elapsed,
                    dd_stages := count_sync_frame elapsed (dd_stages d),
                    dd_hardware_pending_peak := max (dd_hardware_pending_peak d)
                      (hardware_pending ops (dd_kind d) b)\<rparr>
          in (Returns (st, frame),
              if fst st = MKVC_OK
              then count_readback (d\<lparr>dd_accepted_frames := dd_accepted_frames d + 1,
                                     dd_completed_frames := dd_completed_frames d + 1\<rparr>)
              else d))"

definition read_gpu_sync ::
    "('b, 'f) decoder_ops \<Rightarrow> u64 \<Rightarrow> ('b, 'f) decoder \<Rightarrow> status call \<times> ('b, 'f) decoder" where
  "read_gpu_sync ops elapsed d =
     (case do_read_gpu ops (dd_backend d) of
        (Throws what, b) \<Rightarrow> (Throws what, d\<lparr>dd_backend := b\<rparr>)
      | (Returns st, b) \<Rightarrow>
          let d = d\<lparr>dd_backend := b, dd_backend_time_ns := dd_backend_time_ns d + elapsed,
                    dd_stages := count_sync_frame elapsed (dd_stages d)\<rparr>
          in (Returns st,
              if fst st = MKVC_OK
              then d\<lparr>dd_accepted_frames := dd_accepted_frames d + 1,
                     dd_completed_frames := dd_completed_frames d + 1,
                     dd_gpu_path_exercised := True,
                     dd_copy_edges := add_copy ZeroCopy (add_copy SharedSurface (dd_copy_edges d))\<rparr>
              else d))"

text \<open>\<^verbatim>\<open>read_prefetched\<close>, one section: the frame is moved out with success only.\<close>

definition read_prefetched ::
    "u64 \<Rightarrow> ('b, 'f) decoder \<Rightarrow> ((status \<times> 'f option) \<times> ('b, 'f) decoder) section_outcome" where
  "read_prefetched elapsed d =
     (if \<not> (dd_stop_requested d \<or> dd_queue d \<noteq> [] \<or> dd_worker_finished d) then Blocked
      else let d = d\<lparr>dd_queue_wait_ns := dd_queue_wait_ns d + elapsed\<rparr> in
           if dd_stop_requested d
           then Passed (((MKVC_ERROR_INVALID_STATE, ''decoder is closing''), None), d)
           else (case dd_queue d of
               frame # queue \<Rightarrow> Passed ((ok, Some frame),
                 d\<lparr>dd_queue := queue, dd_completed_frames := dd_completed_frames d + 1\<rparr>)
             | [] \<Rightarrow> Passed ((dd_worker_status d, None), d)))"

text \<open>\<^verbatim>\<open>stop_prefetch\<close> up to the join, and behind it.\<close>

definition stop_request :: "('b, 'f) decoder \<Rightarrow> ('b, 'f) decoder" where
  "stop_request d = (if dd_capacity d = 0 then d else d\<lparr>dd_stop_requested := True\<rparr>)"

definition clear_queue :: "('b, 'f) decoder \<Rightarrow> ('b, 'f) decoder" where
  "clear_queue d = (if dd_capacity d = 0 then d else d\<lparr>dd_queue := []\<rparr>)"

text \<open>\<^verbatim>\<open>close\<close> behind the join of the worker.\<close>

definition close_joined ::
    "('b, 'f) decoder_ops \<Rightarrow> u64 \<Rightarrow> ('b, 'f) decoder \<Rightarrow> status call \<times> ('b, 'f) decoder" where
  "close_joined ops elapsed d =
     (let d = clear_queue d in
      case do_close ops (dd_backend d) of
        (Throws what, b) \<Rightarrow> (Throws what, d\<lparr>dd_backend := b\<rparr>)
      | (Returns st, b) \<Rightarrow>
          (Returns st, d\<lparr>dd_backend := b, dd_stages := count_close elapsed (dd_stages d)\<rparr>))"

section \<open>The prefetch worker\<close>

datatype 'f prefetcher =
    PrefetchWaiting
  | PrefetchReading
  | PrefetchRead status 'f u32 \<comment> \<open>result, frame, hardware pending\<close>
  | PrefetchCaught "string option"
  | PrefetchExited

definition prefetch_wait :: "('b, 'f) decoder \<Rightarrow> 'f prefetcher section_outcome" where
  "prefetch_wait d =
     (if \<not> (dd_stop_requested d \<or> length (dd_queue d) < dd_capacity d) then Blocked
      else Passed (if dd_stop_requested d then PrefetchExited else PrefetchReading))"

definition prefetch_read ::
    "('b, 'f) decoder_ops \<Rightarrow> ('b, 'f) decoder \<Rightarrow> 'f prefetcher \<times> ('b, 'f) decoder" where
  "prefetch_read ops d =
     (case do_read ops (dd_backend d) of
        (Throws what, b) \<Rightarrow> (PrefetchCaught what, d\<lparr>dd_backend := b\<rparr>)
      | (Returns (st, frame), b) \<Rightarrow>
          (PrefetchRead st frame (hardware_pending ops (dd_kind d) b), d\<lparr>dd_backend := b\<rparr>))"

definition prefetch_store ::
    "u64 \<Rightarrow> status \<Rightarrow> 'f \<Rightarrow> u32 \<Rightarrow> ('b, 'f) decoder \<Rightarrow> 'f prefetcher \<times> ('b, 'f) decoder" where
  "prefetch_store elapsed st frame pending d =
     (let d = d\<lparr>dd_backend_time_ns := dd_backend_time_ns d + elapsed,
                dd_stages := count_worker_frame elapsed (dd_stages d),
                dd_hardware_pending_peak := max (dd_hardware_pending_peak d) pending\<rparr>
      in if dd_stop_requested d then (PrefetchExited, d)
         else if fst st = MKVC_OK
         then (PrefetchWaiting, count_readback
                (d\<lparr>dd_queue := dd_queue d @ [frame], dd_accepted_frames := dd_accepted_frames d + 1,
                   dd_peak_queue_depth := max (dd_peak_queue_depth d)
                     (of_nat (Suc (length (dd_queue d))))\<rparr>))
         else (PrefetchExited, d\<lparr>dd_worker_status := st, dd_worker_finished := True\<rparr>))"

definition prefetch_catch :: "string option \<Rightarrow> ('b, 'f) decoder \<Rightarrow> ('b, 'f) decoder" where
  "prefetch_catch what d = d\<lparr>
     dd_worker_status := (MKVC_ERROR_INTERNAL,
       case what of Some text \<Rightarrow> text | None \<Rightarrow> ''unknown decoder prefetch failure''),
     dd_worker_finished := True\<rparr>"

fun prefetch_step ::
    "('b, 'f) decoder_ops \<Rightarrow> u64 \<Rightarrow> 'f prefetcher \<Rightarrow> ('b, 'f) decoder \<Rightarrow>
     ('f prefetcher \<times> ('b, 'f) decoder) section_outcome" where
  "prefetch_step ops elapsed PrefetchWaiting d =
     (case prefetch_wait d of Blocked \<Rightarrow> Blocked | Passed w \<Rightarrow> Passed (w, d))"
| "prefetch_step ops elapsed PrefetchReading d = Passed (prefetch_read ops d)"
| "prefetch_step ops elapsed (PrefetchRead st frame pending) d =
     Passed (prefetch_store elapsed st frame pending d)"
| "prefetch_step ops elapsed (PrefetchCaught what) d = Passed (PrefetchExited, prefetch_catch what d)"
| "prefetch_step ops elapsed PrefetchExited d = Blocked"

section \<open>The system\<close>

text \<open>Readers and the closing caller take their sections in any order; the history records
  the frames delivered, in the order of the lock, and the answers without a frame.\<close>

datatype decoder_call = ReadFrame | StopRequest | CloseJoined

record ('b, 'f) decoder_system =
  ds_decoder :: "('b, 'f) decoder"
  ds_worker :: "'f prefetcher"
  ds_produced :: "'f list"
  ds_delivered :: "'f list"
  ds_ends :: "status list" \<comment> \<open>reads answered without a frame while the decoder was open\<close>

fun exited :: "'f prefetcher \<Rightarrow> bool" where
  "exited PrefetchExited = True"
| "exited _ = False"

fun call_section ::
    "('b, 'f) decoder_ops \<Rightarrow> u64 \<Rightarrow> decoder_call \<Rightarrow> ('b, 'f) decoder_system \<Rightarrow>
     ('b, 'f) decoder_system section_outcome" where
  "call_section ops elapsed ReadFrame y =
     (case read_prefetched elapsed (ds_decoder y) of
        Blocked \<Rightarrow> Blocked
      | Passed ((st, frame), d) \<Rightarrow> Passed (y\<lparr>ds_decoder := d,
          ds_delivered := ds_delivered y @ (case frame of None \<Rightarrow> [] | Some f \<Rightarrow> [f]),
          ds_ends := ds_ends y @ (if frame = None \<and> \<not> dd_stop_requested (ds_decoder y) then [st] else [])\<rparr>))"
| "call_section ops elapsed StopRequest y = Passed (y\<lparr>ds_decoder := stop_request (ds_decoder y)\<rparr>)"
| "call_section ops elapsed CloseJoined y =
     (if dd_stop_requested (ds_decoder y) \<and> exited (ds_worker y)
      then Passed (y\<lparr>ds_decoder := snd (close_joined ops elapsed (ds_decoder y))\<rparr>) else Blocked)"

text \<open>One worker step; a frame enters the history when it enters the queue.\<close>

definition worker_section ::
    "('b, 'f) decoder_ops \<Rightarrow> u64 \<Rightarrow> ('b, 'f) decoder_system \<Rightarrow> ('b, 'f) decoder_system section_outcome" where
  "worker_section ops elapsed y =
     (case prefetch_step ops elapsed (ds_worker y) (ds_decoder y) of
        Blocked \<Rightarrow> Blocked
      | Passed (w, d) \<Rightarrow> Passed (y\<lparr>ds_decoder := d, ds_worker := w,
          ds_produced := ds_produced y @ drop (length (dd_queue (ds_decoder y))) (dd_queue d)\<rparr>))"

definition initial_decoder_system :: "('b, 'f) decoder \<Rightarrow> ('b, 'f) decoder_system" where
  "initial_decoder_system d = \<lparr>ds_decoder = d, ds_worker = PrefetchWaiting, ds_produced = [],
     ds_delivered = [], ds_ends = []\<rparr>"

inductive decoder_reaches ::
    "('b, 'f) decoder_ops \<Rightarrow> ('b, 'f) decoder_system \<Rightarrow> ('b, 'f) decoder_system \<Rightarrow> bool"
  for ops :: "('b, 'f) decoder_ops" and y0 :: "('b, 'f) decoder_system" where
  Start: "decoder_reaches ops y0 y0"
| CallStep: "decoder_reaches ops y0 y \<Longrightarrow> call_section ops elapsed call y = Passed y' \<Longrightarrow>
    decoder_reaches ops y0 y'"
| WorkerStep: "decoder_reaches ops y0 y \<Longrightarrow> worker_section ops elapsed y = Passed y' \<Longrightarrow>
    decoder_reaches ops y0 y'"

section \<open>The sequential stream\<close>

fun read_frames :: "('b, 'f) decoder_ops \<Rightarrow> nat \<Rightarrow> 'b \<Rightarrow> ('f list \<times> 'b) option" where
  "read_frames ops 0 b = Some ([], b)"
| "read_frames ops (Suc n) b =
     (case read_frames ops n b of
        None \<Rightarrow> None
      | Some (frames, b) \<Rightarrow>
          (case do_read ops b of
             (Returns (st, frame), b') \<Rightarrow>
               if fst st = MKVC_OK then Some (frames @ [frame], b') else None
           | (Throws what, b') \<Rightarrow> None))"

text \<open>The status a decoder that stands at \<open>b\<close> ends the stream with.\<close>

definition stream_end :: "('b, 'f) decoder_ops \<Rightarrow> 'b \<Rightarrow> status \<Rightarrow> bool" where
  "stream_end ops b st =
     (case do_read ops b of
        (Returns (st', frame), b') \<Rightarrow> st = st' \<and> fst st \<noteq> MKVC_OK
      | (Throws what, b') \<Rightarrow> st = (MKVC_ERROR_INTERNAL,
          case what of Some text \<Rightarrow> text | None \<Rightarrow> ''unknown decoder prefetch failure''))"

section \<open>Invariant\<close>

definition queue_part :: "('b, 'f) decoder_system \<Rightarrow> bool" where
  "queue_part y \<longleftrightarrow> (let d = ds_decoder y in
     length (dd_queue d) \<le> dd_capacity d \<and>
     (\<not> dd_stop_requested d \<longrightarrow>
        (case ds_worker y of PrefetchReading \<Rightarrow> length (dd_queue d) < dd_capacity d
         | PrefetchRead st frame pending \<Rightarrow> length (dd_queue d) < dd_capacity d | _ \<Rightarrow> True)) \<and>
     (\<exists>rest. ds_produced y = ds_delivered y @ rest \<and> length rest \<le> dd_capacity d \<and>
        (\<not> dd_stop_requested d \<longrightarrow> rest = dd_queue d)))"

definition stream_part :: "('b, 'f) decoder_ops \<Rightarrow> 'b \<Rightarrow> ('b, 'f) decoder_system \<Rightarrow> bool" where
  "stream_part ops b0 y \<longleftrightarrow> (let d = ds_decoder y in
     \<exists>b. read_frames ops (length (ds_produced y)) b0 = Some (ds_produced y, b) \<and>
       (case ds_worker y of
          PrefetchWaiting \<Rightarrow> dd_backend d = b
        | PrefetchReading \<Rightarrow> dd_backend d = b
        | PrefetchRead st frame pending \<Rightarrow> do_read ops b = (Returns (st, frame), dd_backend d)
        | PrefetchCaught what \<Rightarrow> (\<exists>b'. do_read ops b = (Throws what, b'))
        | PrefetchExited \<Rightarrow> dd_worker_finished d \<longrightarrow> stream_end ops b (dd_worker_status d)))"

definition end_part :: "('b, 'f) decoder_system \<Rightarrow> bool" where
  "end_part y \<longleftrightarrow> (let d = ds_decoder y in
     (dd_worker_finished d \<longrightarrow> exited (ds_worker y)) \<and>
     (exited (ds_worker y) \<longrightarrow> dd_worker_finished d \<or> dd_stop_requested d) \<and>
     (\<forall>st \<in> set (ds_ends y). dd_worker_finished d \<and> st = dd_worker_status d \<and>
        ds_delivered y = ds_produced y))"

definition decoder_inv :: "('b, 'f) decoder_ops \<Rightarrow> 'b \<Rightarrow> ('b, 'f) decoder_system \<Rightarrow> bool" where
  "decoder_inv ops b0 y \<longleftrightarrow> queue_part y \<and> stream_part ops b0 y \<and> end_part y"

lemmas decoder_parts = decoder_inv_def queue_part_def stream_part_def end_part_def

lemma count_readback_fields [simp]:
  "dd_kind (count_readback d) = dd_kind d" "dd_backend (count_readback d) = dd_backend d"
  "dd_queue (count_readback d) = dd_queue d" "dd_capacity (count_readback d) = dd_capacity d"
  "dd_stop_requested (count_readback d) = dd_stop_requested d"
  "dd_worker_finished (count_readback d) = dd_worker_finished d"
  "dd_worker_status (count_readback d) = dd_worker_status d"
  by (simp_all add: count_readback_def)

lemma stream_part_cong:
  assumes "ds_produced y' = ds_produced y" "ds_worker y' = ds_worker y"
    "dd_backend (ds_decoder y') = dd_backend (ds_decoder y)"
    "dd_worker_finished (ds_decoder y') = dd_worker_finished (ds_decoder y)"
    "dd_worker_status (ds_decoder y') = dd_worker_status (ds_decoder y)"
  shows "stream_part ops b0 y' = stream_part ops b0 y"
  unfolding stream_part_def Let_def assms ..

lemma queue_part_cong:
  assumes "ds_produced y' = ds_produced y" "ds_worker y' = ds_worker y"
    "ds_delivered y' = ds_delivered y" "dd_queue (ds_decoder y') = dd_queue (ds_decoder y)"
    "dd_capacity (ds_decoder y') = dd_capacity (ds_decoder y)"
    "dd_stop_requested (ds_decoder y') = dd_stop_requested (ds_decoder y)"
  shows "queue_part y' = queue_part y"
  unfolding queue_part_def Let_def assms ..

lemma exited_iff: "exited w \<longleftrightarrow> w = PrefetchExited"
  by (cases w) simp_all

lemma stop_sections_inv:
  assumes "decoder_inv ops b0 y"
  shows "call_section ops elapsed StopRequest y = Passed y' \<Longrightarrow> decoder_inv ops b0 y'"
    "call_section ops elapsed CloseJoined y = Passed y' \<Longrightarrow> decoder_inv ops b0 y'"
proof -
  have parts: "queue_part y" "stream_part ops b0 y" "end_part y"
    using assms by (simp_all add: decoder_inv_def)
  show "decoder_inv ops b0 y'" if "call_section ops elapsed StopRequest y = Passed y'"
  proof (cases "dd_capacity (ds_decoder y) = 0")
    case True
    with that assms show ?thesis by (simp add: stop_request_def)
  next
    case False
    with that have y': "y' = y\<lparr>ds_decoder := (ds_decoder y)\<lparr>dd_stop_requested := True\<rparr>\<rparr>"
      by (simp add: stop_request_def)
    have "queue_part y'" using parts(1) unfolding y' queue_part_def Let_def by auto
    moreover have "stream_part ops b0 y'"
      using parts(2) stream_part_cong [of y' y] unfolding y' by simp
    moreover have "end_part y'" using parts(3) unfolding y' end_part_def Let_def by simp
    ultimately show ?thesis by (simp add: decoder_inv_def)
  qed
  have close: "dd_queue d = [] \<or> dd_queue d = dd_queue e" "dd_capacity d = dd_capacity e"
      "dd_stop_requested d = dd_stop_requested e" "dd_worker_finished d = dd_worker_finished e"
      "dd_worker_status d = dd_worker_status e"
    if "d = snd (close_joined ops elapsed e)" for d e
    using that by (auto simp: close_joined_def clear_queue_def Let_def split: prod.splits call.splits)
  assume c: "call_section ops elapsed CloseJoined y = Passed y'"
  then have ex: "ds_worker y = PrefetchExited" and stop: "dd_stop_requested (ds_decoder y)"
      and y': "y' = y\<lparr>ds_decoder := snd (close_joined ops elapsed (ds_decoder y))\<rparr>"
    by (auto simp: exited_iff split: if_splits)
  note cl = close [OF refl, of "ds_decoder y"]
  show "decoder_inv ops b0 y'"
    using assms ex stop cl unfolding y' by (auto simp: decoder_parts Let_def)
qed

lemma read_section_inv:
  assumes "decoder_inv ops b0 y" "call_section ops elapsed ReadFrame y = Passed y'"
  shows "decoder_inv ops b0 y'"
proof -
  let ?d = "ds_decoder y"
  let ?e = "?d\<lparr>dd_queue_wait_ns := dd_queue_wait_ns ?d + elapsed\<rparr>"
  consider (Stop) "dd_stop_requested ?d" "y' = y\<lparr>ds_decoder := ?e\<rparr>"
    | (Frame) f q where "\<not> dd_stop_requested ?d" "dd_queue ?d = f # q"
        "y' = y\<lparr>ds_decoder := ?e\<lparr>dd_queue := q, dd_completed_frames := dd_completed_frames ?d + 1\<rparr>,
               ds_delivered := ds_delivered y @ [f]\<rparr>"
    | (End) "\<not> dd_stop_requested ?d" "dd_queue ?d = []" "dd_worker_finished ?d"
        "y' = y\<lparr>ds_decoder := ?e, ds_ends := ds_ends y @ [dd_worker_status ?d]\<rparr>"
  proof (cases "dd_stop_requested ?d")
    case True
    with assms(2) show thesis by (intro Stop) (auto simp: read_prefetched_def Let_def)
  next
    case False
    with assms(2) show thesis using Frame End
      by (cases "dd_queue ?d") (auto simp: read_prefetched_def Let_def split: if_splits)
  qed
  then show ?thesis
  proof cases
    case Stop
    then show ?thesis
      using assms(1) queue_part_cong [of y' y] stream_part_cong [of y' y]
      by (simp add: decoder_inv_def end_part_def Let_def)
  next
    case (Frame f q)
    have parts: "queue_part y" "stream_part ops b0 y" "end_part y"
      using assms(1) by (simp_all add: decoder_inv_def)
    have "queue_part y'"
      using parts(1) Frame(1,2) unfolding Frame(3) queue_part_def Let_def
      by (cases "ds_worker y") auto
    moreover have "stream_part ops b0 y'"
      using parts(2) stream_part_cong [of y' y] unfolding Frame(3) by simp
    moreover have "ds_ends y = []"
    proof (rule ccontr)
      assume "ds_ends y \<noteq> []"
      then have "ds_delivered y = ds_produced y"
        using parts(3) by (auto simp: end_part_def Let_def neq_Nil_conv)
      then show False using parts(1) Frame(1,2) by (simp add: queue_part_def Let_def)
    qed
    then have "end_part y'" using parts(3) unfolding Frame(3) end_part_def Let_def by simp
    ultimately show ?thesis by (simp add: decoder_inv_def)
  next
    case End
    have parts: "queue_part y" "stream_part ops b0 y" "end_part y"
      using assms(1) by (simp_all add: decoder_inv_def)
    have all: "ds_delivered y = ds_produced y"
      using parts(1) End(1,2) by (simp add: queue_part_def Let_def)
    have "queue_part y'" using parts(1) queue_part_cong [of y' y] unfolding End(4) by simp
    moreover have "stream_part ops b0 y'"
      using parts(2) stream_part_cong [of y' y] unfolding End(4) by simp
    moreover have "end_part y'" using parts(3) End(3) all unfolding End(4) end_part_def Let_def by simp
    ultimately show ?thesis by (simp add: decoder_inv_def)
  qed
qed

lemma worker_section_inv:
  assumes "decoder_inv ops b0 y" "worker_section ops elapsed y = Passed y'"
  shows "decoder_inv ops b0 y'"
proof (cases "ds_worker y")
  case PrefetchWaiting
  then show ?thesis using assms
    by (auto simp: decoder_parts worker_section_def prefetch_wait_def Let_def split: if_splits)
next
  case PrefetchReading
  obtain r b where "do_read ops (dd_backend (ds_decoder y)) = (r, b)" by force
  then show ?thesis using assms PrefetchReading
    by (cases r) (auto simp: decoder_parts worker_section_def prefetch_read_def Let_def)
next
  case (PrefetchRead st frame pending)
  let ?d = "ds_decoder y"
  consider (Stop) "dd_stop_requested ?d" | (Push) "\<not> dd_stop_requested ?d" "fst st = MKVC_OK"
    | (End) "\<not> dd_stop_requested ?d" "fst st \<noteq> MKVC_OK" by blast
  then show ?thesis
    using assms PrefetchRead
    by cases (auto simp: decoder_parts worker_section_def prefetch_store_def Let_def stream_end_def)
next
  case (PrefetchCaught what)
  then show ?thesis using assms
    by (auto simp: decoder_parts worker_section_def prefetch_catch_def Let_def stream_end_def)
next
  case PrefetchExited
  then show ?thesis using assms(2) by (simp add: worker_section_def)
qed

lemma decoder_inv_reaches:
  assumes "decoder_reaches ops (initial_decoder_system (new_decoder kind b info prefetch)) y"
  shows "decoder_inv ops b y"
  using assms
proof induction
  case Start
  show ?case by (simp add: decoder_parts initial_decoder_system_def new_decoder_def Let_def)
next
  case (CallStep y elapsed call y')
  show ?case
  proof (cases call)
    case ReadFrame
    with CallStep show ?thesis by (blast intro: read_section_inv)
  next
    case StopRequest
    with CallStep show ?thesis by (blast intro: stop_sections_inv(1))
  next
    case CloseJoined
    with CallStep show ?thesis by (blast intro: stop_sections_inv(2))
  qed
next
  case (WorkerStep y elapsed y')
  show ?case by (rule worker_section_inv [OF WorkerStep.IH WorkerStep.hyps(2)])
qed

section \<open>Consequences\<close>

lemma decoder_queue_bound:
  assumes "decoder_inv ops b0 y"
  shows "length (dd_queue (ds_decoder y)) \<le> dd_capacity (ds_decoder y)"
  using assms by (simp add: decoder_parts Let_def)

lemma capacity_constant:
  "call_section ops elapsed call y = Passed y' \<Longrightarrow>
     dd_capacity (ds_decoder y') = dd_capacity (ds_decoder y)"
  "worker_section ops elapsed y = Passed y' \<Longrightarrow>
     dd_capacity (ds_decoder y') = dd_capacity (ds_decoder y)"
proof -
  show "call_section ops elapsed call y = Passed y' \<Longrightarrow>
     dd_capacity (ds_decoder y') = dd_capacity (ds_decoder y)"
    by (cases call)
      (auto simp: read_prefetched_def stop_request_def close_joined_def clear_queue_def Let_def
        split: if_splits list.splits section_outcome.splits prod.splits call.splits)
  have "prefetch_step ops elapsed w d = Passed (w', d') \<Longrightarrow> dd_capacity d' = dd_capacity d" for w d w' d'
    by (cases w) (auto simp: prefetch_read_def prefetch_store_def prefetch_catch_def Let_def
        split: if_splits section_outcome.splits prod.splits call.splits)
  then show "worker_section ops elapsed y = Passed y' \<Longrightarrow>
     dd_capacity (ds_decoder y') = dd_capacity (ds_decoder y)"
    by (auto simp: worker_section_def split: section_outcome.splits prod.splits)
qed

lemma capacity_reaches:
  "decoder_reaches ops (initial_decoder_system (new_decoder kind b info prefetch)) y \<Longrightarrow>
     dd_capacity (ds_decoder y) = unat prefetch"
  by (induction rule: decoder_reaches.induct)
    (simp_all add: capacity_constant initial_decoder_system_def new_decoder_def)

lemma prefetch_progress:
  assumes "decoder_inv ops b0 y" "0 < dd_capacity (ds_decoder y)"
  shows "worker_section ops elapsed y \<noteq> Blocked \<or> read_prefetched elapsed (ds_decoder y) \<noteq> Blocked"
proof (cases "ds_worker y")
  case PrefetchWaiting
  then show ?thesis using assms(2)
    by (cases "dd_queue (ds_decoder y)")
      (auto simp: worker_section_def prefetch_wait_def read_prefetched_def Let_def)
next
  case PrefetchReading
  then show ?thesis by (simp add: worker_section_def split: prod.split)
next
  case (PrefetchRead st frame pending)
  then show ?thesis by (simp add: worker_section_def split: prod.split)
next
  case (PrefetchCaught what)
  then show ?thesis by (simp add: worker_section_def)
next
  case PrefetchExited
  then have "dd_worker_finished (ds_decoder y) \<or> dd_stop_requested (ds_decoder y)"
    using assms(1) by (simp add: decoder_inv_def end_part_def Let_def)
  then show ?thesis by (auto simp: read_prefetched_def Let_def split: list.splits)
qed

text \<open>The worker alone, for at most \<open>n\<close> steps.\<close>

fun prefetch_run ::
    "('b, 'f) decoder_ops \<Rightarrow> u64 \<Rightarrow> nat \<Rightarrow> 'f prefetcher \<Rightarrow> ('b, 'f) decoder \<Rightarrow> 'f prefetcher \<times> ('b, 'f) decoder" where
  "prefetch_run ops elapsed 0 w d = (w, d)"
| "prefetch_run ops elapsed (Suc n) w d =
     (case prefetch_step ops elapsed w d of
        Blocked \<Rightarrow> (w, d) | Passed (w', d') \<Rightarrow> prefetch_run ops elapsed n w' d')"

lemma prefetch_run_exited [simp]: "prefetch_run ops elapsed n PrefetchExited d = (PrefetchExited, d)"
  by (cases n) simp_all

lemma stopped_worker_exits:
  assumes "dd_stop_requested d"
  shows "fst (prefetch_run ops elapsed 2 w d) = PrefetchExited"
proof -
  have two: "(2 :: nat) = Suc (Suc 0)" by simp
  have store: "\<exists>e'. prefetch_store elapsed st f p e = (PrefetchExited, e')"
    if "dd_stop_requested e" for st f p e
    using that by (simp add: prefetch_store_def Let_def)
  show ?thesis
  proof (cases w)
    case PrefetchReading
    obtain r b where read: "do_read ops (dd_backend d) = (r, b)" by force
    show ?thesis
    proof (cases r)
      case (Throws what)
      then show ?thesis using PrefetchReading read by (simp add: two prefetch_read_def)
    next
      case (Returns x)
      obtain st f where x: "x = (st, f)" by (cases x)
      have "dd_stop_requested (d\<lparr>dd_backend := b\<rparr>)" using assms by simp
      then obtain e' where "prefetch_store elapsed st f (hardware_pending ops (dd_kind d) b)
          (d\<lparr>dd_backend := b\<rparr>) = (PrefetchExited, e')"
        using store [of "d\<lparr>dd_backend := b\<rparr>" st f] by blast
      then show ?thesis using PrefetchReading Returns read x by (simp add: two prefetch_read_def)
    qed
  next
    case (PrefetchRead st f p)
    obtain e' where "prefetch_store elapsed st f p d = (PrefetchExited, e')"
      using store [OF assms] by blast
    then show ?thesis using PrefetchRead by (simp add: two)
  qed (use assms in \<open>simp_all add: two prefetch_wait_def\<close>)
qed

section \<open>An execution\<close>

text \<open>A decoder that yields 10 and 11 and then the end of the stream.\<close>

definition counting_ops :: "(nat, nat) decoder_ops" where
  "counting_ops = \<lparr>do_read = (\<lambda>n. if n < 2 then (Returns (ok, 10 + n), n + 1)
       else (Returns ((MKVC_END_OF_STREAM, []), 0), n)),
     do_read_gpu = (\<lambda>n. (Returns (MKVC_ERROR_NOT_SUPPORTED, []), n)),
     do_close = (\<lambda>n. (Returns ok, n)), do_max_pending_observed = (\<lambda>_. 0)\<rparr>"

datatype decoder_choice = RunWorker u64 | RunCall decoder_call u64

fun decoder_schedule ::
    "('b, 'f) decoder_ops \<Rightarrow> decoder_choice list \<Rightarrow> ('b, 'f) decoder_system \<Rightarrow> ('b, 'f) decoder_system option" where
  "decoder_schedule ops [] y = Some y"
| "decoder_schedule ops (RunWorker elapsed # cs) y =
     (case worker_section ops elapsed y of Blocked \<Rightarrow> None | Passed y' \<Rightarrow> decoder_schedule ops cs y')"
| "decoder_schedule ops (RunCall call elapsed # cs) y =
     (case call_section ops elapsed call y of Blocked \<Rightarrow> None | Passed y' \<Rightarrow> decoder_schedule ops cs y')"

lemma decoder_schedule_reaches:
  "decoder_schedule ops cs y = Some y' \<Longrightarrow> decoder_reaches ops y0 y \<Longrightarrow> decoder_reaches ops y0 y'"
proof (induction ops cs y rule: decoder_schedule.induct)
  case (2 ops elapsed cs y)
  then show ?case by (cases "worker_section ops elapsed y") (auto intro: decoder_reaches.WorkerStep)
next
  case (3 ops call elapsed cs y)
  then show ?case by (cases "call_section ops elapsed call y") (auto intro: decoder_reaches.CallStep)
qed simp

definition no_video :: video_info where
  "no_video = \<lparr>vi_struct_size = 64, vi_struct_version = 1, vi_codec = 1, vi_width = 2, vi_height = 2,
     vi_fps_num = 30, vi_fps_den = 1, vi_duration_ns = 0, vi_frame_count = 2, vi_fps_known = 1,
     vi_duration_known = 0, vi_frame_count_known = 1\<rparr>"

definition sample_prefetch :: "(nat, nat) decoder_system" where
  "sample_prefetch = (case decoder_schedule counting_ops
     ([RunWorker 1, RunWorker 1, RunWorker 1, RunCall ReadFrame 1] @ replicate 6 (RunWorker 1) @
      [RunCall ReadFrame 1, RunCall ReadFrame 1])
     (initial_decoder_system (new_decoder CpuVp9 0 no_video 2)) of
     Some y \<Rightarrow> y | None \<Rightarrow> initial_decoder_system (new_decoder CpuVp9 0 no_video 2))"

lemma sample_prefetch_reaches:
  "decoder_reaches counting_ops (initial_decoder_system (new_decoder CpuVp9 0 no_video 2)) sample_prefetch"
proof -
  let ?y0 = "initial_decoder_system (new_decoder CpuVp9 0 no_video 2) :: (nat, nat) decoder_system"
  let ?cs = "[RunWorker 1, RunWorker 1, RunWorker 1, RunCall ReadFrame 1] @ replicate 6 (RunWorker 1) @
      [RunCall ReadFrame 1, RunCall ReadFrame 1]"
  have "decoder_schedule counting_ops ?cs ?y0 \<noteq> None" by code_simp
  then have "decoder_schedule counting_ops ?cs ?y0 = Some sample_prefetch"
    unfolding sample_prefetch_def by (auto split: option.split)
  then show ?thesis by (rule decoder_schedule_reaches) (rule decoder_reaches.Start)
qed

section \<open>Properties\<close>

text \<open>C15. Readers of a prefetching decoder receive exactly the frames the decoder would yield
  one by one, in order and without gaps, with at most the configured number read ahead; and a
  read is answered without a frame only behind the last frame, with the status that ended the
  stream.\<close>

theorem prefetch_delivers_stream:
  assumes "decoder_reaches ops (initial_decoder_system (new_decoder kind b info prefetch)) y"
  shows "\<exists>ahead b'. length ahead \<le> unat prefetch \<and>
    read_frames ops (length (ds_delivered y @ ahead)) b = Some (ds_delivered y @ ahead, b') \<and>
    (\<forall>st \<in> set (ds_ends y). ahead = [] \<and> stream_end ops b' st)"
proof -
  note inv = decoder_inv_reaches [OF assms, unfolded decoder_inv_def]
  obtain ahead where a: "ds_produced y = ds_delivered y @ ahead" "length ahead \<le> unat prefetch"
    using inv capacity_reaches [OF assms] by (auto simp: queue_part_def Let_def)
  obtain b' where b': "read_frames ops (length (ds_produced y)) b = Some (ds_produced y, b')"
      "exited (ds_worker y) \<and> dd_worker_finished (ds_decoder y) \<longrightarrow>
        stream_end ops b' (dd_worker_status (ds_decoder y))"
    using inv unfolding stream_part_def Let_def exited_iff by (cases "ds_worker y") auto
  have "\<forall>st \<in> set (ds_ends y). ahead = [] \<and> stream_end ops b' st"
    using inv a(1) b'(2) by (auto simp: end_part_def Let_def)
  then show ?thesis using a b'(1) by auto
qed

theorem prefetch_delivers_stream_witness:
  "\<exists>ahead b'. length ahead \<le> unat (2 :: u32) \<and>
    read_frames counting_ops (length (ds_delivered sample_prefetch @ ahead)) 0 =
      Some (ds_delivered sample_prefetch @ ahead, b') \<and>
    (\<forall>st \<in> set (ds_ends sample_prefetch). ahead = [] \<and> stream_end counting_ops b' st)"
  by (rule prefetch_delivers_stream [OF sample_prefetch_reaches])

text \<open>C16. A prefetching decoder never deadlocks: in every reachable state the worker can move or a
  reader can, and the queue stays within its bound.\<close>

theorem prefetch_never_deadlocks:
  assumes "decoder_reaches ops (initial_decoder_system (new_decoder kind b info prefetch)) y"
    and "0 < prefetch"
  shows "length (dd_queue (ds_decoder y)) \<le> unat prefetch \<and>
    (worker_section ops elapsed y \<noteq> Blocked \<or> call_section ops elapsed ReadFrame y \<noteq> Blocked)"
proof -
  note inv = decoder_inv_reaches [OF assms(1)] and cap = capacity_reaches [OF assms(1)]
  have "0 < dd_capacity (ds_decoder y)" using assms(2) cap by (simp add: word_less_nat_alt)
  from prefetch_progress [OF inv this, of elapsed] have
    "worker_section ops elapsed y \<noteq> Blocked \<or> call_section ops elapsed ReadFrame y \<noteq> Blocked"
    by (auto split: section_outcome.split prod.split)
  then show ?thesis using decoder_queue_bound [OF inv] cap by simp
qed

theorem prefetch_never_deadlocks_witness:
  "length (dd_queue (ds_decoder sample_prefetch)) \<le> unat (2 :: u32) \<and>
    \<not> (worker_section counting_ops 1 sample_prefetch = Blocked \<and>
       call_section counting_ops 1 ReadFrame sample_prefetch = Blocked)"
  using prefetch_never_deadlocks [OF sample_prefetch_reaches, of 1] by simp

text \<open>C17. Closing ends the prefetch worker: behind the stop request it exits within two of its
  steps, from wherever it stood, and every read is then answered.\<close>

theorem stop_ends_prefetch:
  assumes "0 < dd_capacity d"
  shows "fst (prefetch_run ops elapsed 2 w (stop_request d)) = PrefetchExited \<and>
    read_prefetched elapsed (stop_request d) \<noteq> Blocked"
proof -
  have stop: "dd_stop_requested (stop_request d)" using assms by (simp add: stop_request_def)
  then show ?thesis using stopped_worker_exits [OF stop] by (simp add: read_prefetched_def Let_def)
qed

theorem stop_ends_prefetch_witness:
  "fst (prefetch_run counting_ops 1 2 PrefetchReading (stop_request (ds_decoder sample_prefetch))) =
      PrefetchExited \<and>
    read_prefetched 1 (stop_request (ds_decoder sample_prefetch)) \<noteq> Blocked"
  by (rule stop_ends_prefetch) code_simp

end
