(* ===== verification/FrameProcess.thy ===== *)
theory FrameProcess
  imports Decoder CpuFrame
begin

text \<open>
  Processing of decoded frames on the CPU: the I420 helpers of src/frame_processor_i420.cpp and the
  plan of src/frame_processor.cpp (crop, rotation, flips, resize with stretch, contain or cover).
  libyuv is a parameter: each call is given what it may read, plane by plane without padding, and
  answers a code and the planes it writes. A read or write outside a frame's pixels is undefined
  in C++ and is the outcome \<open>None\<close>; \<open>Some None\<close> is a null frame. Frames of which no allocation
  succeeds are not modelled (the vector throws).
\<close>

section \<open>Regions of a pixel buffer\<close>

definition region_inside :: "bytes \<Rightarrow> nat \<Rightarrow> nat \<Rightarrow> nat \<Rightarrow> nat \<Rightarrow> bool" where
  "region_inside mem base stride w h \<longleftrightarrow> w = 0 \<or> h = 0 \<or> base + (h - 1) * stride + w \<le> length mem"

definition read_region :: "bytes \<Rightarrow> nat \<Rightarrow> nat \<Rightarrow> nat \<Rightarrow> nat \<Rightarrow> bytes option" where
  "read_region mem base stride w h =
     (if region_inside mem base stride w h then Some (packed_rows (drop base mem) stride w h) else None)"

definition write_row :: "nat \<Rightarrow> nat \<Rightarrow> nat \<Rightarrow> bytes \<Rightarrow> nat \<Rightarrow> bytes \<Rightarrow> bytes" where
  "write_row base stride w bs row mem =
     take (base + row * stride) mem @ take w (drop (row * w) bs) @ drop (base + row * stride + w) mem"

definition write_region :: "bytes \<Rightarrow> nat \<Rightarrow> nat \<Rightarrow> nat \<Rightarrow> nat \<Rightarrow> bytes \<Rightarrow> bytes option" where
  "write_region mem base stride w h bs =
     (if region_inside mem base stride w h \<and> length bs = w * h
      then Some (fold (write_row base stride w bs) [0..<h] mem) else None)"

section \<open>Frames\<close>

type_synonym yuv_planes = "bytes \<times> bytes \<times> bytes"

definition even_nonzero :: "u32 \<Rightarrow> bool" where
  "even_nonzero v \<longleftrightarrow> v \<noteq> 0 \<and> v AND 1 = 0"

definition even_floor :: "u64 \<Rightarrow> u32" where
  "even_floor v = ucast (v AND NOT 1)"

definition allocate_i420 :: "u32 \<Rightarrow> u32 \<Rightarrow> i64 \<Rightarrow> decoded_frame option" where
  "allocate_i420 width height pts_ns =
     (if \<not> even_nonzero width \<or> \<not> even_nonzero height \<or> width > 0x7FFFFFFF \<or> height > 0x7FFFFFFF
      then None
      else let y_size = unat width * unat height;
               uv_size = unat (width div 2) * unat (height div 2)
      in if y_size > 18446744073709551615 - 2 * uv_size then None
         else Some \<lparr>df_width = width, df_height = height, df_pts_ns = pts_ns,
           df_pixels = replicate (y_size + 2 * uv_size) 0,
           df_offsets = [0, y_size, y_size + uv_size],
           df_strides = [width, width div 2, width div 2]\<rparr>)"

text \<open>The three plane pointers of a rectangle: luma at (x, y), chroma at half of it. The row
  products are 32-bit, as in the code.\<close>

definition plane_base :: "decoded_frame \<Rightarrow> nat \<Rightarrow> u32 \<Rightarrow> u32 \<Rightarrow> nat" where
  "plane_base f k x y = df_offsets f ! k + unat (y * df_strides f ! k) + unat x"

definition chroma :: "u32 \<Rightarrow> nat" where
  "chroma n = (unat n + 1) div 2"

definition read_i420 :: "decoded_frame \<Rightarrow> u32 \<Rightarrow> u32 \<Rightarrow> u32 \<Rightarrow> u32 \<Rightarrow> yuv_planes option" where
  "read_i420 f x y w h =
     (case read_region (df_pixels f) (plane_base f 0 x y) (unat (df_strides f ! 0)) (unat w) (unat h) of
        None \<Rightarrow> None
      | Some luma \<Rightarrow>
     (case read_region (df_pixels f) (plane_base f 1 (x div 2) (y div 2)) (unat (df_strides f ! 1)) (chroma w) (chroma h) of
        None \<Rightarrow> None
      | Some u \<Rightarrow>
     (case read_region (df_pixels f) (plane_base f 2 (x div 2) (y div 2)) (unat (df_strides f ! 2)) (chroma w) (chroma h) of
        None \<Rightarrow> None
      | Some v \<Rightarrow> Some (luma, u, v))))"

definition write_i420 :: "decoded_frame \<Rightarrow> u32 \<Rightarrow> u32 \<Rightarrow> u32 \<Rightarrow> u32 \<Rightarrow> yuv_planes \<Rightarrow> decoded_frame option" where
  "write_i420 f x y w h planes = (case planes of (luma, u, v) \<Rightarrow>
     (case write_region (df_pixels f) (plane_base f 0 x y) (unat (df_strides f ! 0)) (unat w) (unat h) luma of
        None \<Rightarrow> None
      | Some p0 \<Rightarrow>
     (case write_region p0 (plane_base f 1 (x div 2) (y div 2)) (unat (df_strides f ! 1)) (chroma w) (chroma h) u of
        None \<Rightarrow> None
      | Some p1 \<Rightarrow>
     (case write_region p1 (plane_base f 2 (x div 2) (y div 2)) (unat (df_strides f ! 2)) (chroma w) (chroma h) v of
        None \<Rightarrow> None
      | Some p2 \<Rightarrow> Some (f\<lparr>df_pixels := p2\<rparr>)))))"

section \<open>libyuv\<close>

text \<open>The planes read, the sizes given, and the return code with the planes written.\<close>

record i420_lib =
  lib_copy :: "yuv_planes \<Rightarrow> u32 \<Rightarrow> u32 \<Rightarrow> int \<times> yuv_planes"
  lib_rotate :: "yuv_planes \<Rightarrow> u32 \<Rightarrow> u32 \<Rightarrow> u32 \<Rightarrow> int \<times> yuv_planes" \<comment> \<open>last the degrees\<close>
  lib_mirror :: "yuv_planes \<Rightarrow> u32 \<Rightarrow> u32 \<Rightarrow> int \<times> yuv_planes"
  lib_scale :: "yuv_planes \<Rightarrow> u32 \<Rightarrow> u32 \<Rightarrow> u32 \<Rightarrow> u32 \<Rightarrow> int \<times> yuv_planes" \<comment> \<open>target last\<close>
  lib_set_plane :: "u32 \<Rightarrow> u32 \<Rightarrow> u8 \<Rightarrow> bytes"

section \<open>The helpers\<close>

definition copy_i420 ::
    "i420_lib \<Rightarrow> decoded_frame \<Rightarrow> decoded_frame \<Rightarrow> u32 \<Rightarrow> u32 \<Rightarrow> u32 \<Rightarrow> u32 \<Rightarrow> (int \<times> decoded_frame) option" where
  "copy_i420 lib source destination src_x src_y dst_x dst_y =
     (let width = min (df_width source - src_x) (df_width destination - dst_x);
          height = min (df_height source - src_y) (df_height destination - dst_y)
      in case read_i420 source src_x src_y width height of
           None \<Rightarrow> None
         | Some planes \<Rightarrow>
             (case lib_copy lib planes width height of (rc, written) \<Rightarrow>
                if rc \<noteq> 0 then Some (rc, destination)
                else map_option (Pair rc) (write_i420 destination dst_x dst_y width height written)))"

definition crop_frame ::
    "i420_lib \<Rightarrow> decoded_frame \<Rightarrow> u32 \<Rightarrow> u32 \<Rightarrow> u32 \<Rightarrow> u32 \<Rightarrow> decoded_frame option option" where
  "crop_frame lib source x y width height =
     (case allocate_i420 width height (df_pts_ns source) of
        None \<Rightarrow> Some None
      | Some result \<Rightarrow>
          (case copy_i420 lib source result x y 0 0 of
             None \<Rightarrow> None
           | Some (rc, result') \<Rightarrow> Some (if rc \<noteq> 0 then None else Some result')))"

text \<open>The shared tail of rotation, mirror and scaling: the whole source is read and the whole
  result is written.\<close>

definition transform_frame ::
    "(yuv_planes \<Rightarrow> int \<times> yuv_planes) \<Rightarrow> decoded_frame \<Rightarrow> decoded_frame option \<Rightarrow> decoded_frame option option" where
  "transform_frame call source result =
     (case result of
        None \<Rightarrow> Some None
      | Some r \<Rightarrow>
          (case read_i420 source 0 0 (df_width source) (df_height source) of
             None \<Rightarrow> None
           | Some planes \<Rightarrow>
               (case call planes of (rc, written) \<Rightarrow>
                  if rc \<noteq> 0 then Some None
                  else map_option Some (write_i420 r 0 0 (df_width r) (df_height r) written))))"

definition rotate_frame :: "i420_lib \<Rightarrow> decoded_frame \<Rightarrow> u32 \<Rightarrow> decoded_frame option option" where
  "rotate_frame lib source rotation =
     (let swaps = rotation = 90 \<or> rotation = 270;
          mode = (if rotation = 90 \<or> rotation = 180 \<or> rotation = 270 then rotation else 0)
      in transform_frame (\<lambda>planes. lib_rotate lib planes (df_width source) (df_height source) mode) source
           (allocate_i420 (if swaps then df_height source else df_width source)
              (if swaps then df_width source else df_height source) (df_pts_ns source)))"

definition mirror_frame :: "i420_lib \<Rightarrow> decoded_frame \<Rightarrow> decoded_frame option option" where
  "mirror_frame lib source =
     transform_frame (\<lambda>planes. lib_mirror lib planes (df_width source) (df_height source)) source
       (allocate_i420 (df_width source) (df_height source) (df_pts_ns source))"

definition scale_frame :: "i420_lib \<Rightarrow> decoded_frame \<Rightarrow> u32 \<Rightarrow> u32 \<Rightarrow> decoded_frame option option" where
  "scale_frame lib source width height =
     transform_frame (\<lambda>planes. lib_scale lib planes (df_width source) (df_height source) width height) source
       (allocate_i420 width height (df_pts_ns source))"

definition clamp_u8 :: "int \<Rightarrow> u8" where
  "clamp_u8 v = word_of_int (max 0 (min 255 v))"

definition background_yuv :: "u32 \<Rightarrow> u8 \<times> u8 \<times> u8" where
  "background_yuv rgba =
     (let r = uint (drop_bit 24 rgba AND 0xFF); g = uint (drop_bit 16 rgba AND 0xFF);
          b = uint (drop_bit 8 rgba AND 0xFF)
      in (clamp_u8 ((66 * r + 129 * g + 25 * b + 128) div 256 + 16),
          clamp_u8 ((- 38 * r - 74 * g + 112 * b + 128) div 256 + 128),
          clamp_u8 ((112 * r - 94 * g - 18 * b + 128) div 256 + 128)))"

definition fill_background :: "i420_lib \<Rightarrow> decoded_frame \<Rightarrow> u32 \<Rightarrow> decoded_frame option" where
  "fill_background lib f rgba = (case background_yuv rgba of (y, u, v) \<Rightarrow>
     write_i420 f 0 0 (df_width f) (df_height f)
       (lib_set_plane lib (df_width f) (df_height f) y,
        lib_set_plane lib (df_width f div 2) (df_height f div 2) u,
        lib_set_plane lib (df_width f div 2) (df_height f div 2) v))"

section \<open>The plan\<close>

record frame_process_config =
  pr_struct_size :: u32
  pr_struct_version :: u32
  pr_backend :: u32
  pr_crop_x :: u32
  pr_crop_y :: u32
  pr_crop_width :: u32
  pr_crop_height :: u32
  pr_output_width :: u32
  pr_output_height :: u32
  pr_fit :: u32
  pr_rotation :: u32
  pr_flip_horizontal :: u8
  pr_flip_vertical :: u8
  pr_background_rgba :: u32

definition plan_crop :: "decoded_frame \<Rightarrow> frame_process_config \<Rightarrow> u32 \<times> u32" where
  "plan_crop source config =
     (if pr_crop_width config = 0 then df_width source else pr_crop_width config,
      if pr_crop_height config = 0 then df_height source else pr_crop_height config)"

definition crop_invalid :: "decoded_frame \<Rightarrow> frame_process_config \<Rightarrow> bool" where
  "crop_invalid source config = (case plan_crop source config of (crop_width, crop_height) \<Rightarrow>
     \<not> even_nonzero crop_width \<or> \<not> even_nonzero crop_height \<or>
     pr_crop_x config AND 1 \<noteq> 0 \<or> pr_crop_y config AND 1 \<noteq> 0 \<or>
     pr_crop_x config > df_width source - min (df_width source) crop_width \<or>
     pr_crop_y config > df_height source - min (df_height source) crop_height \<or>
     crop_width > df_width source - pr_crop_x config \<or>
     crop_height > df_height source - pr_crop_y config)"

text \<open>A stage that makes the next frame or fails with its message.\<close>

definition stage ::
    "string \<Rightarrow> decoded_frame option option \<Rightarrow> (decoded_frame \<Rightarrow> (status \<times> decoded_frame option) option) \<Rightarrow>
     (status \<times> decoded_frame option) option" where
  "stage message made continue =
     (case made of
        None \<Rightarrow> None
      | Some None \<Rightarrow> Some ((MKVC_ERROR_INTERNAL, message), None)
      | Some (Some f) \<Rightarrow> continue f)"

definition flip_vertically :: "i420_lib \<Rightarrow> decoded_frame \<Rightarrow> decoded_frame option option" where
  "flip_vertically lib f =
     (case rotate_frame lib f 180 of
        None \<Rightarrow> None
      | Some None \<Rightarrow> Some None
      | Some (Some rotated) \<Rightarrow> mirror_frame lib rotated)"

definition scaled_size :: "bool \<Rightarrow> decoded_frame \<Rightarrow> u32 \<Rightarrow> u32 \<Rightarrow> u32 \<times> u32" where
  "scaled_size contain current out_width out_height =
     (let lhs = ucast out_width * ucast (df_height current) :: u64;
          rhs = ucast out_height * ucast (df_width current) :: u64;
          (scaled_width, scaled_height) =
            (if (contain \<and> lhs \<le> rhs) \<or> (\<not> contain \<and> lhs \<ge> rhs)
             then (out_width, even_floor (ucast (df_height current) * ucast out_width div ucast (df_width current)))
             else (even_floor (ucast (df_width current) * ucast out_height div ucast (df_height current)), out_height))
      in (max 2 scaled_width, max 2 scaled_height))"

text \<open>Centred in the output (contain) or cut out of its middle (cover).\<close>

definition compose_contain ::
    "i420_lib \<Rightarrow> u32 \<Rightarrow> decoded_frame \<Rightarrow> decoded_frame \<Rightarrow> (int \<times> decoded_frame) option" where
  "compose_contain lib rgba scaled output =
     (case fill_background lib output rgba of
        None \<Rightarrow> None
      | Some filled \<Rightarrow>
          copy_i420 lib scaled filled 0 0
            (even_floor (ucast ((df_width output - df_width scaled) div 2)))
            (even_floor (ucast ((df_height output - df_height scaled) div 2))))"

definition compose_cover ::
    "i420_lib \<Rightarrow> decoded_frame \<Rightarrow> decoded_frame \<Rightarrow> (int \<times> decoded_frame) option" where
  "compose_cover lib scaled output =
     copy_i420 lib scaled output
       (even_floor (ucast ((df_width scaled - df_width output) div 2)))
       (even_floor (ucast ((df_height scaled - df_height output) div 2))) 0 0"

definition resize_frame ::
    "i420_lib \<Rightarrow> frame_process_config \<Rightarrow> i64 \<Rightarrow> u32 \<Rightarrow> u32 \<Rightarrow> decoded_frame \<Rightarrow>
     (status \<times> decoded_frame option) option" where
  "resize_frame lib config pts_ns out_width out_height current =
     (let finish = (\<lambda>made. case made of
            None \<Rightarrow> None
          | Some None \<Rightarrow> Some ((MKVC_ERROR_INTERNAL, ''frame resize/composition failed''), None)
          | Some (Some f) \<Rightarrow> Some (ok, Some f))
      in if pr_fit config = MKVC_FRAME_FIT_STRETCH
         then finish (if df_width current = out_width \<and> df_height current = out_height
                then Some (Some current) else scale_frame lib current out_width out_height)
         else let contain = pr_fit config = MKVC_FRAME_FIT_CONTAIN;
                  (scaled_width, scaled_height) = scaled_size contain current out_width out_height
              in stage ''aspect-preserving resize failed'' (scale_frame lib current scaled_width scaled_height)
                   (\<lambda>scaled. stage ''output allocation failed'' (Some (allocate_i420 out_width out_height pts_ns))
                     (\<lambda>output. finish (case (if contain then compose_contain lib (pr_background_rgba config) scaled output
                                             else compose_cover lib scaled output) of
                          None \<Rightarrow> None
                        | Some (rc, f) \<Rightarrow> Some (if rc \<noteq> 0 then None else Some f)))))"

definition process_frame_cpu ::
    "i420_lib \<Rightarrow> decoded_frame \<Rightarrow> frame_process_config \<Rightarrow> (status \<times> decoded_frame option) option" where
  "process_frame_cpu lib source config =
     (if pr_backend config \<noteq> MKVC_BACKEND_CPU
      then Some ((MKVC_ERROR_NOT_SUPPORTED, ''requested GPU frame processor is not implemented''), None)
      else if pr_rotation config \<notin> {0, 90, 180, 270} \<or> pr_fit config > MKVC_FRAME_FIT_COVER
      then Some ((MKVC_ERROR_INVALID_ARGUMENT, ''invalid rotation or fit policy''), None)
      else if crop_invalid source config
      then Some ((MKVC_ERROR_INVALID_ARGUMENT,
             ''crop rectangle must be even, nonempty, and inside the frame''), None)
      else stage ''crop failed'' (crop_frame lib source (pr_crop_x config) (pr_crop_y config)
               (fst (plan_crop source config)) (snd (plan_crop source config)))
        (\<lambda>cropped. stage ''rotation failed''
             (if pr_rotation config \<noteq> 0 then rotate_frame lib cropped (pr_rotation config) else Some (Some cropped))
        (\<lambda>rotated. stage ''horizontal flip failed''
             (if pr_flip_horizontal config \<noteq> 0 then mirror_frame lib rotated else Some (Some rotated))
        (\<lambda>flipped. stage ''vertical flip failed''
             (if pr_flip_vertical config \<noteq> 0 then flip_vertically lib flipped else Some (Some flipped))
        (\<lambda>current.
           let out_width = (if pr_output_width config = 0 then df_width current else pr_output_width config);
               out_height = (if pr_output_height config = 0 then df_height current else pr_output_height config)
           in if \<not> even_nonzero out_width \<or> \<not> even_nonzero out_height
              then Some ((MKVC_ERROR_INVALID_ARGUMENT, ''output dimensions must be positive and even''), None)
              else resize_frame lib config (df_pts_ns source) out_width out_height current)))))"

end
