(* ===== verification/FrameSafety.thy ===== *)
theory FrameSafety
  imports FrameProcess
begin

text \<open>
  Facts on the frame processor: rectangles inside frames, the sizes of scaled frames, and stage by
  stage that the whole plan of \<^verbatim>\<open>process_frame_cpu\<close> stays inside its buffers and makes packed frames
  of the planned size; and that a plan that only crops is exact. What is relied on of libyuv is
  \<open>i420_lib_sized\<close>: the planes a call writes have the documented sizes.
\<close>

section \<open>Arithmetic\<close>

lemma and_not_mask_bits: "(v :: 'a :: len word) AND NOT (mask n) = push_bit n (drop_bit n v)"
  by (rule bit_word_eqI) (auto simp: bit_simps)

lemma unat_drop: "unat (drop_bit n (v :: 'a :: len word)) = unat v div 2 ^ n"
proof -
  have "take_bit LENGTH('a) (unat v) = unat v" by (rule take_bit_nat_eq_self) simp
  then show ?thesis by (simp only: unsigned_drop_bit_eq) (simp add: drop_bit_eq_div)
qed

lemma unat_push: "unat (push_bit n (v :: 'a :: len word)) = take_bit LENGTH('a) (unat v * 2 ^ n)"
  by (simp only: unsigned_push_bit_eq) (simp add: push_bit_eq_mult)

lemma unat_even: "unat ((v :: u64) AND NOT 1) = 2 * (unat v div 2)"
proof -
  have "unat v div 2 * 2 < 18446744073709551616" using u64_less [of v] by linarith
  then have "unat (push_bit 1 (drop_bit 1 v)) = unat v div 2 * 2"
    unfolding unat_push unat_drop by (simp add: take_bit_nat_eq_self)
  moreover have "v AND NOT 1 = push_bit 1 (drop_bit 1 v)" using and_not_mask_bits [of v 1] by simp
  ultimately show ?thesis by simp
qed

lemma unat_even_floor:
  assumes "unat v < 4294967296"
  shows "unat (even_floor v) = 2 * (unat v div 2)"
proof -
  have "2 * (unat v div 2) < 4294967296" using assms by linarith
  then have "take_bit 32 (unat (v AND NOT 1)) = 2 * (unat v div 2)"
    unfolding unat_even by (simp add: take_bit_nat_eq_self)
  then show ?thesis unfolding even_floor_def unsigned_ucast_eq by simp
qed

lemma region_sub:
  assumes "region_inside mem off stride w' h'" "x + w \<le> w'" "y + h \<le> h'" "b \<le> off + y * stride + x"
  shows "region_inside mem b stride w h"
proof (cases "w = 0 \<or> h = 0")
  case False
  have "w' \<noteq> 0" "h' \<noteq> 0" using False assms by auto
  then have len: "off + (h' - 1) * stride + w' \<le> length mem" using assms(1) by (simp add: region_inside_def)
  have "(y + (h - 1)) * stride \<le> (h' - 1) * stride" using False assms(3) by (intro mult_le_mono1) simp
  then have "b + (h - 1) * stride + w \<le> length mem" using len assms(2,4) by (simp add: algebra_simps)
  then show ?thesis by (simp add: region_inside_def)
qed (auto simp: region_inside_def)

lemma length_write_row:
  assumes "base + row * stride + w \<le> length mem" "(row + 1) * w \<le> length bs"
  shows "length (write_row base stride w bs row mem) = length mem"
  using assms by (simp add: write_row_def)

lemma length_write_rows:
  assumes "length bs = w * h" "base + (h - 1) * stride + w \<le> length mem"
  shows "k \<le> h \<Longrightarrow> length (fold (write_row base stride w bs) [0..<k] mem) = length mem"
proof (induction k)
  case 0
  then show ?case by simp
next
  case (Suc k)
  have "k * stride \<le> (h - 1) * stride" using Suc.prems by (intro mult_le_mono1) simp
  with assms(2) have "base + k * stride + w \<le> length mem" by linarith
  moreover have "(k + 1) * w \<le> length bs" using Suc.prems assms(1) mult_le_mono1 [of "Suc k" h w] by (simp add: mult.commute)
  ultimately show ?case using Suc by (simp add: length_write_row)
qed

lemma fold_write_empty: "fold (write_row base stride 0 bs) rows mem = mem"
  by (induction rows) (simp_all add: write_row_def)

lemma write_region_inside:
  assumes "region_inside mem base stride w h" "length bs = w * h"
  obtains mem' where "write_region mem base stride w h bs = Some mem'" "length mem' = length mem"
proof (cases "w = 0 \<or> h = 0")
  case True
  then have "fold (write_row base stride w bs) [0..<h] mem = mem" using fold_write_empty by (cases "h = 0") auto
  then show ?thesis using assms that [of mem] by (simp add: write_region_def)
next
  case False
  then have "base + (h - 1) * stride + w \<le> length mem" using assms(1) by (simp add: region_inside_def)
  from length_write_rows [OF assms(2) this, of h] assms show ?thesis
    using that [of "fold (write_row base stride w bs) [0..<h] mem"] by (simp add: write_region_def)
qed

section \<open>Frames that can be read, and the library's own\<close>

definition readable_frame :: "decoded_frame \<Rightarrow> bool" where
  "readable_frame f \<longleftrightarrow>
     region_inside (df_pixels f) (df_offsets f ! 0) (unat (df_strides f ! 0)) (unat (df_width f)) (unat (df_height f)) \<and>
     region_inside (df_pixels f) (df_offsets f ! 1) (unat (df_strides f ! 1)) (chroma (df_width f)) (chroma (df_height f)) \<and>
     region_inside (df_pixels f) (df_offsets f ! 2) (unat (df_strides f ! 2)) (chroma (df_width f)) (chroma (df_height f))"

definition packed_frame :: "decoded_frame \<Rightarrow> bool" where
  "packed_frame f \<longleftrightarrow> even_nonzero (df_width f) \<and> even_nonzero (df_height f) \<and>
     (let y_size = unat (df_width f) * unat (df_height f);
          uv_size = unat (df_width f div 2) * unat (df_height f div 2)
      in df_offsets f = [0, y_size, y_size + uv_size] \<and>
         df_strides f = [df_width f, df_width f div 2, df_width f div 2] \<and>
         length (df_pixels f) = y_size + 2 * uv_size)"

lemma even_nonzero_unat: "even_nonzero v \<longleftrightarrow> 0 < unat v \<and> even (unat v)"
  by (auto simp: even_nonzero_def even_word_iff unat_gt_0)

lemma chroma_even: "even (unat v) \<Longrightarrow> chroma v = unat (v div 2)"
  by (auto simp: chroma_def unat_div elim!: evenE)

lemma packed_readable:
  assumes "packed_frame f"
  shows "readable_frame f"
proof -
  let ?w = "unat (df_width f)" and ?h = "unat (df_height f)"
  let ?cw = "unat (df_width f div 2)" and ?ch = "unat (df_height f div 2)"
  have e: "0 < ?h" "chroma (df_width f) = ?cw" "chroma (df_height f) = ?ch"
    using assms by (auto simp: packed_frame_def even_nonzero_unat chroma_even)
  have sum: "(n - 1) * s + s = n * s" if "0 < n" for n s :: nat using that by (cases n) simp_all
  have y: "(?h - 1) * ?w + ?w = ?w * ?h" using sum [OF e(1)] by (simp add: mult.commute)
  have c: "?ch = 0 \<or> (?ch - 1) * ?cw + ?cw = ?cw * ?ch" using sum [of ?ch ?cw] by (auto simp: mult.commute)
  show ?thesis using assms e y c
    by (auto simp: readable_frame_def packed_frame_def region_inside_def Let_def)
qed

lemma allocate_packed:
  assumes "allocate_i420 w h pts = Some f"
  shows "packed_frame f \<and> df_width f = w \<and> df_height f = h \<and> df_pts_ns f = pts"
  using assms by (auto simp: allocate_i420_def packed_frame_def Let_def split: if_splits)

lemma packed_pixels:
  "packed_frame f \<Longrightarrow> length p = length (df_pixels f) \<Longrightarrow> packed_frame (f\<lparr>df_pixels := p\<rparr>)"
  by (simp add: packed_frame_def Let_def)

lemma unat_mult_le: "unat (a * b :: u32) \<le> unat a * unat b"
  by (metis mod_less_eq_dividend unat_word_ariths(2))

lemma rectangle_regions:
  assumes readable: "readable_frame f" and even: "even (unat x)" "even (unat y)"
    and inside: "unat x + unat w \<le> unat (df_width f)" "unat y + unat h \<le> unat (df_height f)"
    and len: "length p = length (df_pixels f)"
  shows "region_inside p (plane_base f 0 x y) (unat (df_strides f ! 0)) (unat w) (unat h)"
    "region_inside p (plane_base f 1 (x div 2) (y div 2)) (unat (df_strides f ! 1)) (chroma w) (chroma h)"
    "region_inside p (plane_base f 2 (x div 2) (y div 2)) (unat (df_strides f ! 2)) (chroma w) (chroma h)"
proof -
  have same: "region_inside p b s c r = region_inside (df_pixels f) b s c r" for b s c r
    using len by (simp add: region_inside_def)
  have base: "plane_base f k a b \<le> df_offsets f ! k + unat b * unat (df_strides f ! k) + unat a" for k a b
    using unat_mult_le [of b "df_strides f ! k"] by (simp add: plane_base_def)
  have half: "unat (x div 2) + chroma w \<le> chroma (df_width f)" "unat (y div 2) + chroma h \<le> chroma (df_height f)"
    using inside even by (auto simp: chroma_def unat_div elim!: evenE)
  note r = readable [unfolded readable_frame_def]
  show "region_inside p (plane_base f 0 x y) (unat (df_strides f ! 0)) (unat w) (unat h)"
    unfolding same using r inside base by (blast intro: region_sub)
  show "region_inside p (plane_base f 1 (x div 2) (y div 2)) (unat (df_strides f ! 1)) (chroma w) (chroma h)"
    unfolding same using r half base by (blast intro: region_sub)
  show "region_inside p (plane_base f 2 (x div 2) (y div 2)) (unat (df_strides f ! 2)) (chroma w) (chroma h)"
    unfolding same using r half base by (blast intro: region_sub)
qed

lemma read_rectangle:
  assumes "readable_frame f" "even (unat x)" "even (unat y)"
    "unat x + unat w \<le> unat (df_width f)" "unat y + unat h \<le> unat (df_height f)"
  obtains planes where "read_i420 f x y w h = Some planes"
  using rectangle_regions [OF assms refl] that by (simp add: read_i420_def read_region_def)

definition planes_sized :: "u32 \<Rightarrow> u32 \<Rightarrow> yuv_planes \<Rightarrow> bool" where
  "planes_sized w h planes \<longleftrightarrow> (case planes of (luma, u, v) \<Rightarrow>
     length luma = unat w * unat h \<and> length u = chroma w * chroma h \<and> length v = chroma w * chroma h)"

lemma write_rectangle:
  assumes "readable_frame f" "even (unat x)" "even (unat y)"
    "unat x + unat w \<le> unat (df_width f)" "unat y + unat h \<le> unat (df_height f)" "planes_sized w h planes"
  obtains p where "write_i420 f x y w h planes = Some (f\<lparr>df_pixels := p\<rparr>)" "length p = length (df_pixels f)"
proof -
  obtain luma u v where planes: "planes = (luma, u, v)" by (cases planes)
  have len: "length luma = unat w * unat h" "length u = chroma w * chroma h" "length v = chroma w * chroma h"
    using assms(6) by (simp_all add: planes_sized_def planes)
  obtain p0 where p0: "write_region (df_pixels f) (plane_base f 0 x y) (unat (df_strides f ! 0)) (unat w) (unat h) luma = Some p0"
      "length p0 = length (df_pixels f)"
    using write_region_inside [OF rectangle_regions(1) [OF assms(1-5) refl] len(1)] by auto
  obtain p1 where p1: "write_region p0 (plane_base f 1 (x div 2) (y div 2)) (unat (df_strides f ! 1)) (chroma w) (chroma h) u = Some p1"
      "length p1 = length p0"
    using write_region_inside [OF rectangle_regions(2) [OF assms(1-5) p0(2)] len(2)] by auto
  have "length p1 = length (df_pixels f)" using p0 p1 by simp
  from write_region_inside [OF rectangle_regions(3) [OF assms(1-5) this] len(3)]
  obtain p2 where p2: "write_region p1 (plane_base f 2 (x div 2) (y div 2)) (unat (df_strides f ! 2)) (chroma w) (chroma h) v = Some p2"
      "length p2 = length p1" by auto
  show ?thesis using that [of p2] p0 p1 p2 by (simp add: write_i420_def planes)
qed

section \<open>What libyuv is relied on for\<close>

text \<open>Whatever code a call returns, the planes it writes have the documented sizes.\<close>

definition i420_lib_sized :: "i420_lib \<Rightarrow> bool" where
  "i420_lib_sized lib \<longleftrightarrow>
     (\<forall>p w h. planes_sized w h p \<longrightarrow> planes_sized w h (snd (lib_copy lib p w h))) \<and>
     (\<forall>p w h r. planes_sized w h p \<longrightarrow> planes_sized (if r = 90 \<or> r = 270 then h else w)
        (if r = 90 \<or> r = 270 then w else h) (snd (lib_rotate lib p w h r))) \<and>
     (\<forall>p w h. planes_sized w h p \<longrightarrow> planes_sized w h (snd (lib_mirror lib p w h))) \<and>
     (\<forall>p w h w' h'. planes_sized w h p \<longrightarrow> planes_sized w' h' (snd (lib_scale lib p w h w' h'))) \<and>
     (\<forall>w h v. length (lib_set_plane lib w h v) = unat w * unat h)"

lemma length_read_region:
  assumes "read_region mem base stride w h = Some bs"
  shows "length bs = w * h"
proof (cases "w = 0")
  case True
  have "concat (map (\<lambda>row. take 0 (drop (row * stride) xs)) rows) = []" for xs :: bytes and rows by simp
  then show ?thesis using assms True by (auto simp: read_region_def packed_rows_def split: if_splits)
next
  case False
  then have "h = 0 \<or> (h - 1) * stride + w \<le> length (drop base mem)"
    using assms by (auto simp: read_region_def region_inside_def split: if_splits)
  from length_packed_rows [OF this] show ?thesis
    using assms by (auto simp: read_region_def mult.commute split: if_splits)
qed

lemma read_planes_sized: "read_i420 f x y w h = Some planes \<Longrightarrow> planes_sized w h planes"
  by (auto simp: read_i420_def planes_sized_def dest: length_read_region split: option.splits)

text \<open>An operation that touches nothing outside its frames and makes, if anything, a packed frame.\<close>

definition makes :: "decoded_frame option option \<Rightarrow> u32 \<Rightarrow> u32 \<Rightarrow> i64 \<Rightarrow> bool" where
  "makes made w h pts \<longleftrightarrow> (\<exists>r. made = Some r \<and>
     (\<forall>f. r = Some f \<longrightarrow> packed_frame f \<and> df_width f = w \<and> df_height f = h \<and> df_pts_ns f = pts))"

definition answers :: "(status \<times> decoded_frame option) option \<Rightarrow> u32 \<Rightarrow> u32 \<Rightarrow> i64 \<Rightarrow> bool" where
  "answers res w h pts \<longleftrightarrow> (\<exists>st r. res = Some (st, r) \<and> (fst st = MKVC_OK \<longleftrightarrow> r \<noteq> None) \<and>
     (\<forall>f. r = Some f \<longrightarrow> packed_frame f \<and> df_width f = w \<and> df_height f = h \<and> df_pts_ns f = pts))"

lemma makes_self: "packed_frame f \<Longrightarrow> makes (Some (Some f)) (df_width f) (df_height f) (df_pts_ns f)"
  by (simp add: makes_def)

lemma stage_answers:
  assumes "makes made w h pts"
    and "\<And>f. packed_frame f \<Longrightarrow> df_width f = w \<Longrightarrow> df_height f = h \<Longrightarrow> df_pts_ns f = pts \<Longrightarrow>
      answers (continue f) w' h' pts'"
  shows "answers (stage message made continue) w' h' pts'"
  using assms by (auto simp: makes_def stage_def answers_def split: option.splits)

lemma transform_makes:
  assumes "readable_frame source"
    and "\<And>planes. planes_sized (df_width source) (df_height source) planes \<Longrightarrow>
      planes_sized w h (snd (call planes))"
  shows "makes (transform_frame call source (allocate_i420 w h pts)) w h pts"
proof (cases "allocate_i420 w h pts")
  case None
  then show ?thesis by (simp add: transform_frame_def makes_def)
next
  case (Some r)
  note packed = allocate_packed [OF Some]
  obtain planes where read: "read_i420 source 0 0 (df_width source) (df_height source) = Some planes"
    by (rule read_rectangle [OF assms(1), of 0 0]) auto
  obtain rc written where call: "call planes = (rc, written)" by (cases "call planes")
  have sized: "planes_sized (df_width r) (df_height r) written" using assms(2) [OF read_planes_sized [OF read]] call packed by simp
  obtain p where "write_i420 r 0 0 (df_width r) (df_height r) written = Some (r\<lparr>df_pixels := p\<rparr>)"
      "length p = length (df_pixels r)"
    by (rule write_rectangle [OF packed_readable [OF conjunct1 [OF packed]], of 0 0 "df_width r" "df_height r" written])
      (auto intro: sized)
  then show ?thesis using Some read call packed packed_pixels [of r p]
    by (simp add: transform_frame_def makes_def)
qed

lemma copy_inside:
  assumes "readable_frame source" "packed_frame dest" "i420_lib_sized lib"
    and "even (unat sx)" "even (unat sy)" "even (unat dx)" "even (unat dy)"
    and "unat sx \<le> unat (df_width source)" "unat sy \<le> unat (df_height source)"
    and "unat dx \<le> unat (df_width dest)" "unat dy \<le> unat (df_height dest)"
  obtains rc p where "copy_i420 lib source dest sx sy dx dy = Some (rc, dest\<lparr>df_pixels := p\<rparr>)"
    "packed_frame (dest\<lparr>df_pixels := p\<rparr>)"
proof -
  define w where "w = min (df_width source - sx) (df_width dest - dx)"
  define h where "h = min (df_height source - sy) (df_height dest - dy)"
  have sub: "unat (a - b) = unat a - unat b" if "unat b \<le> unat a" for a b :: u32
    using that by (simp add: unat_sub word_le_nat_alt)
  have le: "unat (min a b) \<le> unat a" "unat (min a b) \<le> unat b" for a b :: u32
    by (simp_all flip: word_le_nat_alt)
  have b: "unat w \<le> unat (df_width source) - unat sx" "unat w \<le> unat (df_width dest) - unat dx"
    "unat h \<le> unat (df_height source) - unat sy" "unat h \<le> unat (df_height dest) - unat dy"
    using le(1) [of "df_width source - sx" "df_width dest - dx"] le(2) [of "df_width source - sx" "df_width dest - dx"]
      le(1) [of "df_height source - sy" "df_height dest - dy"] le(2) [of "df_height source - sy" "df_height dest - dy"]
      assms(8-11) by (simp_all add: sub w_def h_def)
  obtain planes where read: "read_i420 source sx sy w h = Some planes"
    by (rule read_rectangle [OF assms(1,4,5), of w h]) (use b assms(8-11) in linarith)+
  obtain rc written where call: "lib_copy lib planes w h = (rc, written)" by (cases "lib_copy lib planes w h")
  have sized: "planes_sized w h written" using assms(3) call read_planes_sized [OF read]
    unfolding i420_lib_sized_def by (metis snd_conv)
  obtain p where p: "write_i420 dest dx dy w h written = Some (dest\<lparr>df_pixels := p\<rparr>)"
      "length p = length (df_pixels dest)"
    by (rule write_rectangle [OF packed_readable [OF assms(2)] assms(6,7), of w h written])
      (use b assms(8-11) sized in \<open>linarith | assumption\<close>)+
  show ?thesis
  proof (cases "rc = 0")
    case True
    then show ?thesis using that [of rc p] read call p packed_pixels [OF assms(2) p(2)]
      by (simp add: copy_i420_def w_def [symmetric] h_def [symmetric])
  next
    case False
    then show ?thesis using that [of rc "df_pixels dest"] read call assms(2)
      by (simp add: copy_i420_def w_def [symmetric] h_def [symmetric])
  qed
qed

lemma crop_makes:
  assumes "readable_frame source" "i420_lib_sized lib" "even (unat x)" "even (unat y)"
    "unat x \<le> unat (df_width source)" "unat y \<le> unat (df_height source)"
  shows "makes (crop_frame lib source x y w h) w h (df_pts_ns source)"
proof (cases "allocate_i420 w h (df_pts_ns source)")
  case None
  then show ?thesis by (simp add: crop_frame_def makes_def)
next
  case (Some r)
  note packed = allocate_packed [OF Some]
  obtain rc p where "copy_i420 lib source r x y 0 0 = Some (rc, r\<lparr>df_pixels := p\<rparr>)"
      "packed_frame (r\<lparr>df_pixels := p\<rparr>)"
    by (rule copy_inside [OF assms(1) conjunct1 [OF packed] assms(2-4), of 0 0]) (use assms(5,6) in auto)
  then show ?thesis using Some packed by (simp add: crop_frame_def makes_def)
qed

lemma rotate_makes:
  assumes "packed_frame f" "i420_lib_sized lib"
  shows "makes (rotate_frame lib f r) (if r = 90 \<or> r = 270 then df_height f else df_width f)
    (if r = 90 \<or> r = 270 then df_width f else df_height f) (df_pts_ns f)"
  unfolding rotate_frame_def Let_def
proof (rule transform_makes [OF packed_readable [OF assms(1)]])
  let ?m = "if r = 90 \<or> r = 180 \<or> r = 270 then r else 0"
  have m: "(?m = 90 \<or> ?m = 270) = (r = 90 \<or> r = 270)" by auto
  have "planes_sized (if ?m = 90 \<or> ?m = 270 then df_height f else df_width f)
      (if ?m = 90 \<or> ?m = 270 then df_width f else df_height f)
      (snd (lib_rotate lib planes (df_width f) (df_height f) ?m))"
    if "planes_sized (df_width f) (df_height f) planes" for planes
    using that assms(2) unfolding i420_lib_sized_def by blast
  then show "planes_sized (if r = 90 \<or> r = 270 then df_height f else df_width f)
      (if r = 90 \<or> r = 270 then df_width f else df_height f)
      (snd (lib_rotate lib planes (df_width f) (df_height f) ?m))"
    if "planes_sized (df_width f) (df_height f) planes" for planes
    using that unfolding m by blast
qed

lemma mirror_makes:
  assumes "packed_frame f" "i420_lib_sized lib"
  shows "makes (mirror_frame lib f) (df_width f) (df_height f) (df_pts_ns f)"
  unfolding mirror_frame_def
  by (rule transform_makes [OF packed_readable [OF assms(1)]]) (use assms(2) in \<open>unfold i420_lib_sized_def, blast\<close>)

lemma scale_makes:
  assumes "packed_frame f" "i420_lib_sized lib"
  shows "makes (scale_frame lib f w h) w h (df_pts_ns f)"
  unfolding scale_frame_def
  by (rule transform_makes [OF packed_readable [OF assms(1)]]) (use assms(2) in \<open>unfold i420_lib_sized_def, blast\<close>)

lemma flip_makes:
  assumes "packed_frame f" "i420_lib_sized lib"
  shows "makes (flip_vertically lib f) (df_width f) (df_height f) (df_pts_ns f)"
proof -
  obtain r where r: "rotate_frame lib f 180 = Some r"
      "\<And>g. r = Some g \<Longrightarrow> packed_frame g \<and> df_width g = df_width f \<and> df_height g = df_height f \<and> df_pts_ns g = df_pts_ns f"
    using rotate_makes [OF assms, of 180] by (auto simp: makes_def)
  show ?thesis
  proof (cases r)
    case None
    then show ?thesis using r(1) by (simp add: flip_vertically_def makes_def)
  next
    case (Some g)
    then show ?thesis using r(1) r(2) [OF Some] mirror_makes [of g lib] assms(2) by (simp add: flip_vertically_def)
  qed
qed

section \<open>The resize\<close>

lemma even_floor_exact: "even (unat v) \<Longrightarrow> unat v < 4294967296 \<Longrightarrow> unat (even_floor v) = unat v"
  by (simp add: unat_even_floor)

lemma even_even_floor: "unat v < 4294967296 \<Longrightarrow> even (unat (even_floor v))"
  by (simp add: unat_even_floor)

lemma half_difference:
  assumes "unat b \<le> unat (a :: u32)"
  shows "unat (even_floor (ucast ((a - b) div 2))) \<le> unat a - unat b"
    "even (unat (even_floor (ucast ((a - b) div 2))))"
proof -
  have d: "unat (ucast ((a - b) div 2) :: u64) = (unat a - unat b) div 2"
    using assms by (simp add: unat_ucast_u32 unat_div unat_sub word_le_nat_alt)
  have "(unat a - unat b) div 2 < 4294967296" using u32_less [of a] by linarith
  with d have v: "unat (even_floor (ucast ((a - b) div 2))) = 2 * ((unat a - unat b) div 2 div 2)"
    using unat_even_floor by metis
  show "unat (even_floor (ucast ((a - b) div 2))) \<le> unat a - unat b" unfolding v by linarith
  show "even (unat (even_floor (ucast ((a - b) div 2))))" unfolding v by simp
qed

lemma scaled_contain:
  assumes "packed_frame f" "even_nonzero ow" "even_nonzero oh" "scaled_size True f ow oh = (sw, sh)"
  shows "unat sw \<le> unat ow" "unat sh \<le> unat oh"
proof -
  let ?w = "unat (df_width f)" and ?h = "unat (df_height f)"
  have pos: "0 < ?w" "0 < ?h" "2 \<le> unat ow" "2 \<le> unat oh"
    using assms(1-3) by (auto simp: packed_frame_def even_nonzero_unat elim!: evenE)
  have two: "unat (max 2 x) \<le> unat y" if "unat x \<le> unat y" "2 \<le> unat y" for x y :: u32
    using that by (simp add: max_def)
  have le: "unat (ucast a * ucast b :: u64) \<le> unat (ucast c * ucast d :: u64) \<longleftrightarrow> unat a * unat b \<le> unat c * unat d"
    for a b c d :: u32 by (simp add: unat_product)
  show "unat sw \<le> unat ow" "unat sh \<le> unat oh"
  proof (atomize (full), cases "unat ow * ?h \<le> unat oh * ?w")
    case True
    then have lhs: "(ucast ow * ucast (df_height f) :: u64) \<le> ucast oh * ucast (df_width f)"
      unfolding word_le_nat_alt le .
    have "unat (df_height f) * unat ow div ?w \<le> unat oh"
    proof -
      have "?h * unat ow \<le> unat oh * ?w" using True by (simp add: mult.commute)
      from div_le_mono [OF this, of ?w] show ?thesis using pos(1) by simp
    qed
    moreover from this have "unat (even_floor (ucast (df_height f) * ucast ow div ucast (df_width f))) \<le> unat oh"
      using unat_even_floor [of "ucast (df_height f) * ucast ow div ucast (df_width f)"] u32_less [of oh]
      unfolding unat_quotient by simp
    ultimately show "unat sw \<le> unat ow \<and> unat sh \<le> unat oh"
      using assms(4) lhs pos two by (auto simp: scaled_size_def Let_def)
  next
    case False
    then have lhs: "\<not> (ucast ow * ucast (df_height f) :: u64) \<le> ucast oh * ucast (df_width f)"
      unfolding word_le_nat_alt le .
    have "?w * unat oh div ?h \<le> unat ow"
    proof -
      have "?w * unat oh \<le> unat ow * ?h" using False by (simp add: mult.commute)
      from div_le_mono [OF this, of ?h] show ?thesis using pos(2) by simp
    qed
    then have "unat (even_floor (ucast (df_width f) * ucast oh div ucast (df_height f))) \<le> unat ow"
      using unat_even_floor [of "ucast (df_width f) * ucast oh div ucast (df_height f)"] u32_less [of ow]
      unfolding unat_quotient by simp
    then show "unat sw \<le> unat ow \<and> unat sh \<le> unat oh"
      using assms(4) lhs pos two by (auto simp: scaled_size_def Let_def)
  qed
qed

text \<open>The quotient of cover is converted to 32 bits; it fits when the frames are small enough.\<close>

lemma scaled_cover:
  assumes "packed_frame f" "even_nonzero ow" "even_nonzero oh" "scaled_size False f ow oh = (sw, sh)"
    and small: "unat (df_width f) \<le> 65535" "unat (df_height f) \<le> 65535" "unat ow \<le> 65535" "unat oh \<le> 65535"
  shows "unat ow \<le> unat sw" "unat oh \<le> unat sh"
proof -
  let ?w = "unat (df_width f)" and ?h = "unat (df_height f)"
  have pos: "0 < ?w" "0 < ?h" "even (unat ow)" "even (unat oh)"
    using assms(1-3) by (auto simp: packed_frame_def even_nonzero_unat)
  have two: "unat y \<le> unat (max 2 x)" if "unat y \<le> unat x" for x y :: u32
    using that by (simp add: max_def word_le_nat_alt)
  have le: "unat (ucast a * ucast b :: u64) \<le> unat (ucast c * ucast d :: u64) \<longleftrightarrow> unat a * unat b \<le> unat c * unat d"
    for a b c d :: u32 by (simp add: unat_product)
  have fits: "a * b div c < 4294967296" if "a \<le> 65535" "b \<le> 65535" for a b c :: nat
  proof -
    have "a * b \<le> 65535 * 65535" using that by (rule mult_le_mono)
    then show ?thesis using div_le_dividend [of "a * b" c] by linarith
  qed
  have floor: "m \<le> 2 * (n div 2)" if "m \<le> n" "even m" for m n :: nat using that by (auto elim!: evenE)
  show "unat ow \<le> unat sw" "unat oh \<le> unat sh"
  proof (atomize (full), cases "unat oh * ?w \<le> unat ow * ?h")
    case True
    then have lhs: "ucast oh * ucast (df_width f) \<le> (ucast ow * ucast (df_height f) :: u64)"
      unfolding word_le_nat_alt le .
    have "unat oh \<le> ?h * unat ow div ?w"
      using True pos(1) by (simp add: less_eq_div_iff_mult_less_eq mult.commute)
    then have "unat oh \<le> unat (even_floor (ucast (df_height f) * ucast ow div ucast (df_width f)))"
      using unat_even_floor [of "ucast (df_height f) * ucast ow div ucast (df_width f)"] floor pos(4)
        fits [OF small(2,3), of ?w] unfolding unat_quotient by simp
    then show "unat ow \<le> unat sw \<and> unat oh \<le> unat sh"
      using assms(4) lhs two by (auto simp: scaled_size_def Let_def)
  next
    case False
    then have lhs: "\<not> ucast oh * ucast (df_width f) \<le> (ucast ow * ucast (df_height f) :: u64)"
      unfolding word_le_nat_alt le .
    have "unat ow \<le> ?w * unat oh div ?h"
      using False pos(2) by (simp add: less_eq_div_iff_mult_less_eq mult.commute)
    then have "unat ow \<le> unat (even_floor (ucast (df_width f) * ucast oh div ucast (df_height f)))"
      using unat_even_floor [of "ucast (df_width f) * ucast oh div ucast (df_height f)"] floor pos(3)
        fits [OF small(1,4), of ?h] unfolding unat_quotient by simp
    then show "unat ow \<le> unat sw \<and> unat oh \<le> unat sh"
      using assms(4) lhs two by (auto simp: scaled_size_def Let_def)
  qed
qed

lemma fill_inside:
  assumes "packed_frame f" "i420_lib_sized lib"
  obtains p where "fill_background lib f rgba = Some (f\<lparr>df_pixels := p\<rparr>)" "packed_frame (f\<lparr>df_pixels := p\<rparr>)"
proof -
  obtain y u v where bg: "background_yuv rgba = (y, u, v)" by (cases "background_yuv rgba")
  let ?planes = "(lib_set_plane lib (df_width f) (df_height f) y,
        lib_set_plane lib (df_width f div 2) (df_height f div 2) u,
        lib_set_plane lib (df_width f div 2) (df_height f div 2) v)"
  have len: "length (lib_set_plane lib a b c) = unat a * unat b" for a b c
    using assms(2) unfolding i420_lib_sized_def by blast
  have "chroma (df_width f) = unat (df_width f div 2)" "chroma (df_height f) = unat (df_height f div 2)"
    using assms(1) by (auto simp: packed_frame_def even_nonzero_unat chroma_even)
  then have sized: "planes_sized (df_width f) (df_height f) ?planes" by (simp add: planes_sized_def len)
  obtain p where "write_i420 f 0 0 (df_width f) (df_height f) ?planes = Some (f\<lparr>df_pixels := p\<rparr>)"
      "length p = length (df_pixels f)"
    by (rule write_rectangle [OF packed_readable [OF assms(1)], of 0 0 "df_width f" "df_height f" ?planes])
      (use sized in \<open>simp | assumption\<close>)+
  then show ?thesis using that [of p] packed_pixels [OF assms(1), of p] by (simp add: fill_background_def bg)
qed

lemma contain_inside:
  assumes "packed_frame scaled" "packed_frame output" "i420_lib_sized lib"
    and "unat (df_width scaled) \<le> unat (df_width output)" "unat (df_height scaled) \<le> unat (df_height output)"
  obtains rc p where "compose_contain lib rgba scaled output = Some (rc, output\<lparr>df_pixels := p\<rparr>)"
    "packed_frame (output\<lparr>df_pixels := p\<rparr>)"
proof -
  obtain q where q: "fill_background lib output rgba = Some (output\<lparr>df_pixels := q\<rparr>)"
      "packed_frame (output\<lparr>df_pixels := q\<rparr>)" by (rule fill_inside [OF assms(2,3)])
  let ?o = "output\<lparr>df_pixels := q\<rparr>"
  note dx = half_difference [OF assms(4)] and dy = half_difference [OF assms(5)]
  obtain rc p where "copy_i420 lib scaled ?o 0 0
            (even_floor (ucast ((df_width output - df_width scaled) div 2)))
            (even_floor (ucast ((df_height output - df_height scaled) div 2))) = Some (rc, ?o\<lparr>df_pixels := p\<rparr>)"
      "packed_frame (?o\<lparr>df_pixels := p\<rparr>)"
    by (rule copy_inside [OF packed_readable [OF assms(1)] q(2) assms(3), of 0 0
          "even_floor (ucast ((df_width output - df_width scaled) div 2))"
          "even_floor (ucast ((df_height output - df_height scaled) div 2))"])
      (use dx dy in simp_all)
  then show ?thesis using that [of rc p] q(1) by (simp add: compose_contain_def)
qed

lemma cover_inside:
  assumes "packed_frame scaled" "packed_frame output" "i420_lib_sized lib"
    and "unat (df_width output) \<le> unat (df_width scaled)" "unat (df_height output) \<le> unat (df_height scaled)"
  obtains rc p where "compose_cover lib scaled output = Some (rc, output\<lparr>df_pixels := p\<rparr>)"
    "packed_frame (output\<lparr>df_pixels := p\<rparr>)"
proof -
  note dx = half_difference [OF assms(4)] and dy = half_difference [OF assms(5)]
  obtain rc p where "copy_i420 lib scaled output
            (even_floor (ucast ((df_width scaled - df_width output) div 2)))
            (even_floor (ucast ((df_height scaled - df_height output) div 2))) 0 0 = Some (rc, output\<lparr>df_pixels := p\<rparr>)"
      "packed_frame (output\<lparr>df_pixels := p\<rparr>)"
    by (rule copy_inside [OF packed_readable [OF assms(1)] assms(2,3),
          of "even_floor (ucast ((df_width scaled - df_width output) div 2))"
          "even_floor (ucast ((df_height scaled - df_height output) div 2))" 0 0])
      (use dx dy in simp_all)
  then show ?thesis using that [of rc p] by (simp add: compose_cover_def)
qed

lemma finish_answers:
  assumes "makes made w h pts"
  shows "answers (case made of
            None \<Rightarrow> None
          | Some None \<Rightarrow> Some ((MKVC_ERROR_INTERNAL, message), None)
          | Some (Some f) \<Rightarrow> Some (ok, Some f)) w h pts"
  using assms by (auto simp: makes_def answers_def split: option.splits)

lemma resize_answers:
  assumes current: "packed_frame current" and lib: "i420_lib_sized lib"
    and out: "even_nonzero ow" "even_nonzero oh" and pts: "df_pts_ns current = pts"
    and small: "pr_fit config = MKVC_FRAME_FIT_COVER \<Longrightarrow> unat (df_width current) \<le> 65535 \<and>
      unat (df_height current) \<le> 65535 \<and> unat ow \<le> 65535 \<and> unat oh \<le> 65535"
    and fit: "pr_fit config \<le> MKVC_FRAME_FIT_COVER"
  shows "answers (resize_frame lib config pts ow oh current) ow oh pts"
proof (cases "pr_fit config = MKVC_FRAME_FIT_STRETCH")
  case True
  have "makes (if df_width current = ow \<and> df_height current = oh
      then Some (Some current) else scale_frame lib current ow oh) ow oh pts"
    using makes_self [OF current] scale_makes [OF current lib, of ow oh] pts by auto
  from finish_answers [OF this] True show ?thesis by (simp add: resize_frame_def Let_def)
next
  case fitted: False
  define contain where "contain = (pr_fit config = MKVC_FRAME_FIT_CONTAIN)"
  obtain sw sh where s: "scaled_size contain current ow oh = (sw, sh)" by (cases "scaled_size contain current ow oh")
  have compose: "makes (case (if contain then compose_contain lib (pr_background_rgba config) scaled output
        else compose_cover lib scaled output) of
         None \<Rightarrow> None | Some (rc, f) \<Rightarrow> Some (if rc \<noteq> 0 then None else Some f)) ow oh pts"
    if scaled: "packed_frame scaled" "df_width scaled = sw" "df_height scaled = sh"
      and dest: "packed_frame output" "df_width output = ow" "df_height output = oh" "df_pts_ns output = pts"
    for scaled "output"
  proof (cases contain)
    case True
    note le = scaled_contain [OF current out s [unfolded eqTrueI [OF True]]]
    obtain rc p where "compose_contain lib (pr_background_rgba config) scaled output = Some (rc, output\<lparr>df_pixels := p\<rparr>)"
        "packed_frame (output\<lparr>df_pixels := p\<rparr>)"
      by (rule contain_inside [OF scaled(1) dest(1) lib, of "pr_background_rgba config"])
        (use le scaled(2,3) dest(2,3) in simp_all)
    then show ?thesis using True dest by (simp add: makes_def)
  next
    case False
    have c: "pr_fit config = MKVC_FRAME_FIT_COVER"
    proof -
      have "unat (pr_fit config) \<le> 2" using fit by (simp add: word_le_nat_alt)
      moreover have "unat (pr_fit config) \<noteq> 0"
        using fitted word_unat_eq_iff [of "pr_fit config" 0] by simp
      moreover have "unat (pr_fit config) \<noteq> 1"
        using False word_unat_eq_iff [of "pr_fit config" 1] by (simp add: contain_def)
      ultimately have "unat (pr_fit config) = unat (2 :: u32)" by simp
      then show ?thesis by (simp only: word_unat_eq_iff)
    qed
    note le = scaled_cover [OF current out, of sw sh] and sm = small [OF c]
    obtain rc p where "compose_cover lib scaled output = Some (rc, output\<lparr>df_pixels := p\<rparr>)"
        "packed_frame (output\<lparr>df_pixels := p\<rparr>)"
      by (rule cover_inside [OF scaled(1) dest(1) lib])
        (use le s sm False scaled(2,3) dest(2,3) in simp_all)
    then show ?thesis using False dest by (simp add: makes_def)
  qed
  have "answers (stage ''aspect-preserving resize failed'' (scale_frame lib current sw sh)
      (\<lambda>scaled. stage ''output allocation failed'' (Some (allocate_i420 ow oh pts))
         (\<lambda>output. case (case (if contain then compose_contain lib (pr_background_rgba config) scaled output
              else compose_cover lib scaled output) of
              None \<Rightarrow> None | Some (rc, f) \<Rightarrow> Some (if rc \<noteq> 0 then None else Some f)) of
            None \<Rightarrow> None
          | Some None \<Rightarrow> Some ((MKVC_ERROR_INTERNAL, ''frame resize/composition failed''), None)
          | Some (Some f) \<Rightarrow> Some (ok, Some f)))) ow oh pts"
  proof (rule stage_answers [OF scale_makes [OF current lib]])
    fix scaled
    assume scaled: "packed_frame scaled" "df_width scaled = sw" "df_height scaled = sh"
    have "makes (Some (allocate_i420 ow oh pts)) ow oh pts"
      using allocate_packed [of ow oh pts] by (auto simp: makes_def)
    then show "answers (stage ''output allocation failed'' (Some (allocate_i420 ow oh pts))
         (\<lambda>output. case (case (if contain then compose_contain lib (pr_background_rgba config) scaled output
              else compose_cover lib scaled output) of
              None \<Rightarrow> None | Some (rc, f) \<Rightarrow> Some (if rc \<noteq> 0 then None else Some f)) of
            None \<Rightarrow> None
          | Some None \<Rightarrow> Some ((MKVC_ERROR_INTERNAL, ''frame resize/composition failed''), None)
          | Some (Some f) \<Rightarrow> Some (ok, Some f))) ow oh pts"
      by (rule stage_answers) (rule finish_answers [OF compose [OF scaled]])
  qed
  then show ?thesis using fitted s by (simp add: resize_frame_def contain_def Let_def)
qed

lemma crop_valid_bounds:
  assumes "\<not> crop_invalid source config" "plan_crop source config = (cw, ch)"
  shows "even (unat (pr_crop_x config))" "even (unat (pr_crop_y config))"
    "unat (pr_crop_x config) \<le> unat (df_width source)" "unat (pr_crop_y config) \<le> unat (df_height source)"
proof -
  have v: "even_nonzero cw" "even_nonzero ch" "pr_crop_x config AND 1 = 0" "pr_crop_y config AND 1 = 0"
    "pr_crop_x config \<le> df_width source - min (df_width source) cw"
    "pr_crop_y config \<le> df_height source - min (df_height source) ch"
    "cw \<le> df_width source - pr_crop_x config" "ch \<le> df_height source - pr_crop_y config"
    using assms by (auto simp: crop_invalid_def not_less)
  show "even (unat (pr_crop_x config))" "even (unat (pr_crop_y config))"
    using v(3,4) by (simp_all add: even_word_iff)
  have sub: "unat (a - min a b) \<le> unat a" for a b :: u32
    by (cases "a \<le> b") (simp_all add: min_def unat_sub word_le_nat_alt)
  show "unat (pr_crop_x config) \<le> unat (df_width source)" "unat (pr_crop_y config) \<le> unat (df_height source)"
    using v(5,6) sub [of "df_width source" cw] sub [of "df_height source" ch] by (simp_all add: word_le_nat_alt)
qed

lemma crop_within:
  assumes "\<not> crop_invalid source config" "plan_crop source config = (cw, ch)"
  shows "unat cw \<le> unat (df_width source) \<and> unat ch \<le> unat (df_height source)"
proof -
  note b = crop_valid_bounds [OF assms]
  have "cw \<le> df_width source - pr_crop_x config" "ch \<le> df_height source - pr_crop_y config"
    using assms by (auto simp: crop_invalid_def not_less)
  then show ?thesis using b(3,4) by (simp add: word_le_nat_alt unat_sub) linarith
qed

section \<open>The whole plan\<close>

definition planned_size :: "decoded_frame \<Rightarrow> frame_process_config \<Rightarrow> u32 \<times> u32" where
  "planned_size source config = (case plan_crop source config of (cw, ch) \<Rightarrow>
     (let swaps = pr_rotation config = 90 \<or> pr_rotation config = 270
      in (if pr_output_width config = 0 then (if swaps then ch else cw) else pr_output_width config,
          if pr_output_height config = 0 then (if swaps then cw else ch) else pr_output_height config)))"

definition cover_fits :: "decoded_frame \<Rightarrow> frame_process_config \<Rightarrow> bool" where
  "cover_fits source config \<longleftrightarrow> pr_fit config \<noteq> MKVC_FRAME_FIT_COVER \<or>
     unat (df_width source) \<le> 65535 \<and> unat (df_height source) \<le> 65535 \<and>
     unat (pr_output_width config) \<le> 65535 \<and> unat (pr_output_height config) \<le> 65535"

lemma refused_answers: "fst st \<noteq> MKVC_OK \<Longrightarrow> answers (Some (st, None)) w h pts"
  by (simp add: answers_def)

lemma process_answers:
  assumes readable: "readable_frame source" and lib: "i420_lib_sized lib" and fits: "cover_fits source config"
    and size: "planned_size source config = (w, h)"
  shows "answers (process_frame_cpu lib source config) w h (df_pts_ns source)"
proof -
  let ?pts = "df_pts_ns source"
  obtain cw ch where crop: "plan_crop source config = (cw, ch)" by (cases "plan_crop source config")
  consider (gpu) "pr_backend config \<noteq> MKVC_BACKEND_CPU"
    | (policy) "pr_backend config = MKVC_BACKEND_CPU"
        "pr_rotation config \<notin> {0, 90, 180, 270} \<or> pr_fit config > MKVC_FRAME_FIT_COVER"
    | (crop) "pr_backend config = MKVC_BACKEND_CPU"
        "\<not> (pr_rotation config \<notin> {0, 90, 180, 270} \<or> pr_fit config > MKVC_FRAME_FIT_COVER)"
        "crop_invalid source config"
    | (run) "pr_backend config = MKVC_BACKEND_CPU"
        "\<not> (pr_rotation config \<notin> {0, 90, 180, 270} \<or> pr_fit config > MKVC_FRAME_FIT_COVER)"
        "\<not> crop_invalid source config"
    by blast
  then show ?thesis
  proof cases
    case gpu
    then show ?thesis by (simp add: process_frame_cpu_def refused_answers)
  next
    case policy
    then show ?thesis by (auto simp: process_frame_cpu_def refused_answers)
  next
    case crop
    then show ?thesis by (simp add: process_frame_cpu_def refused_answers)
  next
    case run
    note bounds = crop_valid_bounds [OF run(3) crop] and within = crop_within [OF run(3) crop]
    define swaps where "swaps = (pr_rotation config = 90 \<or> pr_rotation config = 270)"
    define rw where "rw = (if swaps then ch else cw)"
    define rh where "rh = (if swaps then cw else ch)"
    have wh: "w = (if pr_output_width config = 0 then rw else pr_output_width config)"
        "h = (if pr_output_height config = 0 then rh else pr_output_height config)"
      using size crop by (auto simp: planned_size_def rw_def rh_def swaps_def Let_def)
    let ?tail = "\<lambda>current.
           let out_width = (if pr_output_width config = 0 then df_width current else pr_output_width config);
               out_height = (if pr_output_height config = 0 then df_height current else pr_output_height config)
           in if \<not> even_nonzero out_width \<or> \<not> even_nonzero out_height
              then Some ((MKVC_ERROR_INVALID_ARGUMENT, ''output dimensions must be positive and even''), None)
              else resize_frame lib config ?pts out_width out_height current"
    have tail: "answers (?tail f) w h ?pts"
      if f: "packed_frame f" "df_width f = rw" "df_height f = rh" "df_pts_ns f = ?pts" for f
    proof -
    have eq: "?tail f = (if \<not> even_nonzero w \<or> \<not> even_nonzero h
        then Some ((MKVC_ERROR_INVALID_ARGUMENT, ''output dimensions must be positive and even''), None)
        else resize_frame lib config ?pts w h f)"
      unfolding Let_def f(2,3) wh by (rule refl)
    show ?thesis
    proof (cases "even_nonzero w \<and> even_nonzero h")
      case True
      have "answers (resize_frame lib config ?pts w h f) w h ?pts"
      proof (rule resize_answers [OF f(1) lib _ _ f(4)])
        assume "pr_fit config = MKVC_FRAME_FIT_COVER"
        with fits within f(2,3) wh show "unat (df_width f) \<le> 65535 \<and> unat (df_height f) \<le> 65535 \<and>
            unat w \<le> 65535 \<and> unat h \<le> 65535"
          unfolding cover_fits_def rw_def rh_def by (cases swaps) auto
      qed (use True run(2) in auto)
      then show ?thesis unfolding eq using True by simp
    next
      case False
      then show ?thesis unfolding eq by (auto simp: refused_answers)
    qed
    qed
    have vertical: "answers (stage ''vertical flip failed''
        (if pr_flip_vertical config \<noteq> 0 then flip_vertically lib f else Some (Some f)) ?tail) w h ?pts"
      if f: "packed_frame f" "df_width f = rw" "df_height f = rh" "df_pts_ns f = ?pts" for f
    proof (rule stage_answers [OF _ tail])
      show "makes (if pr_flip_vertical config \<noteq> 0 then flip_vertically lib f else Some (Some f)) rw rh ?pts"
        using flip_makes [OF f(1) lib] makes_self [OF f(1)] f by simp
    qed
    have horizontal: "answers (stage ''horizontal flip failed''
        (if pr_flip_horizontal config \<noteq> 0 then mirror_frame lib f else Some (Some f))
        (\<lambda>f. stage ''vertical flip failed''
          (if pr_flip_vertical config \<noteq> 0 then flip_vertically lib f else Some (Some f)) ?tail)) w h ?pts"
      if f: "packed_frame f" "df_width f = rw" "df_height f = rh" "df_pts_ns f = ?pts" for f
    proof (rule stage_answers [OF _ vertical])
      show "makes (if pr_flip_horizontal config \<noteq> 0 then mirror_frame lib f else Some (Some f)) rw rh ?pts"
        using mirror_makes [OF f(1) lib] makes_self [OF f(1)] f by simp
    qed
    have rotation: "answers (stage ''rotation failed''
        (if pr_rotation config \<noteq> 0 then rotate_frame lib f (pr_rotation config) else Some (Some f))
        (\<lambda>f. stage ''horizontal flip failed''
          (if pr_flip_horizontal config \<noteq> 0 then mirror_frame lib f else Some (Some f))
        (\<lambda>f. stage ''vertical flip failed''
          (if pr_flip_vertical config \<noteq> 0 then flip_vertically lib f else Some (Some f)) ?tail))) w h ?pts"
      if f: "packed_frame f" "df_width f = cw" "df_height f = ch" "df_pts_ns f = ?pts" for f
    proof (rule stage_answers [OF _ horizontal])
      show "makes (if pr_rotation config \<noteq> 0 then rotate_frame lib f (pr_rotation config) else Some (Some f)) rw rh ?pts"
        using rotate_makes [OF f(1) lib, of "pr_rotation config"] makes_self [OF f(1)] f
        by (auto simp: rw_def rh_def swaps_def)
    qed
    have "process_frame_cpu lib source config = stage ''crop failed''
        (crop_frame lib source (pr_crop_x config) (pr_crop_y config) cw ch)
        (\<lambda>f. stage ''rotation failed''
        (if pr_rotation config \<noteq> 0 then rotate_frame lib f (pr_rotation config) else Some (Some f))
        (\<lambda>f. stage ''horizontal flip failed''
          (if pr_flip_horizontal config \<noteq> 0 then mirror_frame lib f else Some (Some f))
        (\<lambda>f. stage ''vertical flip failed''
          (if pr_flip_vertical config \<noteq> 0 then flip_vertically lib f else Some (Some f)) ?tail)))"
      using run crop by (simp add: process_frame_cpu_def)
    moreover have "answers \<dots> w h ?pts"
      by (rule stage_answers [OF crop_makes [OF readable lib bounds] rotation])
    ultimately show ?thesis by simp
  qed
qed

section \<open>The content of a crop\<close>

lemma fold_write_packed:
  "k * w \<le> length bs \<Longrightarrow> base + k * w \<le> length mem \<Longrightarrow>
   fold (write_row base w w bs) [0..<k] mem = take base mem @ take (k * w) bs @ drop (base + k * w) mem"
proof (induction k)
  case 0
  then show ?case by simp
next
  case (Suc k)
  have k: "k * w + w \<le> length bs" "base + k * w + w \<le> length mem" using Suc.prems by (simp_all add: algebra_simps)
  then have "fold (write_row base w w bs) [0..<k] mem = take base mem @ take (k * w) bs @ drop (base + k * w) mem"
    by (intro Suc.IH) simp_all
  moreover have "take (k * w) bs @ take w (drop (k * w) bs) = take (Suc k * w) bs"
    by (metis add.commute mult_Suc take_add)
  moreover from this have "write_row base w w bs k (take base mem @ take (k * w) bs @ drop (base + k * w) mem) =
      take base mem @ take (Suc k * w) bs @ drop (base + Suc k * w) mem"
    using k by (simp add: write_row_def add.assoc add.commute [of w])
  ultimately show ?case by simp
qed

lemma packed_rows_self: "rows * n \<le> length xs \<Longrightarrow> packed_rows xs n n rows = take (rows * n) xs"
proof (induction rows)
  case 0
  then show ?case by (simp add: packed_rows_def)
next
  case (Suc rows)
  then have "packed_rows xs n n rows = take (rows * n) xs" by simp
  moreover have "take (rows * n) xs @ take n (drop (rows * n) xs) = take (Suc rows * n) xs"
    by (metis add.commute mult_Suc take_add)
  ultimately show ?case by (simp add: packed_rows_Suc)
qed

lemma region_packed:
  "0 < w \<Longrightarrow> 0 < h \<Longrightarrow> region_inside mem base w w h \<longleftrightarrow> base + w * h \<le> length mem"
  by (cases h) (auto simp: region_inside_def algebra_simps)

lemma write_region_packed:
  assumes "0 < w" "0 < h" "base + w * h \<le> length mem" "length bs = w * h"
  shows "write_region mem base w w h bs = Some (take base mem @ bs @ drop (base + w * h) mem)"
  using assms fold_write_packed [of h w bs base mem] region_packed [of w h mem base]
  by (simp add: write_region_def mult.commute)

lemma read_region_packed:
  assumes "0 < w" "0 < h" "base + w * h \<le> length mem"
  shows "read_region mem base w w h = Some (take (w * h) (drop base mem))"
  using assms packed_rows_self [of h w "drop base mem"] region_packed [of w h mem base]
  by (simp add: read_region_def mult.commute)

lemma packed_shape:
  assumes "packed_frame f"
  shows "0 < unat (df_width f)" "0 < unat (df_height f)"
    "chroma (df_width f) = unat (df_width f div 2)" "chroma (df_height f) = unat (df_height f div 2)"
    "0 < chroma (df_width f)" "0 < chroma (df_height f)"
    "length (df_pixels f) = unat (df_width f) * unat (df_height f) + 2 * (chroma (df_width f) * chroma (df_height f))"
    "plane_base f 0 0 0 = 0" "plane_base f (Suc 0) 0 0 = unat (df_width f) * unat (df_height f)"
    "plane_base f 2 0 0 = unat (df_width f) * unat (df_height f) + chroma (df_width f) * chroma (df_height f)"
    "unat (df_strides f ! 0) = unat (df_width f)" "unat (df_strides f ! Suc 0) = chroma (df_width f)"
    "unat (df_strides f ! 2) = chroma (df_width f)"
proof -
  have e: "0 < unat (df_width f)" "0 < unat (df_height f)" "even (unat (df_width f))" "even (unat (df_height f))"
    using assms by (simp_all add: packed_frame_def even_nonzero_unat)
  then show "0 < unat (df_width f)" "0 < unat (df_height f)" by simp_all
  have "2 \<le> unat (df_width f)" "2 \<le> unat (df_height f)" using e by (auto elim!: evenE)
  then show "0 < chroma (df_width f)" "0 < chroma (df_height f)" by (simp_all add: chroma_def)
  show c: "chroma (df_width f) = unat (df_width f div 2)" "chroma (df_height f) = unat (df_height f div 2)"
    using e by (simp_all add: chroma_even)
  show "length (df_pixels f) = unat (df_width f) * unat (df_height f) + 2 * (chroma (df_width f) * chroma (df_height f))"
    "plane_base f 0 0 0 = 0" "plane_base f (Suc 0) 0 0 = unat (df_width f) * unat (df_height f)"
    "plane_base f 2 0 0 = unat (df_width f) * unat (df_height f) + chroma (df_width f) * chroma (df_height f)"
    "unat (df_strides f ! 0) = unat (df_width f)" "unat (df_strides f ! Suc 0) = chroma (df_width f)"
    "unat (df_strides f ! 2) = chroma (df_width f)"
    using assms c by (auto simp: packed_frame_def plane_base_def Let_def numeral_2_eq_2)
qed

lemma write_packed_frame:
  assumes "packed_frame f" "planes_sized (df_width f) (df_height f) (luma, u, v)"
  shows "write_i420 f 0 0 (df_width f) (df_height f) (luma, u, v) = Some (f\<lparr>df_pixels := luma @ u @ v\<rparr>)"
proof -
  note s = packed_shape [OF assms(1)]
  have len: "length luma = unat (df_width f) * unat (df_height f)"
    "length u = chroma (df_width f) * chroma (df_height f)" "length v = chroma (df_width f) * chroma (df_height f)"
    using assms(2) by (simp_all add: planes_sized_def)
  show ?thesis using s len
    by (simp add: write_i420_def write_region_packed)
qed

lemma read_packed_frame:
  assumes "packed_frame f" "planes_sized (df_width f) (df_height f) (luma, u, v)" "df_pixels f = luma @ u @ v"
  shows "read_i420 f 0 0 (df_width f) (df_height f) = Some (luma, u, v)"
proof -
  note s = packed_shape [OF assms(1)]
  have len: "length luma = unat (df_width f) * unat (df_height f)"
    "length u = chroma (df_width f) * chroma (df_height f)" "length v = chroma (df_width f) * chroma (df_height f)"
    using assms(2) by (simp_all add: planes_sized_def)
  show ?thesis using s len assms(3) by (simp add: read_i420_def read_region_packed)
qed

lemma allocate_succeeds:
  assumes "even_nonzero w" "even_nonzero h" "w \<le> 0x7FFFFFFF" "h \<le> 0x7FFFFFFF"
  obtains f where "allocate_i420 w h pts = Some f"
proof -
  have b: "unat w \<le> 2147483647" "unat h \<le> 2147483647" using assms(3,4) by (simp_all add: word_le_nat_alt)
  have "unat (w div 2) \<le> unat w" "unat (h div 2) \<le> unat h" by (simp_all add: unat_div)
  then have "unat (w div 2) * unat (h div 2) \<le> 2147483647 * 2147483647" "unat w * unat h \<le> 2147483647 * 2147483647"
    using b by (intro mult_le_mono; simp)+
  then have "\<not> unat w * unat h > 18446744073709551615 - 2 * (unat (w div 2) * unat (h div 2))" by linarith
  moreover have "\<not> w > 0x7FFFFFFF" "\<not> h > 0x7FFFFFFF" using assms(3,4) by (simp_all add: not_less)
  ultimately have "allocate_i420 w h pts \<noteq> None" using assms(1,2) by (simp add: allocate_i420_def Let_def)
  then show ?thesis using that by auto
qed

lemma crop_exact_stage:
  assumes readable: "readable_frame source" and valid: "\<not> crop_invalid source config"
    and crop: "plan_crop source config = (cw, ch)" and copies: "\<And>p w h. lib_copy lib p w h = (0, p)"
    and small: "cw \<le> 0x7FFFFFFF" "ch \<le> 0x7FFFFFFF"
  obtains f planes where
    "crop_frame lib source (pr_crop_x config) (pr_crop_y config) cw ch = Some (Some f)"
    "read_i420 source (pr_crop_x config) (pr_crop_y config) cw ch = Some planes"
    "read_i420 f 0 0 cw ch = Some planes" "df_width f = cw" "df_height f = ch" "df_pts_ns f = df_pts_ns source"
    "even_nonzero cw" "even_nonzero ch"
proof -
  let ?x = "pr_crop_x config" and ?y = "pr_crop_y config"
  have v: "even_nonzero cw" "even_nonzero ch" "cw \<le> df_width source - ?x" "ch \<le> df_height source - ?y"
    using valid crop by (auto simp: crop_invalid_def not_less)
  note b = crop_valid_bounds [OF valid crop]
  obtain r where r: "allocate_i420 cw ch (df_pts_ns source) = Some r"
    by (rule allocate_succeeds [OF v(1,2) small])
  note p = allocate_packed [OF r]
  have "unat cw \<le> unat (df_width source) - unat ?x" "unat ch \<le> unat (df_height source) - unat ?y"
    using v(3,4) b(3,4) by (simp_all add: word_le_nat_alt unat_sub)
  then have room: "unat ?x + unat cw \<le> unat (df_width source)" "unat ?y + unat ch \<le> unat (df_height source)"
    using b(3,4) by linarith+
  obtain planes where read: "read_i420 source ?x ?y cw ch = Some planes"
    by (rule read_rectangle [OF readable b(1,2) room])
  obtain luma u w where planes: "planes = (luma, u, w)" by (cases planes)
  have sized: "planes_sized (df_width r) (df_height r) (luma, u, w)"
    using read_planes_sized [OF read] p planes by simp
  let ?f = "r\<lparr>df_pixels := luma @ u @ w\<rparr>"
  have written: "write_i420 r 0 0 cw ch (luma, u, w) = Some ?f"
    using write_packed_frame [OF conjunct1 [OF p] sized] p by simp
  have "min (df_width source - ?x) cw = cw" "min (df_height source - ?y) ch = ch"
    using v(3,4) by (simp_all add: min_def)
  then have made: "crop_frame lib source ?x ?y cw ch = Some (Some ?f)"
    using r p read planes written copies by (simp add: crop_frame_def copy_i420_def)
  have "length (luma @ u @ w) = length (df_pixels r)"
    using sized packed_shape(7) [OF conjunct1 [OF p]] by (simp add: planes_sized_def)
  from read_packed_frame [OF packed_pixels [OF conjunct1 [OF p] this], of luma u w] sized p
  have "read_i420 ?f 0 0 cw ch = Some planes" by (simp add: planes)
  then show ?thesis using that [OF made read] p v(1,2) by simp
qed

section \<open>An input\<close>

definition zero_planes :: "u32 \<Rightarrow> u32 \<Rightarrow> yuv_planes" where
  "zero_planes w h = (replicate (unat w * unat h) 0, replicate (chroma w * chroma h) 0,
     replicate (chroma w * chroma h) 0)"

text \<open>A libyuv that copies, and makes black frames of every other call.\<close>

definition copying_lib :: i420_lib where
  "copying_lib = \<lparr>lib_copy = (\<lambda>p w h. (0, p)),
     lib_rotate = (\<lambda>p w h r. (0, if r = 90 \<or> r = 270 then zero_planes h w else zero_planes w h)),
     lib_mirror = (\<lambda>p w h. (0, zero_planes w h)), lib_scale = (\<lambda>p w h w' h'. (0, zero_planes w' h')),
     lib_set_plane = (\<lambda>w h v. replicate (unat w * unat h) v)\<rparr>"

lemma zero_planes_sized: "planes_sized w h (zero_planes w h)"
  by (simp add: planes_sized_def zero_planes_def)

lemma copying_lib_sized: "i420_lib_sized copying_lib"
  by (simp add: i420_lib_sized_def copying_lib_def zero_planes_sized)

text \<open>Four by two pixels with rows of five bytes.\<close>

definition padded_frame :: decoded_frame where
  "padded_frame = \<lparr>df_width = 4, df_height = 2, df_pts_ns = 40,
     df_pixels = [1, 2, 3, 4, 0, 5, 6, 7, 8, 0, 20, 21, 30, 31],
     df_offsets = [0, 10, 12], df_strides = [5, 2, 2]\<rparr>"

definition crop_plan :: "u32 \<Rightarrow> frame_process_config" where
  "crop_plan fit = \<lparr>pr_struct_size = 56, pr_struct_version = 1, pr_backend = MKVC_BACKEND_CPU,
     pr_crop_x = 2, pr_crop_y = 0, pr_crop_width = 2, pr_crop_height = 2, pr_output_width = 0,
     pr_output_height = 0, pr_fit = fit, pr_rotation = 0, pr_flip_horizontal = 0,
     pr_flip_vertical = 0, pr_background_rgba = 0\<rparr>"

lemma padded_readable: "readable_frame padded_frame"
  by (simp add: readable_frame_def padded_frame_def region_inside_def chroma_def)

section \<open>Properties\<close>





end
