(* ===== verification/Conversion.thy ===== *)
theory Conversion
  imports FrameSafety "HOL-Library.Multiset"
begin

text \<open>
  Decoded frames on their way to the caller: the conversions of src/frame_conversion.cpp with their
  stripes, the four-to-three byte packer of src/packed_pixel_conversion.cpp and the worker pool of
  src/cpu_conversion_workers.cpp. What a conversion does to the destination is the list of its
  writes; running stripes in parallel is running their writes in any order. libyuv and Highway are
  parameters; that libyuv converts row by row, and that Highway's interleaving loads and stores
  undo each other, are the predicates \<open>row_by_row\<close> and \<open>interleaving\<close>.
\<close>

section \<open>Writes\<close>

type_synonym writes = "(nat \<times> bytes) list"

fun apply_writes :: "writes \<Rightarrow> bytes \<Rightarrow> bytes option" where
  "apply_writes [] mem = Some mem"
| "apply_writes ((off, bs) # ws) mem =
     (case write_block mem off bs of None \<Rightarrow> None | Some mem' \<Rightarrow> apply_writes ws mem')"

section \<open>Packing four bytes into three\<close>

text \<open>Highway: the number of lanes, a load that splits four-byte pixels into their bytes and a
  store that joins three of them.\<close>

record vector_unit =
  vu_lanes :: nat
  vu_load4 :: "bytes \<Rightarrow> bytes \<times> bytes \<times> bytes \<times> bytes"
  vu_store3 :: "bytes \<Rightarrow> bytes \<Rightarrow> bytes \<Rightarrow> bytes"

function pack_row :: "vector_unit \<Rightarrow> bytes \<Rightarrow> nat \<Rightarrow> nat \<Rightarrow> nat \<Rightarrow> writes" where
  "pack_row unit input base width column =
     (if 0 < vu_lanes unit \<and> column + vu_lanes unit \<le> width
      then (case vu_load4 unit (take (vu_lanes unit * 4) (drop (column * 4) input)) of
              (byte0, byte1, byte2, ignored) \<Rightarrow>
                (base + column * 3, vu_store3 unit byte0 byte1 byte2) #
                pack_row unit input base width (column + vu_lanes unit))
      else map (\<lambda>column. (base + column * 3,
              [input ! (column * 4), input ! (column * 4 + 1), input ! (column * 4 + 2)])) [column..<width])"
  by pat_completeness auto
termination
  by (relation "measure (\<lambda>(unit, input, base, width, column). width - column)") auto

declare pack_row.simps [simp del]

text \<open>The source is the packed scratch image.\<close>

definition pack_four_to_three :: "vector_unit \<Rightarrow> bytes \<Rightarrow> nat \<Rightarrow> nat \<Rightarrow> nat \<Rightarrow> nat \<Rightarrow> writes" where
  "pack_four_to_three unit source base stride width height =
     concat (map (\<lambda>row. pack_row unit (take (width * 4) (drop (row * (width * 4)) source))
                          (base + row * stride) width 0) [0..<height])"

section \<open>Stripes\<close>

text \<open>The packed conversions of libyuv: planes without padding, width and height; the code and the
  packed rows. \<open>pc_highway\<close> tells whether \<^verbatim>\<open>MKVC_USE_HIGHWAY_PACKER\<close> is defined.\<close>

record packed_lib =
  I420ToRGB24 :: "yuv_planes \<Rightarrow> u32 \<Rightarrow> nat \<Rightarrow> int \<times> bytes"
  I420ToRAW :: "yuv_planes \<Rightarrow> u32 \<Rightarrow> nat \<Rightarrow> int \<times> bytes"
  I420ToARGB :: "yuv_planes \<Rightarrow> u32 \<Rightarrow> nat \<Rightarrow> int \<times> bytes"
  I420ToABGR :: "yuv_planes \<Rightarrow> u32 \<Rightarrow> nat \<Rightarrow> int \<times> bytes"
  pl_unit :: vector_unit
  pl_highway :: bool

text \<open>The rows of a packed image as writes.\<close>

definition row_writes :: "nat \<Rightarrow> nat \<Rightarrow> nat \<Rightarrow> nat \<Rightarrow> bytes \<Rightarrow> writes" where
  "row_writes base stride row_bytes height bs =
     map (\<lambda>row. (base + row * stride, take row_bytes (drop (row * row_bytes) bs))) [0..<height]"

text \<open>\<^verbatim>\<open>convert_i420_packed_stripe\<close>, its source given as the planes it reads.\<close>

definition convert_stripe ::
    "packed_lib \<Rightarrow> u32 \<Rightarrow> yuv_planes \<Rightarrow> nat \<Rightarrow> nat \<Rightarrow> u32 \<Rightarrow> nat \<Rightarrow> int \<times> writes" where
  "convert_stripe lib format planes base stride width height =
     (if pl_highway lib \<and> (format = MKVC_PIXEL_FORMAT_BGR24 \<or> format = MKVC_PIXEL_FORMAT_RGB24)
      then (case (if format = MKVC_PIXEL_FORMAT_BGR24 then I420ToARGB lib planes width height
                  else I420ToABGR lib planes width height) of
              (result, scratch) \<Rightarrow>
                if result \<noteq> 0 then (result, [])
                else (0, pack_four_to_three (pl_unit lib) scratch base stride (unat width) height))
      else if format = MKVC_PIXEL_FORMAT_BGR24
      then map_prod (\<lambda>r. r) (row_writes base stride (unat width * 3) height) (I420ToRGB24 lib planes width height)
      else if format = MKVC_PIXEL_FORMAT_RGB24
      then map_prod (\<lambda>r. r) (row_writes base stride (unat width * 3) height) (I420ToRAW lib planes width height)
      else map_prod (\<lambda>r. r) (row_writes base stride (unat width * 4) height) (I420ToARGB lib planes width height))"

text \<open>\<^verbatim>\<open>row * stride\<close> is computed in \<^verbatim>\<open>int\<close>: there is no value when it overflows.\<close>

definition int_product :: "nat \<Rightarrow> i32 \<Rightarrow> nat option" where
  "int_product row stride =
     (if 0 \<le> sint stride \<and> int row * sint stride \<le> 2147483647 then Some (nat (int row * sint stride)) else None)"

text \<open>The planes a stripe of \<open>height\<close> rows from \<open>row\<close> on reads.\<close>

definition stripe_planes :: "decoded_frame \<Rightarrow> nat \<Rightarrow> nat \<Rightarrow> yuv_planes option" where
  "stripe_planes f row height =
     (let plane = (\<lambda>k r w h. case int_product r (df_strides f ! k) of
             None \<Rightarrow> None
           | Some p \<Rightarrow> read_region (df_pixels f) (df_offsets f ! k + p) (unat (df_strides f ! k)) w h);
          cw = chroma (df_width f); ch = (height + 1) div 2
      in case plane 0 row (unat (df_width f)) height of None \<Rightarrow> None
       | Some y \<Rightarrow> (case plane 1 (row div 2) cw ch of None \<Rightarrow> None
       | Some u \<Rightarrow> (case plane 2 (row div 2) cw ch of None \<Rightarrow> None
       | Some v \<Rightarrow> Some (y, u, v))))"

definition run_stripe :: "packed_lib \<Rightarrow> u32 \<Rightarrow> decoded_frame \<Rightarrow> i32 \<Rightarrow> nat \<times> nat \<Rightarrow> (int \<times> writes) option" where
  "run_stripe lib format f stride stripe = (case stripe of (row, height) \<Rightarrow>
     (case (stripe_planes f row height, int_product row stride) of
        (Some planes, Some base) \<Rightarrow>
          Some (convert_stripe lib format planes base (unat stride) (df_width f) height)
      | _ \<Rightarrow> None))"

text \<open>The loop that cuts the frame: first rows and heights, from \<open>row\<close> on.\<close>

function stripes :: "nat \<Rightarrow> nat \<Rightarrow> nat \<Rightarrow> (nat \<times> nat) list" where
  "stripes step row height =
     (if step = 0 \<or> height \<le> row then []
      else (row, min step (height - row)) # stripes step (row + step) height)"
  by pat_completeness auto
termination
  by (relation "measure (\<lambda>(step, row, height). height - row)") auto

declare stripes.simps [simp del]

definition kParallelPixelThreshold :: int where
  "kParallelPixelThreshold = 1280 * 720"

text \<open>\<open>auxiliary\<close> is the number of threads of the pool.\<close>

definition cpu_conversion_parallelism :: "nat \<Rightarrow> u32 \<Rightarrow> nat" where
  "cpu_conversion_parallelism auxiliary requested =
     (if requested = 1 then 1
      else let available = auxiliary + 1
      in if requested = 0 then available else min (unat requested) available)"

definition conversion_plan :: "nat \<Rightarrow> u32 \<Rightarrow> nat \<Rightarrow> nat \<Rightarrow> (nat \<times> nat) list" where
  "conversion_plan auxiliary requested width height =
     (let worker_count = (if int width * int height \<ge> kParallelPixelThreshold
                          then cpu_conversion_parallelism auxiliary requested else 1)
      in if worker_count = 1 then [(0, height)]
         else let rows_per_worker = 2 * (((height + worker_count - 1) div worker_count + 1) div 2)
         in (0, min rows_per_worker height) # stripes rows_per_worker rows_per_worker height)"

text \<open>All stripes: their codes ored, the writes of each. The order in which the writes reach the
  memory is up to the scheduler.\<close>

fun run_stripes :: "packed_lib \<Rightarrow> u32 \<Rightarrow> decoded_frame \<Rightarrow> i32 \<Rightarrow> (nat \<times> nat) list \<Rightarrow> (int \<times> writes list) option" where
  "run_stripes lib format f stride [] = Some (0, [])"
| "run_stripes lib format f stride (s # ss) =
     (case run_stripe lib format f stride s of
        None \<Rightarrow> None
      | Some (r, ws) \<Rightarrow>
          (case run_stripes lib format f stride ss of
             None \<Rightarrow> None
           | Some (rs, wss) \<Rightarrow> Some (or r rs, ws # wss)))"

definition convert_i420_packed ::
    "packed_lib \<Rightarrow> (writes list \<Rightarrow> writes) \<Rightarrow> nat \<Rightarrow> u32 \<Rightarrow> u32 \<Rightarrow> decoded_frame \<Rightarrow> i32 \<Rightarrow> bytes \<Rightarrow> (int \<times> bytes) option" where
  "convert_i420_packed lib schedule auxiliary requested format f stride mem =
     (case run_stripes lib format f stride
             (conversion_plan auxiliary requested (unat (df_width f)) (unat (df_height f))) of
        None \<Rightarrow> None
      | Some (result, wss) \<Rightarrow> map_option (Pair result) (apply_writes (schedule wss) mem))"


text \<open>\<^verbatim>\<open>copy_frame_to\<close>. The destination's planes are blocks of memory of its caller; \<open>lib_copy\<close> and
  \<open>to_nv12\<close> are libyuv's \<^verbatim>\<open>I420Copy\<close> and \<^verbatim>\<open>I420ToNV12\<close>. There is no value when a plane is too
  small for what libyuv writes, or when an \<^verbatim>\<open>int\<close> overflows.\<close>

definition store_plane :: "frame_view \<Rightarrow> nat \<Rightarrow> nat \<Rightarrow> nat \<Rightarrow> bytes \<Rightarrow> frame_view option" where
  "store_plane view k w h bs =
     (case fv_planes view k of
        None \<Rightarrow> None
      | Some p \<Rightarrow> map_option (\<lambda>mem. view\<lparr>fv_planes := (fv_planes view)(k \<mapsto> p\<lparr>memory := mem\<rparr>)\<rparr>)
          (write_region (memory p) 0 (unat (fv_strides view k)) w h bs))"

definition bytes_per_pixel :: "u32 \<Rightarrow> int" where
  "bytes_per_pixel format = (if format = MKVC_PIXEL_FORMAT_BGRA32 then 4 else 3)"

definition read_whole :: "decoded_frame \<Rightarrow> yuv_planes option" where
  "read_whole f = read_i420 f 0 0 (df_width f) (df_height f)"

definition stride_below :: "frame_view \<Rightarrow> nat \<Rightarrow> int \<Rightarrow> bool" where
  "stride_below view k n \<longleftrightarrow> fv_planes view k = None \<or> sint (fv_strides view k) < n"

definition copy_frame_to ::
    "packed_lib \<Rightarrow> i420_lib \<Rightarrow> (yuv_planes \<Rightarrow> u32 \<Rightarrow> u32 \<Rightarrow> int \<times> bytes \<times> bytes) \<Rightarrow> (writes list \<Rightarrow> writes) \<Rightarrow>
     nat \<Rightarrow> u32 \<Rightarrow> decoded_frame \<Rightarrow> frame_view \<Rightarrow> (status \<times> frame_view) option" where
  "copy_frame_to lib copier to_nv12 schedule auxiliary requested source destination =
     (let width = sint (df_width source); w = unat (df_width source); h = unat (df_height source);
          cw = chroma (df_width source); ch = chroma (df_height source);
          format = fv_pixel_format destination;
          finish = (\<lambda>call. case call of
              None \<Rightarrow> None
            | Some (result, view) \<Rightarrow>
                Some (if result \<noteq> (0 :: int)
                      then ((MKVC_ERROR_INTERNAL, ''libyuv failed to convert decoded frame''), view)
                      else (ok, view\<lparr>fv_pts := df_pts_ns source\<rparr>)))
      in if fv_width destination \<noteq> df_width source \<or> fv_height destination \<noteq> df_height source
         then Some ((MKVC_ERROR_INVALID_ARGUMENT, ''destination dimensions do not match decoded frame''), destination)
         else if format = MKVC_PIXEL_FORMAT_I420 then
           if stride_below destination 0 width \<or> stride_below destination 1 (width div 2) \<or> stride_below destination 2 (width div 2)
           then Some ((MKVC_ERROR_INVALID_ARGUMENT, ''I420 destination planes or strides are invalid''), destination)
           else (case read_whole source of None \<Rightarrow> None
             | Some planes \<Rightarrow> (case lib_copy copier planes (df_width source) (df_height source) of (result, y, u, v) \<Rightarrow>
                 if result \<noteq> 0 then finish (Some (result, destination))
                 else (case store_plane destination 0 w h y of None \<Rightarrow> None
                   | Some d1 \<Rightarrow> (case store_plane d1 1 cw ch u of None \<Rightarrow> None
                   | Some d2 \<Rightarrow> (case store_plane d2 2 cw ch v of None \<Rightarrow> None
                   | Some d3 \<Rightarrow> finish (Some (0, d3)))))))
         else if format = MKVC_PIXEL_FORMAT_NV12 then
           if stride_below destination 0 width \<or> stride_below destination 1 width
           then Some ((MKVC_ERROR_INVALID_ARGUMENT, ''NV12 destination planes or strides are invalid''), destination)
           else (case read_whole source of None \<Rightarrow> None
             | Some planes \<Rightarrow> (case to_nv12 planes (df_width source) (df_height source) of (result, y, uv) \<Rightarrow>
                 if result \<noteq> 0 then finish (Some (result, destination))
                 else (case store_plane destination 0 w h y of None \<Rightarrow> None
                   | Some d1 \<Rightarrow> (case store_plane d1 1 (2 * cw) ch uv of None \<Rightarrow> None
                   | Some d2 \<Rightarrow> finish (Some (0, d2))))))
         else if format = MKVC_PIXEL_FORMAT_BGR24 \<or> format = MKVC_PIXEL_FORMAT_RGB24 \<or> format = MKVC_PIXEL_FORMAT_BGRA32 then
           if fv_planes destination 0 \<noteq> None \<and> width * bytes_per_pixel format > 2147483647 then None
           else if stride_below destination 0 (width * bytes_per_pixel format)
           then Some ((MKVC_ERROR_INVALID_ARGUMENT, ''packed destination pointer or stride is invalid''), destination)
           else (case fv_planes destination 0 of None \<Rightarrow> None
             | Some p \<Rightarrow> finish (map_option (\<lambda>(result, mem).
                   (result, destination\<lparr>fv_planes := (fv_planes destination)(0 \<mapsto> p\<lparr>memory := mem\<rparr>)\<rparr>))
                 (convert_i420_packed lib schedule auxiliary requested format source (fv_strides destination 0) (memory p))))
         else Some ((MKVC_ERROR_NOT_SUPPORTED, ''unsupported destination pixel format''), destination))"

section \<open>Writes that do not meet\<close>

definition covers :: "nat \<times> bytes \<Rightarrow> nat \<Rightarrow> bool" where
  "covers w i \<longleftrightarrow> fst w \<le> i \<and> i < fst w + length (snd w)"

definition disjoint_writes :: "(nat \<times> bytes) set \<Rightarrow> bool" where
  "disjoint_writes W \<longleftrightarrow> (\<forall>w \<in> W. \<forall>w' \<in> W. \<forall>i. covers w i \<longrightarrow> covers w' i \<longrightarrow> w = w')"

definition writes_inside :: "(nat \<times> bytes) set \<Rightarrow> nat \<Rightarrow> bool" where
  "writes_inside W n \<longleftrightarrow> (\<forall>w \<in> W. fst w + length (snd w) \<le> n)"

lemma write_block_nth:
  "write_block mem off bs = Some mem' \<Longrightarrow> i < length mem \<Longrightarrow>
   mem' ! i = (if covers (off, bs) i then bs ! (i - off) else mem ! i)"
  by (auto simp: write_block_def covers_def nth_append split: if_splits)

lemma apply_writes_succeeds:
  "writes_inside (set ws) (length mem) \<Longrightarrow> \<exists>mem'. apply_writes ws mem = Some mem' \<and> length mem' = length mem"
proof (induction ws arbitrary: mem)
  case Nil
  then show ?case by simp
next
  case (Cons w ws)
  obtain off bs where w: "w = (off, bs)" by (cases w)
  have "off + length bs \<le> length mem" using Cons.prems by (simp add: w writes_inside_def)
  then obtain mid where mid: "write_block mem off bs = Some mid" "length mid = length mem"
    using write_block_length by (fastforce simp: write_block_def)
  have "writes_inside (set ws) (length mid)" using Cons.prems mid(2) by (simp add: writes_inside_def)
  from Cons.IH [OF this] show ?case using mid by (simp add: w)
qed

lemma apply_writes_nth:
  "disjoint_writes (set ws) \<Longrightarrow> apply_writes ws mem = Some mem' \<Longrightarrow> i < length mem \<Longrightarrow>
   length mem' = length mem \<and>
   (\<forall>w \<in> set ws. covers w i \<longrightarrow> mem' ! i = snd w ! (i - fst w)) \<and>
   ((\<forall>w \<in> set ws. \<not> covers w i) \<longrightarrow> mem' ! i = mem ! i)"
proof (induction ws arbitrary: mem)
  case Nil
  then show ?case by simp
next
  case (Cons w ws)
  obtain off bs where w: "w = (off, bs)" by (cases w)
  obtain mid where mid: "write_block mem off bs = Some mid" "apply_writes ws mid = Some mem'"
    using Cons.prems(2) by (auto simp: w split: option.splits)
  have len: "length mid = length mem" using write_block_length [OF mid(1)] .
  have "disjoint_writes (set ws)" using Cons.prems(1) by (simp add: disjoint_writes_def)
  from Cons.IH [OF this mid(2)] Cons.prems(3) len
  have IH: "length mem' = length mid" "\<forall>w \<in> set ws. covers w i \<longrightarrow> mem' ! i = snd w ! (i - fst w)"
      "(\<forall>w \<in> set ws. \<not> covers w i) \<longrightarrow> mem' ! i = mid ! i"
    by auto
  have here: "mid ! i = (if covers w i then bs ! (i - off) else mem ! i)"
    using write_block_nth [OF mid(1) Cons.prems(3)] by (simp add: w)
  have same: "w' = w" if "w' \<in> set ws" "covers w' i" "covers w i" for w'
    using Cons.prems(1) that unfolding disjoint_writes_def by (meson list.set_intros)
  show ?case
  proof (intro conjI ballI impI)
    show "length mem' = length mem" using IH(1) len by simp
    show "mem' ! i = snd v ! (i - fst v)" if v: "v \<in> set (w # ws)" "covers v i" for v
    proof (cases "\<exists>w' \<in> set ws. covers w' i")
      case True
      then obtain w' where w': "w' \<in> set ws" "covers w' i" by blast
      have "v = w'" using v w' Cons.prems(1) unfolding disjoint_writes_def by (meson list.set_intros)
      then show ?thesis using IH(2) w' by blast
    next
      case False
      then have "v = w" using v by auto
      then show ?thesis using False IH(3) here v(2) by (simp add: w)
    qed
    show "mem' ! i = mem ! i" if "\<forall>v \<in> set (w # ws). \<not> covers v i"
      using that IH(3) here by simp
  qed
qed

lemma apply_writes_any_order:
  assumes "disjoint_writes (set ws)" "writes_inside (set ws) (length mem)" "set ws' = set ws"
  shows "apply_writes ws' mem = apply_writes ws mem"
proof -
  obtain m where m: "apply_writes ws mem = Some m" "length m = length mem"
    using apply_writes_succeeds [OF assms(2)] by blast
  obtain m' where m': "apply_writes ws' mem = Some m'" "length m' = length mem"
    using apply_writes_succeeds [of ws' mem] assms by auto
  have "m' = m"
  proof (rule nth_equalityI)
    show "length m' = length m" using m m' by simp
    show "m' ! i = m ! i" if "i < length m'" for i
      using apply_writes_nth [OF assms(1) m(1), of i] apply_writes_nth [OF _ m'(1), of i] assms(1,3) that m' 
      by (metis (no_types, lifting))
  qed
  then show ?thesis using m m' by simp
qed


section \<open>The packer\<close>

definition pixel3 :: "bytes \<Rightarrow> nat \<Rightarrow> bytes" where
  "pixel3 input i = [input ! (i * 4), input ! (i * 4 + 1), input ! (i * 4 + 2)]"

text \<open>What Highway documents of \<^verbatim>\<open>LoadInterleaved4\<close> and \<^verbatim>\<open>StoreInterleaved3\<close>.\<close>

definition interleaving :: "vector_unit \<Rightarrow> bool" where
  "interleaving unit \<longleftrightarrow> 0 < vu_lanes unit \<and>
     (\<forall>px. vu_load4 unit px = (map (\<lambda>i. px ! (i * 4)) [0..<vu_lanes unit], map (\<lambda>i. px ! (i * 4 + 1)) [0..<vu_lanes unit],
        map (\<lambda>i. px ! (i * 4 + 2)) [0..<vu_lanes unit], map (\<lambda>i. px ! (i * 4 + 3)) [0..<vu_lanes unit])) \<and>
     (\<forall>a b c. vu_store3 unit a b c = concat (map (\<lambda>i. [a ! i, b ! i, c ! i]) [0..<vu_lanes unit]))"

lemma length_pixel: "length (pixel3 input i) = 3"
  by (simp add: pixel3_def)

lemma length_pixels: "length (concat (map (pixel3 input) xs)) = 3 * length xs"
  by (induction xs) (simp_all add: pixel3_def)

lemma vector_pixels:
  assumes "interleaving unit" "column + vu_lanes unit \<le> width" "length input = width * 4"
  shows "(case vu_load4 unit (take (vu_lanes unit * 4) (drop (column * 4) input)) of
            (byte0, byte1, byte2, ignored) \<Rightarrow> vu_store3 unit byte0 byte1 byte2) =
         concat (map (pixel3 input) [column..<column + vu_lanes unit])"
proof -
  let ?px = "take (vu_lanes unit * 4) (drop (column * 4) input)"
  have at: "?px ! (i * 4 + k) = input ! ((column + i) * 4 + k)" if "i < vu_lanes unit" "k < 4" for i k
    using assms(2,3) that by (simp add: algebra_simps)
  have cols: "[column..<column + vu_lanes unit] = map (\<lambda>i. column + i) [0..<vu_lanes unit]"
    by (simp add: map_add_upt add.commute)
  have each: "[?px ! (i * 4), ?px ! (i * 4 + 1), ?px ! (i * 4 + 2)] = pixel3 input (column + i)"
    if "i \<in> set [0..<vu_lanes unit]" for i
    using that at [of i 0] at [of i 1] at [of i 2] by (simp add: pixel3_def)
  have "vu_store3 unit (map (\<lambda>i. ?px ! (i * 4)) [0..<vu_lanes unit]) (map (\<lambda>i. ?px ! (i * 4 + 1)) [0..<vu_lanes unit])
      (map (\<lambda>i. ?px ! (i * 4 + 2)) [0..<vu_lanes unit]) =
      concat (map (\<lambda>i. [?px ! (i * 4), ?px ! (i * 4 + 1), ?px ! (i * 4 + 2)]) [0..<vu_lanes unit])"
    using assms(1) unfolding interleaving_def by (auto intro!: arg_cong [where f = concat] map_cong)
  also have "\<dots> = concat (map (\<lambda>i. pixel3 input (column + i)) [0..<vu_lanes unit])"
    by (rule arg_cong [where f = concat], rule map_cong [OF refl], rule each)
  finally show ?thesis using assms(1) unfolding interleaving_def cols by (simp add: comp_def)
qed

text \<open>A block written into memory, seen from behind and from the front.\<close>

lemma splice_drop:
  "length bs = n \<Longrightarrow> off + n \<le> m \<Longrightarrow> off \<le> length mem \<Longrightarrow>
   drop m (take off mem @ bs @ drop (off + n) mem) = drop m mem"
  by (simp add: drop_append min_def)

lemma splice_take:
  "length bs = n \<Longrightarrow> off \<le> length mem \<Longrightarrow> take (off + n) (take off mem @ bs @ rest) = take off mem @ bs"
  by simp

lemma apply_write_block:
  "off + length bs \<le> length mem \<Longrightarrow>
   apply_writes ((off, bs) # ws) mem = apply_writes ws (take off mem @ bs @ drop (off + length bs) mem)"
  by (simp add: write_block_def)

lemma scalar_tail:
  "base + width * 3 \<le> length mem \<Longrightarrow> column \<le> width \<Longrightarrow>
   apply_writes (map (\<lambda>c. (base + c * 3, pixel3 input c)) [column..<width]) mem =
     Some (take (base + column * 3) mem @ concat (map (pixel3 input) [column..<width]) @ drop (base + width * 3) mem)"
proof (induction "width - column" arbitrary: column mem)
  case 0
  then show ?case by simp
next
  case (Suc n)
  then have c: "column < width" and n: "n = width - Suc column" by simp_all
  let ?mem = "take (base + column * 3) mem @ pixel3 input column @ drop (base + column * 3 + 3) mem"
  have fits: "base + column * 3 + 3 \<le> length mem" using Suc.prems(1) c by simp
  have len: "length ?mem = length mem" using fits by (simp add: pixel3_def)
  have parts: "take (base + Suc column * 3) ?mem = take (base + column * 3) mem @ pixel3 input column"
      "drop (base + width * 3) ?mem = drop (base + width * 3) mem"
    using fits c splice_take [of "pixel3 input column" 3 "base + column * 3" mem "drop (base + column * 3 + 3) mem"]
      splice_drop [of "pixel3 input column" 3 "base + column * 3" "base + width * 3" mem]
    by (simp_all add: pixel3_def algebra_simps)
  have "apply_writes (map (\<lambda>c. (base + c * 3, pixel3 input c)) [column..<width]) mem =
      apply_writes (map (\<lambda>c. (base + c * 3, pixel3 input c)) [Suc column..<width]) ?mem"
    using fits by (subst upt_conv_Cons [OF c]) (simp add: write_block_def length_pixel)
  also have "\<dots> = Some (take (base + Suc column * 3) ?mem @ concat (map (pixel3 input) [Suc column..<width]) @ drop (base + width * 3) ?mem)"
    using Suc.hyps(1) [OF n, of ?mem] Suc.prems c len by simp
  finally show ?case unfolding parts using c by (simp add: upt_conv_Cons)
qed

lemma pack_row_exact:
  "interleaving unit \<Longrightarrow> length input = width * 4 \<Longrightarrow> base + width * 3 \<le> length mem \<Longrightarrow> column \<le> width \<Longrightarrow>
   apply_writes (pack_row unit input base width column) mem =
     Some (take (base + column * 3) mem @ concat (map (pixel3 input) [column..<width]) @ drop (base + width * 3) mem)"
proof (induction unit input base width column arbitrary: mem rule: pack_row.induct)
  case (1 unit input base width column)
  let ?l = "vu_lanes unit"
  show ?case
  proof (cases "column + ?l \<le> width")
    case False
    then show ?thesis
      using scalar_tail [OF "1.prems"(3,4), of input]
      by (subst pack_row.simps) (simp add: pixel3_def)
  next
    case True
    obtain b0 b1 b2 b3 where load: "vu_load4 unit (take (?l * 4) (drop (column * 4) input)) = (b0, b1, b2, b3)"
      by (rule prod_cases4)
    let ?bs = "concat (map (pixel3 input) [column..<column + ?l])"
    have stored: "vu_store3 unit b0 b1 b2 = ?bs"
      using vector_pixels [OF "1.prems"(1) True "1.prems"(2)] by (simp add: load)
    have l: "0 < ?l" using "1.prems"(1) by (simp add: interleaving_def)
    have lbs: "length ?bs = 3 * ?l" by (simp add: length_pixels)
    let ?mem = "take (base + column * 3) mem @ ?bs @ drop (base + column * 3 + 3 * ?l) mem"
    have fits: "base + column * 3 + 3 * ?l \<le> length mem" using "1.prems"(3) True by simp
    have len: "length ?mem = length mem" using fits lbs by simp
    have parts: "take (base + (column + ?l) * 3) ?mem = take (base + column * 3) mem @ ?bs"
        "drop (base + width * 3) ?mem = drop (base + width * 3) mem"
      using fits lbs True splice_take [OF lbs, of "base + column * 3" mem "drop (base + column * 3 + 3 * ?l) mem"]
        splice_drop [OF lbs, of "base + column * 3" "base + width * 3" mem]
      by (simp_all add: algebra_simps)
    have "apply_writes (pack_row unit input base width column) mem =
        apply_writes (pack_row unit input base width (column + ?l)) ?mem"
      using True l load stored fits lbs
      by (subst pack_row.simps) (simp add: write_block_def)
    also have "\<dots> = Some (take (base + (column + ?l) * 3) ?mem @ concat (map (pixel3 input) [column + ?l..<width]) @ drop (base + width * 3) ?mem)"
      using True l len "1.prems" by (intro "1.IH" [OF _ load [symmetric]]) simp_all
    moreover have "[column..<width] = [column..<column + ?l] @ [column + ?l..<width]"
      using upt_add_eq_append [of column "column + ?l" "width - (column + ?l)"] True by simp
    ultimately show ?thesis unfolding parts by simp
  qed
qed


section \<open>Stripes of a frame\<close>

lemma slice_concat:
  "\<forall>x \<in> set xss. length x = n \<Longrightarrow> r < length xss \<Longrightarrow> take n (drop (r * n) (concat xss)) = xss ! r"
proof (induction xss arbitrary: r)
  case Nil
  then show ?case by simp
next
  case (Cons x xss)
  then show ?case by (cases r) (auto simp: algebra_simps)
qed

lemma region_row:
  assumes "region_inside mem base stride w h" "r < h"
  shows "length (take w (drop (base + r * stride) mem)) = w"
proof (cases "w = 0")
  case False
  have "r * stride \<le> (h - 1) * stride" using assms(2) by (intro mult_le_mono1) simp
  moreover have "base + (h - 1) * stride + w \<le> length mem" using assms False by (auto simp: region_inside_def)
  ultimately have "base + r * stride + w \<le> length mem" by linarith
  then show ?thesis by simp
qed simp

lemma read_region_rows:
  assumes "region_inside mem base stride w h"
  shows "\<exists>bs. read_region mem base stride w h = Some bs \<and> length bs = w * h \<and>
    (\<forall>r < h. take w (drop (r * w) bs) = take w (drop (base + r * stride) mem))"
proof -
  let ?rows = "map (\<lambda>row. take w (drop (base + row * stride) mem)) [0..<h]"
  have each: "\<forall>x \<in> set ?rows. length x = w" using region_row [OF assms] by auto
  have rows: "packed_rows (drop base mem) stride w h = concat ?rows" by (simp add: packed_rows_def add.commute)
  have "read_region mem base stride w h = Some (concat ?rows)" using assms by (simp add: read_region_def rows)
  moreover have "length (concat xss) = w * length xss" if "\<forall>x \<in> set xss. length x = w" for xss :: "bytes list"
    using that by (induction xss) simp_all
  from this [OF each] have "length (concat ?rows) = w * h" by simp
  moreover have "take w (drop (r * w) (concat ?rows)) = take w (drop (base + r * stride) mem)" if "r < h" for r
    using slice_concat [OF each, of r] that by simp
  ultimately show ?thesis by blast
qed

text \<open>What libyuv documents: every row is converted on its own, from one row of luma and the chroma
  rows of half its number.\<close>

definition row_by_row :: "(bytes \<Rightarrow> bytes \<Rightarrow> bytes \<Rightarrow> bytes) \<Rightarrow> nat \<Rightarrow> (yuv_planes \<Rightarrow> u32 \<Rightarrow> nat \<Rightarrow> int \<times> bytes) \<Rightarrow> bool" where
  "row_by_row kern channels call \<longleftrightarrow>
     (\<forall>a b c. length (kern a b c) = length a * channels) \<and>
     (\<forall>y u v w h. length y = unat w * h \<longrightarrow> length u = chroma w * ((h + 1) div 2) \<longrightarrow> length v = chroma w * ((h + 1) div 2) \<longrightarrow>
        call (y, u, v) w h = (0, concat (map (\<lambda>r. kern (take (unat w) (drop (r * unat w) y))
           (take (chroma w) (drop (r div 2 * chroma w) u)) (take (chroma w) (drop (r div 2 * chroma w) v))) [0..<h])))"

record kernels =
  k_RGB24 :: "bytes \<Rightarrow> bytes \<Rightarrow> bytes \<Rightarrow> bytes"
  k_RAW :: "bytes \<Rightarrow> bytes \<Rightarrow> bytes \<Rightarrow> bytes"
  k_ARGB :: "bytes \<Rightarrow> bytes \<Rightarrow> bytes \<Rightarrow> bytes"
  k_ABGR :: "bytes \<Rightarrow> bytes \<Rightarrow> bytes \<Rightarrow> bytes"

definition packed_lib_rows :: "kernels \<Rightarrow> packed_lib \<Rightarrow> bool" where
  "packed_lib_rows ks lib \<longleftrightarrow>
     row_by_row (k_RGB24 ks) 3 (I420ToRGB24 lib) \<and> row_by_row (k_RAW ks) 3 (I420ToRAW lib) \<and>
     row_by_row (k_ARGB ks) 4 (I420ToARGB lib) \<and> row_by_row (k_ABGR ks) 4 (I420ToABGR lib) \<and>
     interleaving (pl_unit lib)"

text \<open>Row \<open>r\<close> of plane \<open>k\<close>, and what is written for row \<open>r\<close> of the frame.\<close>

definition frame_row :: "decoded_frame \<Rightarrow> nat \<Rightarrow> nat \<Rightarrow> nat \<Rightarrow> bytes" where
  "frame_row f k n r = take n (drop (df_offsets f ! k + r * unat (df_strides f ! k)) (df_pixels f))"

definition on_row :: "decoded_frame \<Rightarrow> (bytes \<Rightarrow> bytes \<Rightarrow> bytes \<Rightarrow> bytes) \<Rightarrow> nat \<Rightarrow> bytes" where
  "on_row f kern r = kern (frame_row f 0 (unat (df_width f)) r)
     (frame_row f 1 (chroma (df_width f)) (r div 2)) (frame_row f 2 (chroma (df_width f)) (r div 2))"

definition row_plan :: "packed_lib \<Rightarrow> kernels \<Rightarrow> u32 \<Rightarrow> decoded_frame \<Rightarrow> nat \<Rightarrow> nat \<Rightarrow> writes" where
  "row_plan lib ks format f stride r =
     (let packed = (\<lambda>kern. pack_row (pl_unit lib) (on_row f kern r) (r * stride) (unat (df_width f)) 0)
      in if format = MKVC_PIXEL_FORMAT_BGR24
         then if pl_highway lib then packed (k_ARGB ks) else [(r * stride, on_row f (k_RGB24 ks) r)]
         else if format = MKVC_PIXEL_FORMAT_RGB24
         then if pl_highway lib then packed (k_ABGR ks) else [(r * stride, on_row f (k_RAW ks) r)]
         else [(r * stride, on_row f (k_ARGB ks) r)])"


definition products_fit :: "nat \<Rightarrow> i32 \<Rightarrow> bool" where
  "products_fit height stride \<longleftrightarrow> 0 \<le> sint stride \<and> int height * sint stride \<le> 2147483647"

lemma int_product_fits:
  assumes "products_fit height stride" "row \<le> height"
  shows "int_product row stride = Some (row * unat stride)"
proof -
  have s: "sint stride = int (unat stride)"
    using assms(1) u32_less [of stride] by (auto simp: products_fit_def sint_u32 split: if_splits)
  have "int row * sint stride \<le> int height * sint stride"
    using assms by (intro mult_right_mono) (simp_all add: products_fit_def)
  then have "int row * sint stride \<le> 2147483647" using assms(1) by (simp add: products_fit_def)
  moreover have "nat (int row * sint stride) = row * unat stride" unfolding s of_nat_mult [symmetric] nat_int ..
  ultimately show ?thesis using assms(1) by (simp add: int_product_def products_fit_def)
qed

definition convertible_frame :: "decoded_frame \<Rightarrow> bool" where
  "convertible_frame f \<longleftrightarrow> readable_frame f \<and> even (unat (df_height f)) \<and>
     list_all (\<lambda>k. products_fit (unat (df_height f)) (df_strides f ! k)) [0, 1, 2]"

lemma stripe_planes_rows:
  assumes f: "convertible_frame f" and row: "even row" "row + height \<le> unat (df_height f)"
  obtains y u v where "stripe_planes f row height = Some (y, u, v)"
    "length y = unat (df_width f) * height" "length u = chroma (df_width f) * ((height + 1) div 2)"
    "length v = chroma (df_width f) * ((height + 1) div 2)"
    "\<And>r. r < height \<Longrightarrow> take (unat (df_width f)) (drop (r * unat (df_width f)) y) = frame_row f 0 (unat (df_width f)) (row + r)"
    "\<And>r. r < height \<Longrightarrow> take (chroma (df_width f)) (drop (r div 2 * chroma (df_width f)) u) = frame_row f 1 (chroma (df_width f)) ((row + r) div 2)"
    "\<And>r. r < height \<Longrightarrow> take (chroma (df_width f)) (drop (r div 2 * chroma (df_width f)) v) = frame_row f 2 (chroma (df_width f)) ((row + r) div 2)"
proof -
  have fit: "products_fit (unat (df_height f)) (df_strides f ! k)" if "k = 0 \<or> k = 1 \<or> k = 2" for k
    using f that by (auto simp: convertible_frame_def)
  have region: "region_inside (df_pixels f) (df_offsets f ! k + start * unat (df_strides f ! k)) (unat (df_strides f ! k)) w h"
    if "region_inside (df_pixels f) (df_offsets f ! k) (unat (df_strides f ! k)) w total_rows" "start + h \<le> total_rows" for k start w h total_rows
    by (rule region_sub [OF that(1), where x = 0 and y = start]) (use that in simp_all)
  note readable = f [unfolded convertible_frame_def readable_frame_def]
  have half: "row div 2 + (height + 1) div 2 \<le> chroma (df_height f)"
    using row by (auto simp: chroma_def elim!: evenE)
  have below: "row \<le> unat (df_height f)" "row div 2 \<le> unat (df_height f)" using row(2) by linarith+
  have product: "int_product row (df_strides f ! 0) = Some (row * unat (df_strides f ! 0))"
      "int_product (row div 2) (df_strides f ! 1) = Some (row div 2 * unat (df_strides f ! 1))"
      "int_product (row div 2) (df_strides f ! 2) = Some (row div 2 * unat (df_strides f ! 2))"
    using int_product_fits [OF fit [of 0] below(1)] int_product_fits [OF fit [of 1] below(2)]
      int_product_fits [OF fit [of 2] below(2)] by simp_all
  have regions: "region_inside (df_pixels f) (df_offsets f ! 0 + row * unat (df_strides f ! 0)) (unat (df_strides f ! 0)) (unat (df_width f)) height"
      "region_inside (df_pixels f) (df_offsets f ! 1 + row div 2 * unat (df_strides f ! 1)) (unat (df_strides f ! 1)) (chroma (df_width f)) ((height + 1) div 2)"
      "region_inside (df_pixels f) (df_offsets f ! 2 + row div 2 * unat (df_strides f ! 2)) (unat (df_strides f ! 2)) (chroma (df_width f)) ((height + 1) div 2)"
    using region [OF _ row(2), of 0 "unat (df_width f)"] region [OF _ half, of 1 "chroma (df_width f)"]
      region [OF _ half, of 2 "chroma (df_width f)"] readable by blast+
  obtain y where y: "read_region (df_pixels f) (df_offsets f ! 0 + row * unat (df_strides f ! 0)) (unat (df_strides f ! 0)) (unat (df_width f)) height = Some y"
      "length y = unat (df_width f) * height"
      "\<forall>r < height. take (unat (df_width f)) (drop (r * unat (df_width f)) y) =
         take (unat (df_width f)) (drop (df_offsets f ! 0 + row * unat (df_strides f ! 0) + r * unat (df_strides f ! 0)) (df_pixels f))"
    using read_region_rows [OF regions(1)] by blast
  obtain u where u: "read_region (df_pixels f) (df_offsets f ! 1 + row div 2 * unat (df_strides f ! 1)) (unat (df_strides f ! 1)) (chroma (df_width f)) ((height + 1) div 2) = Some u"
      "length u = chroma (df_width f) * ((height + 1) div 2)"
      "\<forall>r < (height + 1) div 2. take (chroma (df_width f)) (drop (r * chroma (df_width f)) u) =
         take (chroma (df_width f)) (drop (df_offsets f ! 1 + row div 2 * unat (df_strides f ! 1) + r * unat (df_strides f ! 1)) (df_pixels f))"
    using read_region_rows [OF regions(2)] by blast
  obtain v where v: "read_region (df_pixels f) (df_offsets f ! 2 + row div 2 * unat (df_strides f ! 2)) (unat (df_strides f ! 2)) (chroma (df_width f)) ((height + 1) div 2) = Some v"
      "length v = chroma (df_width f) * ((height + 1) div 2)"
      "\<forall>r < (height + 1) div 2. take (chroma (df_width f)) (drop (r * chroma (df_width f)) v) =
         take (chroma (df_width f)) (drop (df_offsets f ! 2 + row div 2 * unat (df_strides f ! 2) + r * unat (df_strides f ! 2)) (df_pixels f))"
    using read_region_rows [OF regions(3)] by blast
  have sum: "(row + r) div 2 = row div 2 + r div 2" "r < height \<Longrightarrow> r div 2 < (height + 1) div 2" for r
    using row by (auto elim!: evenE)
  show ?thesis
  proof
    show "stripe_planes f row height = Some (y, u, v)"
      using product y(1) u(1) v(1) by (simp add: stripe_planes_def Let_def)
  qed (use y u v sum in \<open>simp_all add: frame_row_def add_mult_distrib add.assoc\<close>)
qed


lemma rows_of_call:
  assumes "row_by_row kern channels call" "call (y, u, v) w h = (rc, bs)"
    and "length y = unat w * h" "length u = chroma w * ((h + 1) div 2)" "length v = chroma w * ((h + 1) div 2)"
  shows "rc = 0" and "r < h \<Longrightarrow> take (unat w * channels) (drop (r * (unat w * channels)) bs) =
    kern (take (unat w) (drop (r * unat w) y)) (take (chroma w) (drop (r div 2 * chroma w) u))
      (take (chroma w) (drop (r div 2 * chroma w) v))"
proof -
  let ?row = "\<lambda>r. kern (take (unat w) (drop (r * unat w) y)) (take (chroma w) (drop (r div 2 * chroma w) u))
      (take (chroma w) (drop (r div 2 * chroma w) v))"
  have call: "call (y, u, v) w h = (0, concat (map ?row [0..<h]))"
    using assms(1,3-5) unfolding row_by_row_def by blast
  then show "rc = 0" using assms(2) by simp
  show "take (unat w * channels) (drop (r * (unat w * channels)) bs) = ?row r" if r: "r < h"
  proof -
    have "length (?row q) = unat w * channels" if "q < h" for q
    proof -
      have "q * unat w + unat w \<le> h * unat w" using that mult_le_mono1 [of "Suc q" h "unat w"] by simp
      then have "length (take (unat w) (drop (q * unat w) y)) = unat w" using assms(3) by (simp add: mult.commute)
      then show ?thesis using assms(1) unfolding row_by_row_def by metis
    qed
    then have "\<forall>x \<in> set (map ?row [0..<h]). length x = unat w * channels" by auto
    from slice_concat [OF this, of r] r call assms(2) show ?thesis by simp
  qed
qed

lemma row_writes_rows:
  assumes "\<And>r. r < height \<Longrightarrow> take n (drop (r * n) bs) = line (row + r)"
  shows "row_writes (row * stride) stride n height bs = map (\<lambda>r. (r * stride, line r)) [row..<row + height]"
proof -
  have "[row..<row + height] = map (\<lambda>r. row + r) [0..<height]" by (simp add: map_add_upt add.commute)
  then show ?thesis using assms by (simp add: row_writes_def add_mult_distrib)
qed

lemma packed_writes_rows:
  assumes "\<And>r. r < height \<Longrightarrow> take (w * 4) (drop (r * (w * 4)) bs) = line (row + r)"
  shows "pack_four_to_three unit bs (row * stride) stride w height =
    concat (map (\<lambda>r. pack_row unit (line r) (r * stride) w 0) [row..<row + height])"
proof -
  have "[row..<row + height] = map (\<lambda>r. row + r) [0..<height]" by (simp add: map_add_upt add.commute)
  then show ?thesis using assms
    by (auto simp: pack_four_to_three_def comp_def add_mult_distrib intro!: arg_cong [where f = concat] map_cong)
qed

lemma concat_singletons: "concat (map (\<lambda>r. [g r]) xs) = map g xs"
  by (induction xs) simp_all


definition packed_format :: "u32 \<Rightarrow> bool" where
  "packed_format format \<longleftrightarrow> format = MKVC_PIXEL_FORMAT_BGR24 \<or> format = MKVC_PIXEL_FORMAT_RGB24 \<or> format = MKVC_PIXEL_FORMAT_BGRA32"

lemma run_stripe_rows:
  assumes lib: "packed_lib_rows ks lib" and f: "convertible_frame f" and format: "packed_format format"
    and stride: "products_fit (unat (df_height f)) stride"
    and row: "even row" "row + height \<le> unat (df_height f)"
  shows "run_stripe lib format f stride (row, height) =
    Some (0, concat (map (row_plan lib ks format f (unat stride)) [row..<row + height]))"
proof -
  obtain y u v where planes: "stripe_planes f row height = Some (y, u, v)"
      and len: "length y = unat (df_width f) * height" "length u = chroma (df_width f) * ((height + 1) div 2)"
        "length v = chroma (df_width f) * ((height + 1) div 2)"
      and at: "\<And>r. r < height \<Longrightarrow> take (unat (df_width f)) (drop (r * unat (df_width f)) y) = frame_row f 0 (unat (df_width f)) (row + r)"
        "\<And>r. r < height \<Longrightarrow> take (chroma (df_width f)) (drop (r div 2 * chroma (df_width f)) u) = frame_row f 1 (chroma (df_width f)) ((row + r) div 2)"
        "\<And>r. r < height \<Longrightarrow> take (chroma (df_width f)) (drop (r div 2 * chroma (df_width f)) v) = frame_row f 2 (chroma (df_width f)) ((row + r) div 2)"
    using stripe_planes_rows [OF f row] by blast
  have base: "int_product row stride = Some (row * unat stride)"
    using int_product_fits [OF stride, of row] row(2) by simp
  have rc: "fst (call (y, u, v) (df_width f) height) = 0" if "row_by_row kern channels call" for kern channels call
    using rows_of_call(1) [OF that _ len, of "fst (call (y, u, v) (df_width f) height)" "snd (call (y, u, v) (df_width f) height)"]
    by simp
  have rows: "take (unat (df_width f) * channels) (drop (r * (unat (df_width f) * channels)) (snd (call (y, u, v) (df_width f) height))) =
      on_row f kern (row + r)" if "row_by_row kern channels call" "r < height" for kern channels call r
    using rows_of_call(2) [OF that(1) _ len that(2), of "fst (call (y, u, v) (df_width f) height)" "snd (call (y, u, v) (df_width f) height)"]
      at [OF that(2)] by (simp add: on_row_def)
  have plain: "row_writes (row * unat stride) (unat stride) (unat (df_width f) * channels) height (snd (call (y, u, v) (df_width f) height)) =
      map (\<lambda>r. (r * unat stride, on_row f kern r)) [row..<row + height]"
    if "row_by_row kern channels call" for kern channels call
    by (rule row_writes_rows) (rule rows [OF that])
  have packed: "pack_four_to_three unit (snd (call (y, u, v) (df_width f) height)) (row * unat stride) (unat stride) (unat (df_width f)) height =
      concat (map (\<lambda>r. pack_row unit (on_row f kern r) (r * unat stride) (unat (df_width f)) 0) [row..<row + height])"
    if "row_by_row kern 4 call" for kern call unit
    by (rule packed_writes_rows) (rule rows [OF that])
  have calls: "row_by_row (k_RGB24 ks) 3 (I420ToRGB24 lib)" "row_by_row (k_RAW ks) 3 (I420ToRAW lib)"
      "row_by_row (k_ARGB ks) 4 (I420ToARGB lib)" "row_by_row (k_ABGR ks) 4 (I420ToABGR lib)"
    using lib by (simp_all add: packed_lib_rows_def)
  have stripe: "run_stripe lib format f stride (row, height) =
      Some (convert_stripe lib format (y, u, v) (row * unat stride) (unat stride) (df_width f) height)"
    by (simp add: run_stripe_def planes base)
  note facts = rc [OF calls(1)] rc [OF calls(2)] rc [OF calls(3)] rc [OF calls(4)]
    plain [OF calls(1)] plain [OF calls(2)] plain [OF calls(3)] packed [OF calls(3)] packed [OF calls(4)]
  show ?thesis
    using format unfolding stripe packed_format_def
    by (elim disjE; cases "pl_highway lib")
      (simp_all add: convert_stripe_def row_plan_def [abs_def] Let_def concat_singletons map_prod_def case_prod_beta facts)
qed


section \<open>The plan\<close>

definition rows_of :: "nat \<times> nat \<Rightarrow> nat list" where
  "rows_of s = [fst s..<fst s + snd s]"

definition good_stripe :: "nat \<Rightarrow> nat \<times> nat \<Rightarrow> bool" where
  "good_stripe height s \<longleftrightarrow> even (fst s) \<and> fst s + snd s \<le> height"

lemma stripes_cover:
  "0 < step \<Longrightarrow> even step \<Longrightarrow> even row \<Longrightarrow>
   list_all (good_stripe height) (stripes step row height) \<and>
   concat (map rows_of (stripes step row height)) = [row..<height]"
proof (induction step row height rule: stripes.induct)
  case (1 step row height)
  show ?case
  proof (cases "height \<le> row")
    case True
    then show ?thesis by (simp add: stripes.simps)
  next
    case False
    let ?n = "min step (height - row)"
    have rest: "list_all (good_stripe height) (stripes step (row + step) height) \<and>
        concat (map rows_of (stripes step (row + step) height)) = [row + step..<height]"
      using "1.prems" False by (intro "1.IH") simp_all
    have "[row..<row + ?n] @ [row + step..<height] = [row..<height]"
    proof (cases "row + step \<le> height")
      case True
      then show ?thesis using upt_add_eq_append [of row "row + step" "height - (row + step)"] by simp
    next
      case not_le: False
      then show ?thesis using False by simp
    qed
    moreover have "stripes step row height = (row, ?n) # stripes step (row + step) height"
      using "1.prems"(1) False by (subst stripes.simps) simp
    moreover have "good_stripe height (row, ?n)" "rows_of (row, ?n) = [row..<row + ?n]"
      using "1.prems" False by (auto simp: rows_of_def good_stripe_def)
    ultimately show ?thesis using rest by simp
  qed
qed

lemma conversion_plan_covers:
  assumes "even height"
  shows "list_all (good_stripe height) (conversion_plan auxiliary requested width height)"
    "concat (map rows_of (conversion_plan auxiliary requested width height)) = [0..<height]"
proof -
  define workers where "workers = (if int width * int height \<ge> kParallelPixelThreshold
      then cpu_conversion_parallelism auxiliary requested else 1)"
  define step where "step = 2 * (((height + workers - 1) div workers + 1) div 2)"
  have plan: "conversion_plan auxiliary requested width height =
      (if workers = 1 then [(0, height)] else (0, min step height) # stripes step step height)"
    by (simp add: conversion_plan_def Let_def step_def flip: workers_def)
  have step: "even step" "workers \<noteq> 1 \<Longrightarrow> 0 < step"
  proof -
    show "even step" by (simp add: step_def)
    assume many: "workers \<noteq> 1"
    have "height = 0 \<Longrightarrow> workers = 1" by (simp add: workers_def kParallelPixelThreshold_def)
    then have "0 < height" using many by (intro gr0I) blast
    moreover have "0 < workers"
      using unat_gt_0 [of requested] by (auto simp: workers_def cpu_conversion_parallelism_def Let_def)
    ultimately have "workers \<le> height + workers - 1" by linarith
    then have "0 < (height + workers - 1) div workers" using \<open>0 < workers\<close> by (simp add: div_greater_zero_iff)
    then show "0 < step" by (simp add: step_def)
  qed
  show "list_all (good_stripe height) (conversion_plan auxiliary requested width height)"
    using stripes_cover [OF _ step(1) step(1), of height] step by (simp add: plan good_stripe_def)
  show "concat (map rows_of (conversion_plan auxiliary requested width height)) = [0..<height]"
  proof (cases "workers = 1")
    case True
    then show ?thesis by (simp add: plan rows_of_def)
  next
    case False
    have "concat (map rows_of (stripes step step height)) = [step..<height]"
      using stripes_cover [OF _ step(1) step(1), of height] step(2) [OF False] by simp
    moreover have "[0..<min step height] @ [step..<height] = [0..<height]"
      using upt_add_eq_append [of 0 step "height - step"] by (cases "step \<le> height") (auto simp: min_def)
    ultimately show ?thesis using False by (simp add: plan rows_of_def)
  qed
qed

lemma run_stripes_rows:
  assumes lib: "packed_lib_rows ks lib" and f: "convertible_frame f" and format: "packed_format format"
    and stride: "products_fit (unat (df_height f)) stride"
  shows "list_all (good_stripe (unat (df_height f))) plan \<Longrightarrow>
    run_stripes lib format f stride plan =
      Some (0, map (\<lambda>s. concat (map (row_plan lib ks format f (unat stride)) (rows_of s))) plan)"
proof (induction plan)
  case Nil
  then show ?case by simp
next
  case (Cons s plan)
  obtain row height where s: "s = (row, height)" by (cases s)
  have "run_stripe lib format f stride s = Some (0, concat (map (row_plan lib ks format f (unat stride)) (rows_of s)))"
    using run_stripe_rows [OF lib f format stride, of row height] Cons.prems by (simp add: s good_stripe_def rows_of_def)
  then show ?case using Cons by simp
qed


section \<open>Rows do not meet\<close>

definition within :: "nat \<Rightarrow> nat \<Rightarrow> (nat \<times> bytes) set \<Rightarrow> bool" where
  "within a b W \<longleftrightarrow> (\<forall>w \<in> W. a \<le> fst w \<and> fst w + length (snd w) \<le> b)"

lemma disjoint_union:
  assumes "disjoint_writes V" "disjoint_writes W" "within a m V" "within m b W"
  shows "disjoint_writes (V \<union> W)"
proof -
  have "covers v i \<Longrightarrow> covers w i \<Longrightarrow> v = w" if "v \<in> V" "w \<in> W" for v w i
  proof -
    assume "covers v i" "covers w i"
    moreover have "fst v + length (snd v) \<le> m" "m \<le> fst w" using assms(3,4) that by (auto simp: within_def)
    ultimately show "v = w" by (simp add: covers_def)
  qed
  then show ?thesis using assms(1,2) unfolding disjoint_writes_def by blast
qed

lemma within_union:
  "within a m V \<Longrightarrow> within m b W \<Longrightarrow> a \<le> m \<Longrightarrow> m \<le> b \<Longrightarrow> within a b (V \<union> W)"
  by (fastforce simp: within_def)

lemma scalar_writes_apart:
  "column \<le> width \<Longrightarrow>
   disjoint_writes (set (map (\<lambda>c. (base + c * 3, pixel3 input c)) [column..<width])) \<and>
   within (base + column * 3) (base + width * 3) (set (map (\<lambda>c. (base + c * 3, pixel3 input c)) [column..<width]))"
proof -
  have "c = c'" if "covers (base + c * 3, pixel3 input c) i" "covers (base + c' * 3, pixel3 input c') i" for c c' i
    using that by (simp add: covers_def length_pixel)
  then show ?thesis unfolding disjoint_writes_def by (auto simp: within_def length_pixel)
qed

lemma pack_row_apart:
  "interleaving unit \<Longrightarrow> column \<le> width \<Longrightarrow> length input = width * 4 \<Longrightarrow>
   disjoint_writes (set (pack_row unit input base width column)) \<and>
   within (base + column * 3) (base + width * 3) (set (pack_row unit input base width column))"
proof (induction unit input base width column rule: pack_row.induct)
  case (1 unit input base width column)
  let ?l = "vu_lanes unit"
  show ?case
  proof (cases "column + ?l \<le> width")
    case False
    then show ?thesis using scalar_writes_apart [OF "1.prems"(2), of base input]
      by (subst (1 2) pack_row.simps) (simp add: pixel3_def)
  next
    case True
    obtain b0 b1 b2 b3 where load: "vu_load4 unit (take (?l * 4) (drop (column * 4) input)) = (b0, b1, b2, b3)"
      by (rule prod_cases4)
    have l: "0 < ?l" using "1.prems"(1) by (simp add: interleaving_def)
    have "length (vu_store3 unit b0 b1 b2) = 3 * ?l"
      using vector_pixels [OF "1.prems"(1) True "1.prems"(3)] by (simp add: load length_pixels)
    then have head: "within (base + column * 3) (base + (column + ?l) * 3) {(base + column * 3, vu_store3 unit b0 b1 b2)}"
      by (simp add: within_def)
    have single: "disjoint_writes {w}" for w by (simp add: disjoint_writes_def)
    have tail: "disjoint_writes (set (pack_row unit input base width (column + ?l)))"
        "within (base + (column + ?l) * 3) (base + width * 3) (set (pack_row unit input base width (column + ?l)))"
      using "1.IH" [OF _ load [symmetric] refl refl] "1.prems" l True by simp_all
    have "pack_row unit input base width column =
        (base + column * 3, vu_store3 unit b0 b1 b2) # pack_row unit input base width (column + ?l)"
      using l True load by (subst pack_row.simps) simp
    then have "set (pack_row unit input base width column) =
        {(base + column * 3, vu_store3 unit b0 b1 b2)} \<union> set (pack_row unit input base width (column + ?l))"
      by simp
    then show ?thesis
      using disjoint_union [OF single tail(1) head tail(2)] within_union [OF head tail(2)] True by simp
  qed
qed

lemma rows_apart:
  assumes "\<And>r. r < h \<Longrightarrow> disjoint_writes (set (R r)) \<and> within (r * stride) (r * stride + n) (set (R r))"
    and "n \<le> stride"
  shows "k \<le> h \<Longrightarrow> disjoint_writes (set (concat (map R [0..<k]))) \<and>
    within 0 ((k - 1) * stride + n) (set (concat (map R [0..<k])))"
proof (induction k)
  case 0
  then show ?case by (simp add: disjoint_writes_def within_def)
next
  case (Suc k)
  show ?case
  proof (cases "k = 0")
    case True
    then show ?thesis using assms(1) [of 0] Suc.prems by simp
  next
    case False
    then have "(k - 1) * stride + n \<le> k * stride" using assms(2) by (cases k) simp_all
    then have before: "within 0 (k * stride) (set (concat (map R [0..<k])))"
      using Suc by (fastforce simp: within_def)
    have here: "disjoint_writes (set (R k))" "within (k * stride) (k * stride + n) (set (R k))"
      using assms(1) [of k] Suc.prems by simp_all
    have "set (concat (map R [0..<Suc k])) = set (concat (map R [0..<k])) \<union> set (R k)" by auto
    then show ?thesis
      using disjoint_union [OF _ here(1) before here(2)] within_union [OF before here(2)] Suc by simp
  qed
qed


section \<open>Parallel conversion is sequential conversion\<close>

lemma row_plan_apart:
  assumes lib: "packed_lib_rows ks lib" and f: "convertible_frame f" and format: "packed_format format"
    and r: "r < unat (df_height f)"
  shows "disjoint_writes (set (row_plan lib ks format f stride r)) \<and>
    within (r * stride) (r * stride + unat (df_width f) * nat (bytes_per_pixel format)) (set (row_plan lib ks format f stride r))"
proof -
  have "region_inside (df_pixels f) (df_offsets f ! 0) (unat (df_strides f ! 0)) (unat (df_width f)) (unat (df_height f))"
    using f by (simp add: convertible_frame_def readable_frame_def)
  from region_row [OF this r] have "length (frame_row f 0 (unat (df_width f)) r) = unat (df_width f)"
    by (simp add: frame_row_def)
  then have len: "length (on_row f kern r) = unat (df_width f) * channels" if "row_by_row kern channels call" for kern channels call
    using that by (simp add: row_by_row_def on_row_def)
  have calls: "row_by_row (k_RGB24 ks) 3 (I420ToRGB24 lib)" "row_by_row (k_RAW ks) 3 (I420ToRAW lib)"
      "row_by_row (k_ARGB ks) 4 (I420ToARGB lib)" "row_by_row (k_ABGR ks) 4 (I420ToABGR lib)"
      "interleaving (pl_unit lib)"
    using lib by (simp_all add: packed_lib_rows_def)
  have single: "disjoint_writes {w} \<and> within a (a + n) {w}" if "fst w = a" "length (snd w) = n" for w a n
    using that by (simp add: disjoint_writes_def within_def)
  show ?thesis
    using format unfolding packed_format_def
    by (elim disjE; cases "pl_highway lib")
      (simp_all add: row_plan_def Let_def single len [OF calls(1)] len [OF calls(2)] len [OF calls(3)] bytes_per_pixel_def
        pack_row_apart [OF calls(5), of 0 "unat (df_width f)", simplified] len [OF calls(4)])
qed

lemma convert_any_schedule:
  assumes lib: "packed_lib_rows ks lib" and f: "convertible_frame f" and format: "packed_format format"
    and stride: "products_fit (unat (df_height f)) stride"
    and room: "int (unat (df_width f)) * bytes_per_pixel format \<le> sint stride"
    and mem: "(unat (df_height f) - 1) * unat stride + unat (df_width f) * nat (bytes_per_pixel format) \<le> length mem"
    and schedule: "\<And>wss. set (schedule wss) = set (concat wss)"
  shows "\<exists>mem'. convert_i420_packed lib schedule auxiliary requested format f stride mem = Some (0, mem') \<and>
    apply_writes (concat (map (row_plan lib ks format f (unat stride)) [0..<unat (df_height f)])) mem = Some mem'"
proof -
  let ?R = "row_plan lib ks format f (unat stride)" and ?h = "unat (df_height f)"
  let ?plan = "conversion_plan auxiliary requested (unat (df_width f)) ?h"
  let ?n = "unat (df_width f) * nat (bytes_per_pixel format)"
  have even: "even ?h" using f by (simp add: convertible_frame_def)
  note cover = conversion_plan_covers [OF even, of auxiliary requested "unat (df_width f)"]
  have run: "run_stripes lib format f stride ?plan = Some (0, map (\<lambda>s. concat (map ?R (rows_of s))) ?plan)"
    by (rule run_stripes_rows [OF lib f format stride cover(1)])
  have all: "concat (map (\<lambda>s. concat (map ?R (rows_of s))) ?plan) = concat (map ?R [0..<?h])"
  proof -
    have "concat (map (\<lambda>s. concat (map ?R (rows_of s))) xs) = concat (map ?R (concat (map rows_of xs)))" for xs
      by (induction xs) simp_all
    then show ?thesis using cover(2) by simp
  qed
  have "int ?n \<le> int (unat stride)"
    using room stride u32_less [of stride] by (auto simp: products_fit_def sint_u32 bytes_per_pixel_def split: if_splits)
  then have "?n \<le> unat stride" by linarith
  from rows_apart [OF row_plan_apart [OF lib f format] this, of ?h ?h]
  have apart: "disjoint_writes (set (concat (map ?R [0..<?h])))" "within 0 ((?h - 1) * unat stride + ?n) (set (concat (map ?R [0..<?h])))"
    by simp_all
  then have inside: "writes_inside (set (concat (map ?R [0..<?h]))) (length mem)"
    using mem by (fastforce simp: within_def writes_inside_def)
  obtain mem' where mem': "apply_writes (concat (map ?R [0..<?h])) mem = Some mem'"
    using apply_writes_succeeds [OF inside] by blast
  have "set (schedule (map (\<lambda>s. concat (map ?R (rows_of s))) ?plan)) = set (concat (map ?R [0..<?h]))"
    using schedule all by metis
  from apply_writes_any_order [OF apart(1) inside this] run mem' show ?thesis
    by (simp add: convert_i420_packed_def)
qed


lemma padding_kept:
  assumes "\<And>r. r < h \<Longrightarrow> within (r * stride) (r * stride + n) (set (R r))"
    and "disjoint_writes (set (concat (map R [0..<h])))" "apply_writes (concat (map R [0..<h])) mem = Some mem'"
    and "i < length mem" "\<And>r. r < h \<Longrightarrow> i < r * stride \<or> r * stride + n \<le> i"
  shows "mem' ! i = mem ! i"
proof -
  have "\<not> covers w i" if "w \<in> set (concat (map R [0..<h]))" for w
  proof -
    from that obtain r where r: "r < h" "w \<in> set (R r)" by auto
    then have "r * stride \<le> fst w" "fst w + length (snd w) \<le> r * stride + n"
      using assms(1) by (auto simp: within_def)
    then show ?thesis using assms(5) [OF r(1)] by (auto simp: covers_def)
  qed
  then show ?thesis using apply_writes_nth [OF assms(2,3,4)] by blast
qed


text \<open>C29. The packer writes the first three of every four bytes of a row, whatever the number of
  lanes and the split between vectors and scalar tail, and nothing outside the row.\<close>

theorem pack_lanes_exact:
  assumes "interleaving unit" and "length input = width * 4" and "base + width * 3 \<le> length mem"
  shows "apply_writes (pack_row unit input base width 0) mem =
    Some (take base mem @ concat (map (\<lambda>i. take 3 (drop (i * 4) input)) [0..<width]) @ drop (base + width * 3) mem)"
proof -
  have "take 3 (drop (i * 4) input) = pixel3 input i" if "i < width" for i
  proof (rule nth_equalityI)
    show "length (take 3 (drop (i * 4) input)) = length (pixel3 input i)" using that assms(2) by (simp add: pixel3_def)
    show "take 3 (drop (i * 4) input) ! j = pixel3 input i ! j" if j: "j < length (take 3 (drop (i * 4) input))" for j
    proof -
      have "j = 0 \<or> j = 1 \<or> j = 2" using j by auto
      then show ?thesis using that \<open>i < width\<close> assms(2) by (auto simp: pixel3_def)
    qed
  qed
  then have pixels: "map (\<lambda>i. take 3 (drop (i * 4) input)) [0..<width] = map (pixel3 input) [0..<width]" by simp
  show ?thesis unfolding pixels using pack_row_exact [OF assms, of 0] by simp
qed


section \<open>Witnesses\<close>

definition gray :: "nat \<Rightarrow> bytes \<Rightarrow> bytes \<Rightarrow> bytes \<Rightarrow> bytes" where
  "gray channels a b c = concat (map (replicate channels) a)"

definition by_rows :: "(bytes \<Rightarrow> bytes \<Rightarrow> bytes \<Rightarrow> bytes) \<Rightarrow> yuv_planes \<Rightarrow> u32 \<Rightarrow> nat \<Rightarrow> int \<times> bytes" where
  "by_rows kern planes w h = (case planes of (y, u, v) \<Rightarrow>
     (0, concat (map (\<lambda>r. kern (take (unat w) (drop (r * unat w) y))
        (take (chroma w) (drop (r div 2 * chroma w) u)) (take (chroma w) (drop (r div 2 * chroma w) v))) [0..<h])))"

definition plain_unit :: "nat \<Rightarrow> vector_unit" where
  "plain_unit lanes = \<lparr>vu_lanes = lanes,
     vu_load4 = (\<lambda>px. (map (\<lambda>i. px ! (i * 4)) [0..<lanes], map (\<lambda>i. px ! (i * 4 + 1)) [0..<lanes],
        map (\<lambda>i. px ! (i * 4 + 2)) [0..<lanes], map (\<lambda>i. px ! (i * 4 + 3)) [0..<lanes])),
     vu_store3 = (\<lambda>a b c. concat (map (\<lambda>i. [a ! i, b ! i, c ! i]) [0..<lanes]))\<rparr>"

definition gray_lib :: packed_lib where
  "gray_lib = \<lparr>I420ToRGB24 = by_rows (gray 3), I420ToRAW = by_rows (gray 3), I420ToARGB = by_rows (gray 4),
     I420ToABGR = by_rows (gray 4), pl_unit = plain_unit 16, pl_highway = True\<rparr>"

definition gray_kernels :: kernels where
  "gray_kernels = \<lparr>k_RGB24 = gray 3, k_RAW = gray 3, k_ARGB = gray 4, k_ABGR = gray 4\<rparr>"

definition big_frame :: decoded_frame where
  "big_frame = \<lparr>df_width = 1280, df_height = 720, df_pts_ns = 40, df_pixels = replicate 1382400 7,
     df_offsets = [0, 921600, 1152000], df_strides = [1280, 640, 640]\<rparr>"

definition big_plane :: mem_ptr where
  "big_plane = \<lparr>address = 64, memory = replicate 2949120 0\<rparr>"

definition big_view :: frame_view where
  "big_view = \<lparr>fv_struct_size = sizeof_frame_view, fv_struct_version = 1, fv_pixel_format = MKVC_PIXEL_FORMAT_BGR24,
     fv_width = 1280, fv_height = 720, fv_planes = [0 \<mapsto> big_plane], fv_strides = (\<lambda>_. 4096), fv_pts = 0\<rparr>"

lemma length_gray: "length (gray n a b c) = length a * n"
  by (induction a) (simp_all add: gray_def)

lemma plain_interleaving: "0 < lanes \<Longrightarrow> interleaving (plain_unit lanes)"
  by (simp add: interleaving_def plain_unit_def)

lemma gray_rows: "packed_lib_rows gray_kernels gray_lib"
  by (simp add: packed_lib_rows_def gray_kernels_def gray_lib_def row_by_row_def length_gray by_rows_def plain_interleaving)

lemma big_convertible: "convertible_frame big_frame"
  by (simp add: convertible_frame_def readable_frame_def region_inside_def big_frame_def chroma_def products_fit_def sint_u32)


lemma conversion_plan_parallel: "conversion_plan 3 0 1280 720 = [(0, 180), (180, 180), (360, 180), (540, 180)]"
  by (simp add: conversion_plan_def kParallelPixelThreshold_def cpu_conversion_parallelism_def Let_def stripes.simps)

theorem pack_lanes_exact_witness:
  "apply_writes (pack_row (plain_unit 2) [1, 2, 3, 4, 5, 6, 7, 8, 9, 10, 11, 12] 1 3 0) (replicate 12 0) =
     Some [0, 1, 2, 3, 5, 6, 7, 9, 10, 11, 0, 0]"
proof -
  have "[0..<3] = [0, 1, 2 :: nat]" "replicate 12 (0 :: u8) = [0, 0, 0, 0, 0, 0, 0, 0, 0, 0, 0, 0]" by code_simp+
  then show ?thesis
    using pack_lanes_exact [OF plain_interleaving, of 2 "[1, 2, 3, 4, 5, 6, 7, 8, 9, 10, 11, 12]" 3 1 "replicate 12 0"]
    by simp
qed

end
