(* ===== verification/Ebml.thy ===== *)
theory Ebml
  imports Prelude
begin

text \<open>
  The bounded EBML header parser of src/container_ebml.cpp: variable-length integers
  (\<open>read_vint\<close>), the walk over the header's elements up to the DocType
  (\<open>parse_header_bytes\<close>) and the in-place rewrite of a size field (\<open>write_size\<close>).
  A \<^verbatim>\<open>std::vector<uint8_t>\<close> is a list of bytes and a \<^verbatim>\<open>size_t\<close> position a natural
  number (no position exceeds the vector's length by more than eight). The facts: reading
  what was written gives the value back, a successful parse stays inside the buffer, and
  the parser reads nothing behind the DocType.
\<close>

section \<open>Definitions\<close>

definition kEbmlHeader :: u64 where
  "kEbmlHeader = 0x1A45DFA3"

definition kDocType :: u64 where
  "kDocType = 0x4282"

record header_info =
  payload_size_position :: nat
  payload_size_width :: nat
  payload_size :: u64
  header_end :: nat
  doc_size_position :: nat
  doc_size_width :: nat
  doc_value_position :: nat
  doc_value_size :: nat
  doc_type :: bytes

definition empty_header_info :: header_info where
  "empty_header_info = \<lparr>payload_size_position = 0, payload_size_width = 0, payload_size = 0,
     header_end = 0, doc_size_position = 0, doc_size_width = 0, doc_value_position = 0,
     doc_value_size = 0, doc_type = []\<rparr>"

text \<open>The search for the marker bit: the mask moves right while the width grows, and
  a width above eight is an error.\<close>

function vint_marker :: "u8 \<Rightarrow> u8 \<Rightarrow> nat \<Rightarrow> (u8 \<times> nat) option" where
  "vint_marker b msk width =
     (if b AND msk \<noteq> 0 then Some (msk, width)
      else if Suc width > 8 then None
      else vint_marker b (drop_bit 1 msk) (Suc width))"
  by pat_completeness auto
termination
  by (relation "measure (\<lambda>(b, msk, width). 9 - width)") auto

declare vint_marker.simps [simp del]

fun vint_accumulate :: "u64 \<Rightarrow> bytes \<Rightarrow> u64" where
  "vint_accumulate value [] = value"
| "vint_accumulate value (b # bs) = vint_accumulate (push_bit 8 value OR ucast b) bs"

text \<open>On success: the value, the width and the position behind the integer.\<close>

definition read_vint :: "bytes \<Rightarrow> nat \<Rightarrow> bool \<Rightarrow> (u64 \<times> nat \<times> nat) option" where
  "read_vint data position keep_marker =
     (if position \<ge> length data \<or> data ! position = 0 then None
      else (case vint_marker (data ! position) 0x80 1 of
        None \<Rightarrow> None
      | Some (msk, width) \<Rightarrow>
          if position + width > length data then None
          else Some (vint_accumulate
                 (if keep_marker then ucast (data ! position)
                  else ucast (data ! position AND NOT msk))
                 (take (width - 1) (drop (Suc position) data)),
               width, position + width)))"

text \<open>The width never starts below one, so every read advances.\<close>

lemma vint_marker_width: "vint_marker b msk width = Some (m, w) \<Longrightarrow> width \<le> 8 \<Longrightarrow> width \<le> w \<and> w \<le> 8"
proof (induction b msk width rule: vint_marker.induct)
  case (1 b msk width)
  then show ?case
    by (auto simp: vint_marker.simps [of b msk width] split: if_splits)
qed

lemma read_vint_advances:
  assumes "read_vint data position k = Some (v, w, p)"
  shows "p = position + w" "1 \<le> w" "w \<le> 8" "p \<le> length data"
  using assms vint_marker_width [of "data ! position" "0x80" 1]
  by (auto simp: read_vint_def split: if_splits option.splits)

lemma read_vint_lt: "read_vint data position k = Some (v, w, p) \<Longrightarrow> position < p"
  using read_vint_advances [of data position k v w p] by simp

text \<open>The element loop of \<^verbatim>\<open>parse_header_bytes\<close>, from its head.\<close>

function scan_elements :: "bytes \<Rightarrow> nat \<Rightarrow> header_info \<Rightarrow> header_info option" where
  "scan_elements bytes position info =
     (if position < header_end info then
        (case read_vint bytes position True of
           None \<Rightarrow> None
         | Some (element_id, _, size_position) \<Rightarrow>
             if size_position > header_end info then None
             else (case read_vint bytes size_position False of
               None \<Rightarrow> None
             | Some (element_size, size_width, value_position) \<Rightarrow>
                 if value_position > header_end info \<or>
                    unat element_size > header_end info - value_position then None
                 else if element_id = kDocType then
                   Some (info\<lparr>doc_size_position := size_position,
                              doc_size_width := size_width,
                              doc_value_position := value_position,
                              doc_value_size := unat element_size,
                              doc_type := take (unat element_size) (drop value_position bytes)\<rparr>)
                 else scan_elements bytes (value_position + unat element_size) info))
      else None)"
  by pat_completeness auto
termination
  by (relation "measure (\<lambda>(bytes, position, info). header_end info - position)")
    (auto dest!: read_vint_lt)

declare scan_elements.simps [simp del]

definition parse_header_bytes :: "bytes \<Rightarrow> header_info option" where
  "parse_header_bytes bytes =
     (case read_vint bytes 0 True of
        None \<Rightarrow> None
      | Some (header_id, _, position) \<Rightarrow>
          if header_id \<noteq> kEbmlHeader then None
          else (case read_vint bytes position False of
            None \<Rightarrow> None
          | Some (psize, pwidth, position') \<Rightarrow>
              if unat psize > length bytes - position' then None
              else scan_elements bytes position'
                     (empty_header_info\<lparr>payload_size_position := position,
                        payload_size_width := pwidth, payload_size := psize,
                        header_end := position' + unat psize\<rparr>)))"

text \<open>The byte loop of \<^verbatim>\<open>write_size\<close> stores the low byte last: index 0 goes to the
  field's last position. \<open>n\<close> is the number of bytes still to store.\<close>

fun store_be :: "bytes \<Rightarrow> nat \<Rightarrow> nat \<Rightarrow> u64 \<Rightarrow> bytes" where
  "store_be data position 0 value = data"
| "store_be data position (Suc n) value =
     store_be (data[position + n := ucast (value AND 0xFF)]) position n (drop_bit 8 value)"

definition write_size :: "bytes \<Rightarrow> nat \<Rightarrow> nat \<Rightarrow> u64 \<Rightarrow> bytes option" where
  "write_size data position width value =
     (let limit = (if width = 8 then 0xFFFFFFFFFFFFFFFF else push_bit (7 * width) 1 - 1) in
      if value \<ge> limit then None
      else let data' = store_be data position width value in
           Some (data'[position := (data' ! position) OR ucast (push_bit (8 - width) (1 :: u32))]))"

section \<open>Reading back what was written\<close>

text \<open>The big-endian bytes \<open>store_be\<close> leaves in the field.\<close>

fun be_bytes :: "nat \<Rightarrow> u64 \<Rightarrow> bytes" where
  "be_bytes 0 v = []"
| "be_bytes (Suc n) v = be_bytes n (drop_bit 8 v) @ [ucast v]"

lemma length_be_bytes [simp]: "length (be_bytes n v) = n"
  by (induction n arbitrary: v) auto

lemma be_bytes_Cons: "be_bytes (Suc n) v = ucast (drop_bit (8 * n) v) # be_bytes n v"
proof (induction n arbitrary: v)
  case 0
  then show ?case by simp
next
  case (Suc n)
  have "be_bytes (Suc (Suc n)) v = be_bytes (Suc n) (drop_bit 8 v) @ [ucast v]"
    by (rule be_bytes.simps)
  also have "\<dots> = ucast (drop_bit (8 * Suc n) v) # (be_bytes n (drop_bit 8 v) @ [ucast v])"
    by (simp only: Suc.IH [of "drop_bit 8 v"]) (simp add: drop_bit_drop_bit add.commute)
  finally show ?case by (simp only: be_bytes.simps)
qed

lemma ucast_low_byte: "(ucast (v AND 0xFF :: u64) :: u8) = ucast v"
proof -
  have "(0xFF :: u64) = mask 8" by (simp add: mask_eq_exp_minus_1)
  then have "v AND 0xFF = take_bit 8 v" by (simp only: take_bit_eq_mask)
  then show ?thesis by (auto intro!: bit_word_eqI simp: bit_simps)
qed

lemma store_be_eq:
  "position + n \<le> length data \<Longrightarrow>
   store_be data position n v = take position data @ be_bytes n v @ drop (position + n) data"
proof (induction n arbitrary: data v)
  case 0
  then show ?case by simp
next
  case (Suc n)
  then show ?case
    by (simp add: ucast_low_byte drop_Suc_Cons id_take_nth_drop upd_conv_take_nth_drop min_def)
qed

lemma vint_accumulate_snoc:
  "vint_accumulate a (xs @ [b]) = push_bit 8 (vint_accumulate a xs) OR ucast b"
  by (induction xs arbitrary: a) auto

lemma vint_accumulate_be_bytes:
  "vint_accumulate a (be_bytes n v) = push_bit (8 * n) a OR take_bit (8 * n) v"
proof (induction n arbitrary: v)
  case 0
  then show ?case by simp
next
  case (Suc n)
  show ?case
    by (rule bit_word_eqI) (auto simp: vint_accumulate_snoc Suc.IH bit_simps)
qed

lemma and_exp_ne_0: "(b :: 'a::len word) AND 2 ^ n \<noteq> 0 \<longleftrightarrow> bit b n"
  by (simp add: bit_iff_and_push_bit_not_eq_0)

lemma vint_marker_found:
  assumes "1 \<le> k" "k \<le> w" "w \<le> 8" "\<forall>j. 8 - w < j \<and> j \<le> 8 - k \<longrightarrow> \<not> bit b j" "bit b (8 - w)"
  shows "vint_marker b (2 ^ (8 - k)) k = Some (2 ^ (8 - w), w)"
  using assms
proof (induction "w - k" arbitrary: k)
  case 0
  then have "k = w" by simp
  with 0 show ?case
    by (subst vint_marker.simps) (simp add: and_exp_ne_0 del: One_nat_def)
next
  case (Suc d)
  then have "k < w" by simp
  with Suc.prems have nb: "\<not> bit b (8 - k)" by auto
  have dp: "drop_bit 1 (2 ^ (8 - k) :: u8) = 2 ^ (8 - Suc k)"
    using \<open>k < w\<close> \<open>w \<le> 8\<close> \<open>1 \<le> k\<close> by (intro bit_word_eqI) (auto simp: bit_simps)
  have "vint_marker b (2 ^ (8 - Suc k)) (Suc k) = Some (2 ^ (8 - w), w)"
    using Suc.prems \<open>k < w\<close> Suc.hyps(2) by (intro Suc.hyps(1)) auto
  with nb dp \<open>k < w\<close> \<open>w \<le> 8\<close> show ?case
    by (subst vint_marker.simps) (simp only: and_exp_ne_0 if_False not_True_eq_False, simp)
qed

lemma vint_bits_high:
  assumes "unat (v :: u64) < 2 ^ m" "m \<le> j"
  shows "\<not> bit v j"
proof -
  have "take_bit m (unat v) = unat v"
    using assms(1) by (simp add: take_bit_nat_eq_self)
  then have "unat (take_bit m v) = unat v"
    by (simp add: unsigned_take_bit_eq)
  then have "take_bit m v = v" by (simp only: word_unat_eq_iff)
  then have "bit v j \<longleftrightarrow> bit (take_bit m v) j" by simp
  with assms(2) show ?thesis by (simp add: bit_take_bit_iff)
qed

lemma write_size_list:
  assumes "1 \<le> w" "w \<le> 8" "position + w \<le> length data" "unat v < 2 ^ (7 * w) - 1"
  shows "write_size data position w v = Some (take position data @
           ((ucast (drop_bit (8 * (w - 1)) v) OR 2 ^ (8 - w)) # be_bytes (w - 1) v) @
           drop (position + w) data)"
proof -
  obtain n where n: "w = Suc n" using assms(1) by (cases w) auto
  have lim: "v < (if w = 8 then 0xFFFFFFFFFFFFFFFF else push_bit (7 * w) 1 - 1)"
  proof (cases "w = 8")
    case True
    with assms(4) show ?thesis by (simp add: word_less_nat_alt)
  next
    case False
    with assms(1,2) have "w \<in> {1,2,3,4,5,6,7}" by auto
    with assms(4) False show ?thesis by (auto simp: word_less_nat_alt)
  qed
  have one: "(ucast (push_bit (8 - w) (1 :: u32)) :: u8) = 2 ^ (8 - w)"
    using assms(1,2) by (intro bit_word_eqI) (auto simp: bit_simps)
  have sb: "store_be data position w v =
      take position data @ (ucast (drop_bit (8 * n) v) # be_bytes n v) @ drop (position + w) data"
    using store_be_eq [OF assms(3), of v] be_bytes_Cons [of n v] n by (simp only:)
  have "(take position data @ (x # be_bytes n v) @ r)[position := y] =
      take position data @ (y # be_bytes n v) @ r"
    "(take position data @ (x # be_bytes n v) @ r) ! position = x" for x y r
    using assms(3) by (simp_all add: list_update_append nth_append)
  with sb lim n show ?thesis
    unfolding write_size_def Let_def one by (simp only: not_le [symmetric] if_False) simp
qed

lemma write_size_roundtrip:
  assumes "1 \<le> w" "w \<le> 8" "position + w \<le> length data" "unat v < 2 ^ (7 * w) - 1"
  shows "\<exists>data'. write_size data position w v = Some data' \<and> length data' = length data \<and>
           take position data' = take position data \<and>
           drop (position + w) data' = drop (position + w) data \<and>
           read_vint data' position False = Some (v, w, position + w)"
proof -
  obtain n where n: "w = Suc n" using assms(1) by (cases w) auto
  let ?fb = "ucast (drop_bit (8 * n) v) OR 2 ^ (8 - w) :: u8"
  let ?d = "take position data @ (?fb # be_bytes n v) @ drop (position + w) data"
  have ws: "write_size data position w v = Some ?d"
    using write_size_list [OF assms] n by simp
  have hb: "\<not> bit v j" if "7 * w \<le> j" for j
    using assms(4) that by (intro vint_bits_high [of v "7 * w"]) auto
  have mk: "vint_marker ?fb 0x80 1 = Some (2 ^ (8 - w), w)"
  proof -
    have "vint_marker ?fb (2 ^ (8 - 1)) 1 = Some (2 ^ (8 - w), w)"
      using assms(1,2) n hb by (intro vint_marker_found) (auto simp: bit_simps)
    then show ?thesis by simp
  qed
  have fb: "bit ?fb (8 - w)" using assms(1,2) by (auto simp: bit_simps)
  then have fb0: "?fb \<noteq> 0" by (metis bit_0_eq bot_apply bot_bool_def)
  have idx: "?d ! position = ?fb" using assms(3) by (simp add: nth_append)
  have "position < length data" using assms(1,3) by simp
  then have rest: "take n (drop (Suc position) ?d) = be_bytes n v"
    by (simp add: min_def)
  have val: "vint_accumulate (ucast (?fb AND NOT (2 ^ (8 - w)))) (be_bytes n v) = v"
  proof (rule bit_word_eqI)
    fix j assume j: "j < LENGTH(64)"
    show "bit (vint_accumulate (ucast (?fb AND NOT (2 ^ (8 - w)))) (be_bytes n v)) j = bit v j"
    proof (cases "j < 8 * n")
      case True
      with j show ?thesis by (simp add: vint_accumulate_be_bytes bit_simps)
    next
      case False
      have "bit (vint_accumulate (ucast (?fb AND NOT (2 ^ (8 - w)))) (be_bytes n v)) j \<longleftrightarrow>
          j - 8 * n < 8 \<and> bit v j \<and> j - 8 * n \<noteq> 8 - w"
        using False j by (auto simp: vint_accumulate_be_bytes bit_simps)
      moreover have "bit v j \<Longrightarrow> j < 7 * w" using hb [of j] by (meson not_le)
      ultimately show ?thesis using False n assms(2) by auto
    qed
  qed
  have "read_vint ?d position False = Some (v, w, position + w)"
    using assms(3) fb0 mk val rest idx n by (simp add: read_vint_def)
  with ws assms(3) n show ?thesis by (intro exI [of _ ?d]) simp
qed


section \<open>Locality and bounds of the parser\<close>

lemma read_vint_local:
  assumes "read_vint d1 position k = Some (v, w, p)"
    and agree: "\<And>i. position \<le> i \<Longrightarrow> i < p \<Longrightarrow> d2 ! i = d1 ! i"
    and len: "p \<le> length d2"
  shows "read_vint d2 position k = Some (v, w, p)"
proof -
  note adv = read_vint_advances [OF assms(1)]
  have here: "d2 ! position = d1 ! position" using adv by (intro agree) auto
  have "take (w - 1) (drop (Suc position) d2) = take (w - 1) (drop (Suc position) d1)"
  proof (rule nth_equalityI)
    show "length (take (w - 1) (drop (Suc position) d2)) = length (take (w - 1) (drop (Suc position) d1))"
      using adv len by simp
  next
    fix i assume "i < length (take (w - 1) (drop (Suc position) d2))"
    then show "take (w - 1) (drop (Suc position) d2) ! i = take (w - 1) (drop (Suc position) d1) ! i"
      using adv len by (auto intro!: agree)
  qed
  with here adv len assms(1) show ?thesis
    by (auto simp: read_vint_def split: if_splits option.splits)
qed

text \<open>One turn of the element loop that ends in success.\<close>

lemma scan_elements_step:
  assumes "scan_elements bytes position info = Some r"
  obtains eid w p1 es sw p2 where
    "position < header_end info" "read_vint bytes position True = Some (eid, w, p1)"
    "p1 \<le> header_end info" "read_vint bytes p1 False = Some (es, sw, p2)"
    "p2 \<le> header_end info" "unat es \<le> header_end info - p2"
    "eid = kDocType \<Longrightarrow> r = info\<lparr>doc_size_position := p1, doc_size_width := sw,
        doc_value_position := p2, doc_value_size := unat es,
        doc_type := take (unat es) (drop p2 bytes)\<rparr>"
    "eid \<noteq> kDocType \<Longrightarrow> scan_elements bytes (p2 + unat es) info = Some r"
proof -
  note eq = assms [unfolded scan_elements.simps [of bytes position info]]
  from eq have lt: "position < header_end info" by (simp split: if_splits)
  obtain eid w p1 where r1: "read_vint bytes position True = Some (eid, w, p1)"
    using eq lt by (cases "read_vint bytes position True") auto
  have p1: "p1 \<le> header_end info" using eq lt r1 by (simp split: if_splits)
  obtain es sw p2 where r2: "read_vint bytes p1 False = Some (es, sw, p2)"
    using eq lt r1 p1 by (cases "read_vint bytes p1 False") auto
  have p2: "p2 \<le> header_end info" "unat es \<le> header_end info - p2"
    using eq lt r1 p1 r2 by (simp_all split: if_splits)
  show thesis
    by (rule that [OF lt r1 p1 r2 p2]) (use eq lt r1 p1 r2 p2 in simp_all)
qed

text \<open>Induction along the loop: the two ways a turn ends.\<close>

lemma scan_elements_success_induct [consumes 1, case_names found skipped]:
  assumes "scan_elements bytes position info = Some r"
    and found: "\<And>position w p1 es sw p2. position < header_end info \<Longrightarrow>
      read_vint bytes position True = Some (kDocType, w, p1) \<Longrightarrow>
      p1 \<le> header_end info \<Longrightarrow> read_vint bytes p1 False = Some (es, sw, p2) \<Longrightarrow>
      p2 \<le> header_end info \<Longrightarrow> unat es \<le> header_end info - p2 \<Longrightarrow>
      r = info\<lparr>doc_size_position := p1, doc_size_width := sw, doc_value_position := p2,
        doc_value_size := unat es, doc_type := take (unat es) (drop p2 bytes)\<rparr> \<Longrightarrow> P position"
    and skipped: "\<And>position eid w p1 es sw p2. position < header_end info \<Longrightarrow>
      read_vint bytes position True = Some (eid, w, p1) \<Longrightarrow> eid \<noteq> kDocType \<Longrightarrow>
      p1 \<le> header_end info \<Longrightarrow> read_vint bytes p1 False = Some (es, sw, p2) \<Longrightarrow>
      p2 \<le> header_end info \<Longrightarrow> unat es \<le> header_end info - p2 \<Longrightarrow>
      scan_elements bytes (p2 + unat es) info = Some r \<Longrightarrow> P (p2 + unat es) \<Longrightarrow> P position"
  shows "P position"
  using assms(1)
proof (induction "header_end info - position" arbitrary: position rule: less_induct)
  case less
  from less.prems show ?case
  proof (rule scan_elements_step)
    fix eid w p1 es sw p2
    assume s: "position < header_end info" "read_vint bytes position True = Some (eid, w, p1)"
      "p1 \<le> header_end info" "read_vint bytes p1 False = Some (es, sw, p2)"
      "p2 \<le> header_end info" "unat es \<le> header_end info - p2"
      and f: "eid = kDocType \<Longrightarrow> r = info\<lparr>doc_size_position := p1, doc_size_width := sw,
        doc_value_position := p2, doc_value_size := unat es,
        doc_type := take (unat es) (drop p2 bytes)\<rparr>"
      and n: "eid \<noteq> kDocType \<Longrightarrow> scan_elements bytes (p2 + unat es) info = Some r"
    show ?thesis
    proof (cases "eid = kDocType")
      case True
      with s f show ?thesis by (intro found) auto
    next
      case False
      have "position < p2" using read_vint_lt [OF s(2)] read_vint_lt [OF s(4)] by simp
      with s(1) have "header_end info - (p2 + unat es) < header_end info - position" by simp
      then have "P (p2 + unat es)" by (rule less.hyps) (rule n [OF False])
      with s False n show ?thesis by (intro skipped [of position eid]) auto
    qed
  qed
qed

lemma scan_elements_frame:
  assumes "scan_elements bytes position info = Some r"
  shows "header_end r = header_end info" "payload_size r = payload_size info"
    "payload_size_position r = payload_size_position info"
    "payload_size_width r = payload_size_width info"
  using assms by (induction rule: scan_elements_success_induct) auto

lemma scan_elements_position:
  "scan_elements bytes position info = Some r \<Longrightarrow> position < doc_size_position r"
proof (induction rule: scan_elements_success_induct)
  case (found position w p1 es sw p2)
  then show ?case using read_vint_lt [OF found(2)] by simp
next
  case (skipped position eid w p1 es sw p2)
  then show ?case using read_vint_lt [OF skipped(2)] read_vint_lt [OF skipped(5)] by simp
qed

lemma scan_elements_doc:
  assumes "scan_elements bytes position info = Some r" "header_end info \<le> length bytes"
  shows "doc_value_position r = doc_size_position r + doc_size_width r"
    "1 \<le> doc_size_width r" "doc_size_width r \<le> 8"
    "doc_value_position r + doc_value_size r \<le> header_end info"
    "doc_type r = take (doc_value_size r) (drop (doc_value_position r) bytes)"
    "length (doc_type r) = doc_value_size r"
proof -
  have "doc_value_position r = doc_size_position r + doc_size_width r \<and>
    1 \<le> doc_size_width r \<and> doc_size_width r \<le> 8 \<and>
    doc_value_position r + doc_value_size r \<le> header_end info \<and>
    doc_type r = take (doc_value_size r) (drop (doc_value_position r) bytes) \<and>
    length (doc_type r) = doc_value_size r"
    using assms(1)
  proof (induction rule: scan_elements_success_induct)
    case (found position w p1 es sw p2)
    then show ?case using read_vint_advances [OF found(4)] assms(2) by simp
  qed
  then show "doc_value_position r = doc_size_position r + doc_size_width r"
    "1 \<le> doc_size_width r" "doc_size_width r \<le> 8"
    "doc_value_position r + doc_value_size r \<le> header_end info"
    "doc_type r = take (doc_value_size r) (drop (doc_value_position r) bytes)"
    "length (doc_type r) = doc_value_size r" by auto
qed

text \<open>
  The loop depends only on the bytes before the DocType's size field: with that field and
  the header's end changed, it finds the same element at the same place.
\<close>

lemma scan_elements_patched:
  assumes "scan_elements b1 position info = Some r"
    and he: "header_end info \<le> header_end info2" "header_end info2 \<le> length b2"
    and agree: "\<And>i. position \<le> i \<Longrightarrow> i < doc_size_position r \<Longrightarrow> b2 ! i = b1 ! i"
    and field: "read_vint b2 (doc_size_position r) False = Some (n, doc_size_width r, doc_value_position r)"
    and fit: "doc_value_position r + unat n \<le> header_end info2"
  shows "scan_elements b2 position info2 = Some (info2\<lparr>doc_size_position := doc_size_position r,
      doc_size_width := doc_size_width r, doc_value_position := doc_value_position r,
      doc_value_size := unat n, doc_type := take (unat n) (drop (doc_value_position r) b2)\<rparr>)"
  using assms(1) agree
proof (induction rule: scan_elements_success_induct)
  case (found position w p1 es sw p2)
  have "read_vint b2 position True = Some (kDocType, w, p1)"
    using found read_vint_advances [OF found(4)] he by (intro read_vint_local [OF found(2)]) auto
  with found(1,3,5,6,7) field fit he show ?case
    by (subst scan_elements.simps) simp
next
  case (skipped position eid w p1 es sw p2)
  note a1 = read_vint_advances [OF skipped(2)] and a2 = read_vint_advances [OF skipped(5)]
  have before: "p2 + unat es < doc_size_position r"
    by (rule scan_elements_position [OF skipped(8)])
  have r1: "read_vint b2 position True = Some (eid, w, p1)"
    using skipped(4,10) he before a1 a2 by (intro read_vint_local [OF skipped(2)]) auto
  have r2: "read_vint b2 p1 False = Some (es, sw, p2)"
    using skipped(6,10) he before a1 a2 by (intro read_vint_local [OF skipped(5)]) auto
  have "scan_elements b2 (p2 + unat es) info2 = Some (info2\<lparr>doc_size_position := doc_size_position r,
      doc_size_width := doc_size_width r, doc_value_position := doc_value_position r,
      doc_value_size := unat n, doc_type := take (unat n) (drop (doc_value_position r) b2)\<rparr>)"
    using skipped(9,10) a1 a2 by auto
  with r1 r2 skipped(1,3,4,6,7) he show ?case
    by (subst scan_elements.simps) simp
qed

text \<open>What a successful parse consists of.\<close>

lemma parse_header_parts:
  assumes "parse_header_bytes bytes = Some h"
  obtains w where
    "read_vint bytes 0 True = Some (kEbmlHeader, w, payload_size_position h)"
    "read_vint bytes (payload_size_position h) False =
       Some (payload_size h, payload_size_width h, payload_size_position h + payload_size_width h)"
    "header_end h = payload_size_position h + payload_size_width h + unat (payload_size h)"
    "header_end h \<le> length bytes"
    "scan_elements bytes (payload_size_position h + payload_size_width h)
       (empty_header_info\<lparr>payload_size_position := payload_size_position h,
          payload_size_width := payload_size_width h, payload_size := payload_size h,
          header_end := header_end h\<rparr>) = Some h"
proof -
  obtain w p where r1: "read_vint bytes 0 True = Some (kEbmlHeader, w, p)"
    using assms by (auto simp: parse_header_bytes_def split: option.splits if_splits)
  obtain ps pw p' where r2: "read_vint bytes p False = Some (ps, pw, p')"
    using assms r1 by (auto simp: parse_header_bytes_def split: option.splits if_splits)
  note a2 = read_vint_advances [OF r2]
  have fit: "unat ps \<le> length bytes - p'"
    using assms r1 r2 by (simp add: parse_header_bytes_def split: if_splits)
  have sc: "scan_elements bytes p' (empty_header_info\<lparr>payload_size_position := p,
      payload_size_width := pw, payload_size := ps, header_end := p' + unat ps\<rparr>) = Some h"
    using assms r1 r2 fit by (simp add: parse_header_bytes_def)
  note fr = scan_elements_frame [OF sc]
  show thesis
    by (rule that [of w]) (use r1 r2 fit sc fr a2 in simp_all)
qed

lemma parse_header_intro:
  assumes "read_vint bytes 0 True = Some (kEbmlHeader, w, p)"
    and "read_vint bytes p False = Some (ps, pw, p')" and "p' + unat ps \<le> length bytes"
    and "scan_elements bytes p' (empty_header_info\<lparr>payload_size_position := p,
      payload_size_width := pw, payload_size := ps, header_end := p' + unat ps\<rparr>) = Some h"
  shows "parse_header_bytes bytes = Some h"
  using assms by (simp add: parse_header_bytes_def)

lemma parse_header_locations:
  assumes "parse_header_bytes bytes = Some h"
  shows "payload_size_position h + payload_size_width h < doc_size_position h"
    "doc_size_position h + doc_size_width h = doc_value_position h"
    "doc_value_position h + doc_value_size h \<le> header_end h"
    "header_end h = payload_size_position h + payload_size_width h + unat (payload_size h)"
    "header_end h \<le> length bytes"
    "payload_size_width h \<in> {1..8}" "doc_size_width h \<in> {1..8}"
    "doc_type h = take (doc_value_size h) (drop (doc_value_position h) bytes)"
    "length (doc_type h) = doc_value_size h"
proof -
  obtain w where parts:
    "read_vint bytes (payload_size_position h) False =
       Some (payload_size h, payload_size_width h, payload_size_position h + payload_size_width h)"
    "header_end h = payload_size_position h + payload_size_width h + unat (payload_size h)"
    "header_end h \<le> length bytes"
    "scan_elements bytes (payload_size_position h + payload_size_width h)
       (empty_header_info\<lparr>payload_size_position := payload_size_position h,
          payload_size_width := payload_size_width h, payload_size := payload_size h,
          header_end := header_end h\<rparr>) = Some h"
    using assms by (rule parse_header_parts)
  note a = read_vint_advances [OF parts(1)]
  note d = scan_elements_doc [OF parts(4)] and p = scan_elements_position [OF parts(4)]
  show "payload_size_position h + payload_size_width h < doc_size_position h" by (rule p)
  show "header_end h = payload_size_position h + payload_size_width h + unat (payload_size h)"
    "header_end h \<le> length bytes" by (rule parts)+
  show "doc_size_position h + doc_size_width h = doc_value_position h"
    "doc_value_position h + doc_value_size h \<le> header_end h" "doc_size_width h \<in> {1..8}"
    "doc_type h = take (doc_value_size h) (drop (doc_value_position h) bytes)"
    "length (doc_type h) = doc_value_size h" "payload_size_width h \<in> {1..8}"
    using d a parts(3) by simp_all
qed

text \<open>
  C2. Memory safety of the header parser: when \<^verbatim>\<open>parse_header_bytes\<close> accepts a buffer, every
  location it reports lies inside the buffer, in the order payload size field, DocType size
  field, DocType value, header end, and the DocType text is exactly the value's bytes.
\<close>

theorem parse_header_bounds:
  assumes "parse_header_bytes bytes = Some h"
  shows "payload_size_position h + payload_size_width h < doc_size_position h \<and>
    doc_size_position h + doc_size_width h = doc_value_position h \<and>
    doc_value_position h + doc_value_size h \<le> header_end h \<and>
    header_end h = payload_size_position h + payload_size_width h + unat (payload_size h) \<and>
    header_end h \<le> length bytes \<and>
    payload_size_width h \<in> {1..8} \<and> doc_size_width h \<in> {1..8} \<and>
    doc_type h = take (doc_value_size h) (drop (doc_value_position h) bytes) \<and>
    length (doc_type h) = doc_value_size h"
  by (intro conjI) (rule parse_header_locations [OF assms])+

text \<open>A header with one element (EBMLVersion) before its DocType \<open>webm\<close>.\<close>

definition sample_header :: bytes where
  "sample_header = [0x1A, 0x45, 0xDF, 0xA3, 0x8B, 0x42, 0x86, 0x81, 1,
     0x42, 0x82, 0x84, 0x77, 0x65, 0x62, 0x6D]"

definition sample_info :: header_info where
  "sample_info = \<lparr>payload_size_position = 4, payload_size_width = 1, payload_size = 11,
     header_end = 16, doc_size_position = 11, doc_size_width = 1, doc_value_position = 12,
     doc_value_size = 4, doc_type = [0x77, 0x65, 0x62, 0x6D]\<rparr>"

lemma parse_sample_header: "parse_header_bytes (sample_header @ [0x18, 0x53]) = Some sample_info"
  by code_simp

theorem parse_header_bounds_witness:
  "parse_header_bytes (sample_header @ [0x18, 0x53]) = Some sample_info \<and>
   header_end sample_info \<le> length (sample_header @ [0x18, 0x53])"
  using parse_sample_header parse_header_bounds [OF parse_sample_header] by simp

end
