(* ===== verification/Container.thy ===== *)
theory Container
  imports Ebml
begin

text \<open>
  src/container_format.cpp and the file operations of src/container_ebml.cpp: the container
  is chosen by the path's extension, an input's DocType must agree with it, and a finished
  WebM file is turned into Matroska by rewriting its EBML header into a temporary file that
  replaces the destination. The file system is a map from paths to contents; whether the
  operating system lets each call succeed is a record of flags. Paths are POSIX paths.
\<close>

section \<open>Choosing the container\<close>

datatype container_format = WebM | Matroska

definition ascii :: "string \<Rightarrow> bytes" where
  "ascii s = map of_char s"

definition tolower :: "char \<Rightarrow> char" where
  "tolower c = (if 65 \<le> (of_char c :: nat) \<and> (of_char c :: nat) \<le> 90
                then char_of ((of_char c :: nat) + 32) else c)"

text \<open>\<^verbatim>\<open>std::filesystem::path::filename\<close> and \<^verbatim>\<open>::extension\<close>.\<close>

definition path_filename :: "string \<Rightarrow> string" where
  "path_filename p = rev (takeWhile (\<lambda>c. c \<noteq> CHR ''/'') (rev p))"

definition path_extension :: "string \<Rightarrow> string" where
  "path_extension p =
     (let f = path_filename p; suffix = takeWhile (\<lambda>c. c \<noteq> CHR ''.'') (rev f) in
      if f = ''.'' \<or> f = ''..'' \<or> length suffix = length f \<or> Suc (length suffix) = length f
      then [] else CHR ''.'' # rev suffix)"

definition resolve_container_format :: "string option \<Rightarrow> string + container_format" where
  "resolve_container_format path =
     (case path of
        None \<Rightarrow> Inl ''container path is empty''
      | Some p \<Rightarrow>
          if p = [] then Inl ''container path is empty''
          else let extension = map tolower (path_extension p) in
               if extension = ''.webm'' then Inr WebM
               else if extension = ''.mkv'' then Inr Matroska
               else Inl ''container extension must be .webm or .mkv'')"

section \<open>The file system\<close>

type_synonym disk = "string \<rightharpoonup> bytes"

text \<open>Which system calls of one finalization succeed.\<close>

record io_faults =
  header_opens :: bool
  input_opens :: bool
  output_opens :: bool
  writes_succeed :: bool
  rename_succeeds :: bool
  remove_succeeds :: bool
  check_opens :: bool

definition no_faults :: io_faults where
  "no_faults = \<lparr>header_opens = True, input_opens = True, output_opens = True,
     writes_succeed = True, rename_succeeds = True, remove_succeeds = True, check_opens = True\<rparr>"

definition read_header :: "bool \<Rightarrow> disk \<Rightarrow> string \<Rightarrow> string + (bytes \<times> header_info)" where
  "read_header opens d path =
     (case (if opens then d path else None) of
        None \<Rightarrow> Inl ''failed to open container header''
      | Some content \<Rightarrow>
          let bytes = take 4096 content in
          (case parse_header_bytes bytes of
             None \<Rightarrow> Inl ''invalid or unsupported EBML header''
           | Some info \<Rightarrow> Inr (bytes, info)))"

definition validate_container_doc_type ::
    "bool \<Rightarrow> disk \<Rightarrow> string \<Rightarrow> container_format \<Rightarrow> string + unit" where
  "validate_container_doc_type opens d path format =
     (case read_header opens d path of
        Inl e \<Rightarrow> Inl e
      | Inr (bytes, info) \<Rightarrow>
          if doc_type info \<noteq> (if format = WebM then ascii ''webm'' else ascii ''matroska'')
          then Inl ''container extension and EBML DocType disagree''
          else Inr ())"

section \<open>Rewriting the header\<close>

text \<open>The rewrite of the header bytes: erase the old DocType, insert the new one, then fix
  the two size fields.\<close>

definition retag_header :: "bytes \<Rightarrow> header_info \<Rightarrow> bytes option" where
  "retag_header bytes info =
     (let replacement = ascii ''matroska'';
          delta = of_nat (length replacement) - of_nat (doc_value_size info) :: u64;
          header = take (header_end info) bytes;
          erased = take (doc_value_position info) header @
                   drop (doc_value_position info + doc_value_size info) header;
          inserted = take (doc_value_position info) erased @ replacement @
                     drop (doc_value_position info) erased
      in case write_size inserted (doc_size_position info) (doc_size_width info)
                (of_nat (length replacement)) of
           None \<Rightarrow> None
         | Some header' \<Rightarrow>
             write_size header' (payload_size_position info) (payload_size_width info)
               (payload_size info + delta))"

text \<open>The streaming copy: full buffers until a short read ends the input.\<close>

function copy_stream :: "nat \<Rightarrow> bytes \<Rightarrow> bytes \<Rightarrow> bytes" where
  "copy_stream chunk rest out =
     (if chunk = 0 \<or> length rest < chunk then out @ rest
      else copy_stream chunk (drop chunk rest) (out @ take chunk rest))"
  by pat_completeness auto
termination
  by (relation "measure (\<lambda>(chunk, rest, out). length rest)") auto

declare copy_stream.simps [simp del]

lemma copy_stream_all: "copy_stream chunk rest out = out @ rest"
  by (induction chunk rest out rule: copy_stream.induct) (subst copy_stream.simps, auto)

definition temporary_path :: "string \<Rightarrow> string" where
  "temporary_path path = path @ ''.mkvc-container.tmp''"

definition replace_file :: "bool \<Rightarrow> disk \<Rightarrow> string \<Rightarrow> string \<Rightarrow> disk \<times> bool" where
  "replace_file succeeds d temporary destination =
     (case d temporary of
        Some content \<Rightarrow> if succeeds then (d(temporary := None, destination \<mapsto> content), True) else (d, False)
      | None \<Rightarrow> (d, False))"

definition finalize_container_doc_type ::
    "io_faults \<Rightarrow> disk \<Rightarrow> string \<Rightarrow> container_format \<Rightarrow> disk \<times> (string + unit)" where
  "finalize_container_doc_type io d path format =
     (if format = WebM then (d, validate_container_doc_type (header_opens io) d path format)
      else case read_header (header_opens io) d path of
        Inl e \<Rightarrow> (d, Inl e)
      | Inr (bytes, info) \<Rightarrow>
          if doc_type info \<noteq> ascii ''webm''
          then (d, Inl ''libwebm output did not contain WebM DocType'')
          else (case retag_header bytes info of
            None \<Rightarrow> (d, Inl ''Matroska DocType does not fit the existing EBML size fields'')
          | Some header \<Rightarrow>
              let temporary = temporary_path path;
                  d1 = (if output_opens io then d(temporary \<mapsto> []) else d)
              in if \<not> input_opens io \<or> d1 path = None \<or> \<not> output_opens io
                 then (d1, Inl ''failed to create Matroska replacement'')
                 else let body = copy_stream (1024 * 1024) (drop (header_end info) (the (d1 path))) [];
                          d2 = (if writes_succeed io then d1(temporary \<mapsto> header @ body) else d1);
                          (d3, replaced) = (if writes_succeed io
                             then replace_file (rename_succeeds io) d2 temporary path else (d2, False))
                      in if replaced
                         then (d3, validate_container_doc_type (check_opens io) d3 path format)
                         else (if remove_succeeds io then d3(temporary := None) else d3,
                               Inl ''failed to atomically install Matroska output'')))"

section \<open>The rewritten header\<close>

lemma length_ascii [simp]: "length (ascii s) = length s"
  by (simp add: ascii_def)

text \<open>Erasing the old DocType and inserting the new one.\<close>

lemma inserted_shape:
  assumes "v + s \<le> e" "e \<le> length bytes"
  shows "take v (take v (take e bytes) @ tl') = take v bytes"
    "drop v (take v (take e bytes) @ tl') = tl'"
  using assms by (simp_all add: min_def)

lemma retag_header_parses:
  assumes parse: "parse_header_bytes bytes = Some h" and four: "doc_value_size h = 4"
    and small: "length bytes \<le> 4096" and re: "retag_header bytes h = Some hd2"
  shows "length hd2 = header_end h + 4"
    "\<exists>h2. parse_header_bytes (hd2 @ rest) = Some h2 \<and> doc_type h2 = ascii ''matroska'' \<and>
       header_end h2 = header_end h + 4 \<and> payload_size h2 = payload_size h + 4 \<and>
       doc_value_position h2 = doc_value_position h"
proof -
  define psp pw dsp dw dvp where defs: "psp = payload_size_position h" "pw = payload_size_width h"
    "dsp = doc_size_position h" "dw = doc_size_width h" "dvp = doc_value_position h"
  obtain w where id1: "read_vint bytes 0 True = Some (kEbmlHeader, w, psp)"
    and rp: "read_vint bytes psp False = Some (payload_size h, pw, psp + pw)"
    and he: "header_end h = psp + pw + unat (payload_size h)" and hl: "header_end h \<le> length bytes"
    and sc: "scan_elements bytes (psp + pw) (empty_header_info\<lparr>payload_size_position := psp,
        payload_size_width := pw, payload_size := payload_size h, header_end := header_end h\<rparr>) = Some h"
    using parse unfolding defs by (rule parse_header_parts)
  note loc = parse_header_locations [OF parse, folded defs]
  define M where "M = ascii ''matroska''"
  have lenM: "length M = 8" by (simp add: M_def)
  define hd0 where "hd0 = take dvp bytes @ M @ drop (dvp + 4) (take (header_end h) bytes)"
  have len0: "length hd0 = header_end h + 4"
    using loc four hl by (simp add: hd0_def lenM)
  have w84: "(8 - 4 :: u64) = 4" by code_simp
  have ins: "retag_header bytes h = (case write_size hd0 dsp dw 8 of None \<Rightarrow> None
      | Some header' \<Rightarrow> write_size header' psp pw (payload_size h + 4))"
    using inserted_shape [OF loc(3) hl] four
    by (simp only: retag_header_def Let_def hd0_def M_def [symmetric] defs [symmetric] lenM of_nat_numeral) (simp add: w84 cong: option.case_cong)
  have dw: "1 \<le> dw" "dw \<le> 8" "1 \<le> pw" "pw \<le> 8" using loc by auto
  have fit8: "unat (8 :: u64) < 2 ^ (7 * dw) - 1"
  proof -
    have "(2::nat) ^ 7 \<le> 2 ^ (7 * dw)" using dw by (intro power_increasing) auto
    then show ?thesis by simp
  qed
  have room1: "dsp + dw \<le> length hd0" using loc len0 by simp
  obtain hd1 where w1: "write_size hd0 dsp dw 8 = Some hd1" and len1: "length hd1 = length hd0"
    and t1: "take dsp hd1 = take dsp hd0" and d1: "drop (dsp + dw) hd1 = drop (dsp + dw) hd0"
    and r1: "read_vint hd1 dsp False = Some (8, dw, dsp + dw)"
    using write_size_roundtrip [OF dw(1,2) room1 fit8] by blast
  have w2: "write_size hd1 psp pw (payload_size h + 4) = Some hd2"
    using re ins w1 by simp
  have ps: "unat (payload_size h) \<le> 4096" using he hl small by simp
  have up: "unat (payload_size h + 4) = unat (payload_size h) + 4"
    using ps by (simp add: unat_word_ariths)
  have fitp: "unat (payload_size h + 4) < 2 ^ (7 * pw) - 1"
  proof (cases "pw = 8")
    case True
    with ps up show ?thesis by simp
  next
    case False
    with dw have "pw \<in> {1,2,3,4,5,6,7}" by auto
    moreover have "payload_size h + 4 < push_bit (7 * pw) 1 - 1"
      using w2 False by (simp add: write_size_def Let_def not_le split: if_splits)
    ultimately show ?thesis by (auto simp: word_less_nat_alt)
  qed
  have room2: "psp + pw \<le> length hd1" using loc len0 len1 by simp
  obtain hd2' where "write_size hd1 psp pw (payload_size h + 4) = Some hd2'" and len2: "length hd2' = length hd1"
    and t2: "take psp hd2' = take psp hd1" and d2: "drop (psp + pw) hd2' = drop (psp + pw) hd1"
    and r2: "read_vint hd2' psp False = Some (payload_size h + 4, pw, psp + pw)"
    using write_size_roundtrip [OF dw(3,4) room2 fitp] by blast
  with w2 have hd2: "hd2' = hd2" by simp
  note len2 = len2 [unfolded hd2] and t2 = t2 [unfolded hd2] and d2 = d2 [unfolded hd2]
    and r2 = r2 [unfolded hd2]
  show len: "length hd2 = header_end h + 4" using len2 len1 len0 by simp
  have behind: "hd2 ! i = hd1 ! i" if "psp + pw \<le> i" for i
  proof -
    have "drop (psp + pw) hd2 ! (i - (psp + pw)) = drop (psp + pw) hd1 ! (i - (psp + pw))" by (simp add: d2)
    with that room2 len2 show ?thesis by simp
  qed
  have front: "hd1 ! i = bytes ! i" if "i < dsp" for i
  proof -
    have "hd1 ! i = hd0 ! i" using take_eq_nth_eq [OF t1 that] .
    with that loc hl show ?thesis by (simp add: hd0_def nth_append)
  qed
  have sp: "psp + pw < dsp" "dsp + dw = dvp" using loc by auto
  let ?b = "hd2 @ rest"
  have R0: "read_vint ?b 0 True = Some (kEbmlHeader, w, psp)"
  proof (rule read_vint_local [OF id1])
    fix i assume "0 \<le> i" "i < psp"
    then show "?b ! i = bytes ! i"
      using len2 room2 take_eq_nth_eq [OF t2, of i] front [of i] sp by (simp add: nth_append)
  qed (use len2 room2 in simp)
  have R1: "read_vint ?b psp False = Some (payload_size h + 4, pw, psp + pw)"
    by (rule read_vint_local [OF r2]) (use len2 room2 in \<open>auto simp: nth_append\<close>)
  have F: "read_vint ?b dsp False = Some (8, dw, dvp)"
  proof (rule read_vint_local)
    show "read_vint hd1 dsp False = Some (8, dw, dvp)" using r1 sp by simp
    show "?b ! i = hd1 ! i" if "dsp \<le> i" "i < dvp" for i
      using that sp loc(3) len behind [of i] by (simp add: nth_append)
    show "dvp \<le> length ?b" using loc(3) len by simp
  qed
  let ?i2 = "empty_header_info\<lparr>payload_size_position := psp, payload_size_width := pw,
      payload_size := payload_size h + 4, header_end := psp + pw + unat (payload_size h + 4)\<rparr>"
  let ?h2 = "?i2\<lparr>doc_size_position := dsp, doc_size_width := dw, doc_value_position := dvp,
      doc_value_size := unat (8 :: u64), doc_type := take (unat (8 :: u64)) (drop dvp ?b)\<rparr>"
  have SC: "scan_elements ?b (psp + pw) ?i2 = Some ?h2"
  proof -
    note patched = scan_elements_patched [OF sc, of ?i2 ?b 8, folded defs]
    have agree: "?b ! i = bytes ! i" if "psp + pw \<le> i" "i < dsp" for i
      using that sp loc(3) len behind [of i] front [of i] by (simp add: nth_append)
    have "8 + dvp \<le> header_end h + 4" using loc(3) four by simp
    then show ?thesis
      by (intro patched) (use F len up he agree in simp_all)
  qed
  have dt: "take 8 (drop dvp ?b) = M"
  proof -
    have split: "drop dvp x = drop (dvp - (psp + pw)) (drop (psp + pw) x)" for x :: bytes
      using sp by simp
    have "drop dvp hd2 = drop dvp hd1" by (simp only: split d2)
    also have "\<dots> = drop dvp hd0" using d1 sp by simp
    also have "\<dots> = M @ drop (dvp + 4) (take (header_end h) bytes)"
      using loc hl by (simp add: hd0_def)
    finally show ?thesis using len loc lenM by simp
  qed
  have "parse_header_bytes ?b = Some ?h2"
    by (rule parse_header_intro [OF R0 R1 _ SC]) (use up he len in simp)
  then show "\<exists>h2. parse_header_bytes (hd2 @ rest) = Some h2 \<and> doc_type h2 = ascii ''matroska'' \<and>
       header_end h2 = header_end h + 4 \<and> payload_size h2 = payload_size h + 4 \<and>
       doc_value_position h2 = doc_value_position h"
    using dt up he by (intro exI [of _ ?h2]) (simp add: M_def defs)
qed

lemma length_webm [simp]: "doc_type h = ascii ''webm'' \<Longrightarrow> length (doc_type h) = 4"
  by (simp add: ascii_def)

lemma temporary_path_neq [simp]: "temporary_path p \<noteq> p" "p \<noteq> temporary_path p"
  by (simp_all add: temporary_path_def)

text \<open>The new file, with the header rewritten and everything behind it kept.\<close>

lemma retagged_file_reads:
  assumes "parse_header_bytes (take 4096 content) = Some h" "doc_type h = ascii ''webm''"
    and "header_end h + 4 \<le> 4096" and "retag_header (take 4096 content) h = Some header"
  shows "\<exists>h2. parse_header_bytes (take 4096 (header @ drop (header_end h) content)) = Some h2 \<and>
           doc_type h2 = ascii ''matroska''" "length header = header_end h + 4"
proof -
  have four: "doc_value_size h = 4"
    using parse_header_locations(9) [OF assms(1)] length_webm [OF assms(2)] by simp
  have small: "length (take 4096 content) \<le> 4096" by simp
  note p = retag_header_parses [OF assms(1) four small assms(4)]
  show len: "length header = header_end h + 4" by (rule p(1))
  have "take 4096 (header @ drop (header_end h) content) =
      header @ take (4096 - length header) (drop (header_end h) content)"
    using assms(3) len by simp
  with p(2) [of "take (4096 - length header) (drop (header_end h) content)"]
  show "\<exists>h2. parse_header_bytes (take 4096 (header @ drop (header_end h) content)) = Some h2 \<and>
           doc_type h2 = ascii ''matroska''" by auto
qed

text \<open>
  C3. Finalizing a Matroska output: when the file libwebm wrote starts with an EBML header of
  DocType webm that leaves four bytes of room in the 4096-byte window and in its size fields,
  and no system call fails, \<^verbatim>\<open>finalize_container_doc_type\<close> returns success (its own validation
  included), the destination holds the rewritten header followed by everything that stood
  behind the old one, the header has grown by exactly four bytes, the temporary file is
  gone and no other file has changed.
\<close>

theorem finalize_matroska:
  assumes "d path = Some content" "parse_header_bytes (take 4096 content) = Some h"
    and "doc_type h = ascii ''webm''" "header_end h + 4 \<le> 4096"
    and "retag_header (take 4096 content) h = Some header"
  shows "\<exists>d'. finalize_container_doc_type no_faults d path Matroska = (d', Inr ()) \<and>
     d' path = Some (header @ drop (header_end h) content) \<and>
     length header = header_end h + 4 \<and> d' (temporary_path path) = None \<and>
     (\<forall>p. p \<noteq> path \<and> p \<noteq> temporary_path path \<longrightarrow> d' p = d p)"
proof -
  let ?new = "header @ drop (header_end h) content"
  let ?d' = "d(temporary_path path := None, path \<mapsto> ?new)"
  obtain h2 where "parse_header_bytes (take 4096 ?new) = Some h2" "doc_type h2 = ascii ''matroska''"
    using retagged_file_reads(1) [OF assms(2-5)] by blast
  then have "validate_container_doc_type True ?d' path Matroska = Inr ()"
    by (simp add: validate_container_doc_type_def read_header_def)
  then have "finalize_container_doc_type no_faults d path Matroska = (?d', Inr ())"
    using assms by (simp add: finalize_container_doc_type_def read_header_def no_faults_def
        Let_def copy_stream_all replace_file_def)
  then show ?thesis
    using retagged_file_reads(2) [OF assms(2-5)] by (intro exI [of _ ?d']) simp
qed

definition sample_disk :: disk where
  "sample_disk = [''out.mkv'' \<mapsto> sample_header @ [0x18, 0x53]]"

lemma sample_retag: "retag_header (sample_header @ [0x18, 0x53]) sample_info =
    Some ([0x1A, 0x45, 0xDF, 0xA3, 0x8F, 0x42, 0x86, 0x81, 1, 0x42, 0x82, 0x88] @ ascii ''matroska'')"
  by code_simp

theorem finalize_matroska_witness:
  "\<exists>d'. finalize_container_doc_type no_faults sample_disk ''out.mkv'' Matroska = (d', Inr ()) \<and>
     d' ''out.mkv'' = Some (([0x1A, 0x45, 0xDF, 0xA3, 0x8F, 0x42, 0x86, 0x81, 1, 0x42, 0x82, 0x88]
        @ ascii ''matroska'') @ [0x18, 0x53])"
proof -
  have t: "take 4096 (sample_header @ [0x18, 0x53]) = sample_header @ [0x18, 0x53]"
    by (simp add: sample_header_def)
  have f: "sample_disk ''out.mkv'' = Some (sample_header @ [0x18, 0x53])"
    by (simp add: sample_disk_def)
  have w: "doc_type sample_info = ascii ''webm''" by code_simp
  have d: "drop (header_end sample_info) (sample_header @ [0x18, 0x53]) = [0x18, 0x53]"
    by (simp add: sample_info_def sample_header_def)
  have e: "header_end sample_info + 4 \<le> 4096" by (simp add: sample_info_def)
  have p: "parse_header_bytes (take 4096 (sample_header @ [0x18, 0x53])) = Some sample_info"
    by (simp only: t parse_sample_header)
  have r: "retag_header (take 4096 (sample_header @ [0x18, 0x53])) sample_info =
      Some ([0x1A, 0x45, 0xDF, 0xA3, 0x8F, 0x42, 0x86, 0x81, 1, 0x42, 0x82, 0x88] @ ascii ''matroska'')"
    by (simp only: t sample_retag)
  show ?thesis
    using finalize_matroska [of sample_disk "''out.mkv''", OF f p w e r] unfolding d by blast
qed



end
