(* ===== verification/WebmIO.thy ===== *)
theory WebmIO
  imports Container Abi
begin

text \<open>
  Reading and writing WebM and Matroska: the limits of src/input_video_limits.hpp, the packet
  cursor of src/webm_packet_reader.cpp, the probe of src/input_video_probe.cpp and the muxer of
  src/webm_muxer.cpp. libwebm is not part of the sources: what its parser finds in a file is the
  record \<open>webm_file\<close> (whether each call succeeds, the tracks, the clusters with their blocks and
  frames), what its writer answers are parameters of the muxer's operations.
\<close>

section \<open>Limits\<close>

definition kMaxTracks :: nat where "kMaxTracks = 1024"
definition kMaxDimension :: int where "kMaxDimension = 32768"
definition kMaxPixels :: int where "kMaxPixels = 268435456"
definition kMaxPacketBytes :: int where "kMaxPacketBytes = 268435456"

definition valid_dimensions :: "int \<Rightarrow> int \<Rightarrow> bool" where
  "valid_dimensions width height =
     (if width \<le> 0 \<or> height \<le> 0 \<or> width > kMaxDimension \<or> height > kMaxDimension then False
      else width \<le> kMaxPixels div height)"

section \<open>What libwebm finds in a file\<close>

record webm_block =
  wb_track :: int
  wb_frames :: "(int \<times> bytes option) list" \<comment> \<open>length, and the bytes if they can be read\<close>
  wb_time :: i64

record webm_entry =
  we_block :: "webm_block option"
  we_next_ok :: bool \<comment> \<open>\<^verbatim>\<open>Cluster::GetNext\<close> behind it succeeds\<close>

record webm_cluster =
  wc_first_ok :: bool
  wc_entries :: "webm_entry list"

record webm_track =
  wt_is_video :: bool
  wt_codec_id :: "string option"
  wt_number :: int
  wt_width :: int
  wt_height :: int
  wt_scaled_rate :: "u64 option" \<comment> \<open>the rate in millionths, if finite and positive\<close>
  wt_default_duration :: u64

record webm_file =
  wf_opens :: bool
  wf_header_ok :: bool
  wf_segment_ok :: bool
  wf_load_ok :: bool
  wf_tracks :: "webm_track option list option"
  wf_clusters :: "webm_cluster list"
  wf_duration :: int

section \<open>The packet reader\<close>

record encoded_packet =
  ep_data :: bytes
  ep_pts_ns :: i64

text \<open>The clusters from the current one on, the entries from the current one on (\<open>None\<close> for a null
  pointer) and the next frame of the current block.\<close>

record packet_reader =
  rd_clusters :: "webm_cluster list"
  rd_entries :: "webm_entry list option"
  rd_frame_index :: nat
  rd_track :: int

definition codec_track_id :: "u32 \<Rightarrow> string" where
  "codec_track_id codec = (if codec = MKVC_CODEC_VP9 then ''V_VP9'' else ''V_AV1'')"

fun select_track :: "string \<Rightarrow> webm_track option list \<Rightarrow> webm_track option" where
  "select_track requested [] = None"
| "select_track requested (track # tracks) =
     (case track of
        None \<Rightarrow> select_track requested tracks
      | Some t \<Rightarrow> if wt_is_video t \<and> wt_codec_id t = Some requested then Some t
                  else select_track requested tracks)"

definition open_checked :: "bool \<Rightarrow> disk \<Rightarrow> string option \<Rightarrow> string + unit" where
  "open_checked opens d path =
     (case resolve_container_format path of
        Inl e \<Rightarrow> Inl e
      | Inr format \<Rightarrow> validate_container_doc_type opens d (the path) format)"

definition load_tracks :: "webm_file \<Rightarrow> (string \<times> mkvc_result) + webm_track option list" where
  "load_tracks file =
     (if \<not> wf_opens file then Inl (''failed to open Matroska/WebM input'', MKVC_ERROR_IO)
      else if \<not> wf_header_ok file then Inl (''invalid EBML header'', MKVC_ERROR_IO)
      else if \<not> wf_segment_ok file then Inl (''failed to create libwebm parser'', MKVC_ERROR_IO)
      else if \<not> wf_load_ok file then Inl (''failed to load Matroska/WebM segment'', MKVC_ERROR_IO)
      else (case wf_tracks file of
              None \<Rightarrow> Inl (''input contains no tracks'', MKVC_ERROR_NOT_SUPPORTED)
            | Some tracks \<Rightarrow>
                if length tracks > kMaxTracks then Inl (''input contains too many tracks'', MKVC_ERROR_IO)
                else Inr tracks))"

definition open_reader ::
    "bool \<Rightarrow> disk \<Rightarrow> (string \<Rightarrow> webm_file) \<Rightarrow> string option \<Rightarrow> u32 \<Rightarrow> string + packet_reader" where
  "open_reader opens d parse path codec =
     (case open_checked opens d path of
        Inl e \<Rightarrow> Inl e
      | Inr _ \<Rightarrow>
          if codec \<noteq> MKVC_CODEC_VP9 \<and> codec \<noteq> MKVC_CODEC_AV1 then Inl ''packet reader requires VP9 or AV1''
          else let file = parse (the path)
          in (case load_tracks file of
                Inl (e, _) \<Rightarrow> Inl e
              | Inr tracks \<Rightarrow>
                  (case select_track (codec_track_id codec) tracks of
                     None \<Rightarrow> Inl ''input has no requested VP9/AV1 video track''
                   | Some t \<Rightarrow>
                       if wt_number t = 0 then Inl ''input has no requested VP9/AV1 video track''
                       else if \<not> valid_dimensions (wt_width t) (wt_height t)
                       then Inl ''input video dimensions are invalid''
                       else Inr \<lparr>rd_clusters = wf_clusters file, rd_entries = None,
                                  rd_frame_index = 0, rd_track = wt_number t\<rparr>)))"

text \<open>Frame \<open>index\<close> of a block; the index has moved on even when it is refused.\<close>

definition take_frame :: "webm_block \<Rightarrow> nat \<Rightarrow> status + encoded_packet" where
  "take_frame b index = (case wb_frames b ! index of (len, content) \<Rightarrow>
     if len \<le> 0 \<or> len > kMaxPacketBytes then Inl (MKVC_ERROR_IO, ''invalid encoded frame size'')
     else (case content of
             None \<Rightarrow> Inl (MKVC_ERROR_IO, ''failed to read encoded frame'')
           | Some bs \<Rightarrow> Inr \<lparr>ep_data = bs, ep_pts_ns = wb_time b\<rparr>))"

text \<open>The inner loop over a cluster's entries: \<open>None\<close> when it runs off the end.\<close>

fun walk_entries ::
    "int \<Rightarrow> webm_entry list \<Rightarrow> nat \<Rightarrow> ((status + encoded_packet) \<times> webm_entry list \<times> nat) option" where
  "walk_entries track [] index = None"
| "walk_entries track (e # es) index =
     (let advance = (if we_next_ok e then walk_entries track es 0
            else Some (Inl (MKVC_ERROR_IO, ''failed to advance cluster block''), e # es, index))
      in case we_block e of
           None \<Rightarrow> advance
         | Some b \<Rightarrow>
             if wb_track b = track \<and> index < length (wb_frames b)
             then Some (take_frame b index, e # es, Suc index)
             else advance)"

fun walk_clusters ::
    "int \<Rightarrow> webm_cluster list \<Rightarrow> webm_entry list option \<Rightarrow> nat \<Rightarrow> (status + encoded_packet) \<times> packet_reader" where
  "walk_clusters track [] entries index =
     (Inl (MKVC_END_OF_STREAM, []),
      \<lparr>rd_clusters = [], rd_entries = entries, rd_frame_index = index, rd_track = track\<rparr>)"
| "walk_clusters track (c # cs) entries index =
     (if entries = None \<and> \<not> wc_first_ok c
      then (Inl (MKVC_ERROR_IO, ''failed to read first cluster block''),
            \<lparr>rd_clusters = c # cs, rd_entries = None, rd_frame_index = index, rd_track = track\<rparr>)
      else let (es, start) = (case entries of None \<Rightarrow> (wc_entries c, 0) | Some es \<Rightarrow> (es, index))
      in (case walk_entries track es start of
            Some (res, es', index') \<Rightarrow>
              (res, \<lparr>rd_clusters = c # cs, rd_entries = Some es', rd_frame_index = index', rd_track = track\<rparr>)
          | None \<Rightarrow> walk_clusters track cs None 0))"

definition read_packet :: "packet_reader \<Rightarrow> (status + encoded_packet) \<times> packet_reader" where
  "read_packet r = walk_clusters (rd_track r) (rd_clusters r) (rd_entries r) (rd_frame_index r)"

section \<open>The probe\<close>

definition set_frame_rate :: "webm_track \<Rightarrow> video_info \<Rightarrow> video_info" where
  "set_frame_rate t info =
     (let from_duration =
        (let duration = unat (wt_default_duration t)
         in if duration = 0 then info
            else let divisor = gcd 1000000000 duration; numerator = 1000000000 div divisor;
                     denominator = duration div divisor
            in if numerator \<le> 4294967295 \<and> denominator \<le> 4294967295
               then info\<lparr>vi_fps_num := of_nat numerator, vi_fps_den := of_nat denominator, vi_fps_known := 1\<rparr>
               else info)
      in case wt_scaled_rate t of
           None \<Rightarrow> from_duration
         | Some rate \<Rightarrow>
             let numerator = unat rate; divisor = gcd numerator 1000000
             in if numerator \<noteq> 0 \<and> numerator div divisor \<le> 4294967295
                then info\<lparr>vi_fps_num := of_nat (numerator div divisor),
                          vi_fps_den := of_nat (1000000 div divisor), vi_fps_known := 1\<rparr>
                else from_duration)"

fun count_entries :: "int \<Rightarrow> webm_entry list \<Rightarrow> u64 \<Rightarrow> string + u64" where
  "count_entries track [] count = Inr count"
| "count_entries track (e # es) count =
     (let next_count = (\<lambda>count. if we_next_ok e then count_entries track es count
                        else Inl ''failed to inspect cluster blocks'')
      in case we_block e of
           None \<Rightarrow> next_count count
         | Some b \<Rightarrow>
             if wb_track b \<noteq> track then next_count count
             else let frames = of_nat (length (wb_frames b)) :: u64
             in if count > - 1 - frames then Inl ''invalid video frame count''
                else next_count (count + frames))"

fun count_frames :: "int \<Rightarrow> webm_cluster list \<Rightarrow> u64 \<Rightarrow> string + u64" where
  "count_frames track [] count = Inr count"
| "count_frames track (c # cs) count =
     (if \<not> wc_first_ok c then Inl ''failed to inspect first cluster block''
      else (case count_entries track (wc_entries c) count of
              Inl e \<Rightarrow> Inl e
            | Inr count' \<Rightarrow> count_frames track cs count'))"

fun first_supported :: "webm_track option list \<Rightarrow> (u32 \<times> webm_track) option" where
  "first_supported [] = None"
| "first_supported (track # tracks) =
     (case track of
        None \<Rightarrow> first_supported tracks
      | Some t \<Rightarrow>
          if \<not> wt_is_video t then first_supported tracks
          else if wt_codec_id t = Some ''V_VP9'' then Some (MKVC_CODEC_VP9, t)
          else if wt_codec_id t = Some ''V_AV1'' then Some (MKVC_CODEC_AV1, t)
          else first_supported tracks)"

definition empty_video_info :: video_info where
  "empty_video_info = \<lparr>vi_struct_size = sizeof_video_info, vi_struct_version = 1, vi_codec = 0,
     vi_width = 0, vi_height = 0, vi_fps_num = 0, vi_fps_den = 0, vi_duration_ns = 0,
     vi_frame_count = 0, vi_fps_known = 0, vi_duration_known = 0, vi_frame_count_known = 0\<rparr>"

definition probe_input_video ::
    "bool \<Rightarrow> disk \<Rightarrow> (string \<Rightarrow> webm_file) \<Rightarrow> string option \<Rightarrow> status + video_info" where
  "probe_input_video opens d parse path =
     (if path = None then Inl (MKVC_ERROR_IO, [])
      else case open_checked opens d path of
        Inl e \<Rightarrow> Inl (MKVC_ERROR_IO, e)
      | Inr _ \<Rightarrow>
          let file = parse (the path)
          in (case load_tracks file of
                Inl (e, r) \<Rightarrow> Inl (r, e)
              | Inr tracks \<Rightarrow>
                  (case first_supported tracks of
                     None \<Rightarrow> Inl (MKVC_ERROR_NOT_SUPPORTED, ''input has no supported VP9/AV1 video track'')
                   | Some (codec, t) \<Rightarrow>
                       if \<not> valid_dimensions (wt_width t) (wt_height t)
                       then Inl (MKVC_ERROR_IO, ''input video dimensions are invalid'')
                       else let info = set_frame_rate t (empty_video_info\<lparr>vi_codec := codec,
                                vi_width := word_of_int (wt_width t), vi_height := word_of_int (wt_height t)\<rparr>);
                              info = (if wf_duration file \<ge> 0
                                then info\<lparr>vi_duration_ns := word_of_int (wf_duration file), vi_duration_known := 1\<rparr>
                                else info)
                       in (case count_frames (wt_number t) (wf_clusters file) 0 of
                             Inl e \<Rightarrow> Inl (MKVC_ERROR_IO, e)
                           | Inr count \<Rightarrow> Inr (info\<lparr>vi_frame_count := count, vi_frame_count_known := 1\<rparr>)))))"

section \<open>The muxer\<close>

record muxed_frame =
  mf_data :: bytes
  mf_timestamp_ns :: u64
  mf_duration_ns :: u64
  mf_key :: bool

record webm_muxer =
  wm_frames :: "muxed_frame list" \<comment> \<open>what the segment accepted\<close>
  wm_codec_id :: string
  wm_codec_private :: bytes
  wm_default_duration :: u64
  wm_track_number :: u64
  wm_writer_open :: bool
  wm_segment_initialized :: bool
  wm_finalized :: bool
  wm_output_path :: string
  wm_container :: container_format

text \<open>The answers of libwebm while a file is set up.\<close>

record muxer_setup =
  ms_writer_opens :: bool
  ms_segment_inits :: bool
  ms_track_number :: u64
  ms_track_found :: bool
  ms_accepts_private :: bool

definition av1_config :: bytes where
  "av1_config = [0x81, 19, 0x0c, 0x00]"

text \<open>The floating-point frame rate of the track is not modelled; \<open>fps_num\<close> is not zero.\<close>

definition create_muxer ::
    "muxer_setup \<Rightarrow> string option \<Rightarrow> u32 \<Rightarrow> u32 \<Rightarrow> u32 \<Rightarrow> string + webm_muxer" where
  "create_muxer setup path codec fps_num fps_den =
     (if codec \<noteq> MKVC_CODEC_VP9 \<and> codec \<noteq> MKVC_CODEC_AV1 then Inl ''muxer requires VP9 or AV1''
      else case resolve_container_format path of
        Inl e \<Rightarrow> Inl e
      | Inr container \<Rightarrow>
          if \<not> ms_writer_opens setup then Inl ''failed to open output''
          else if \<not> ms_segment_inits setup then Inl ''failed to initialize libwebm''
          else if ms_track_number setup = 0 \<or> \<not> ms_track_found setup
          then Inl ''libwebm failed to create the video track''
          else if codec = MKVC_CODEC_AV1 \<and> \<not> ms_accepts_private setup
          then Inl ''libwebm rejected the AV1 codec configuration''
          else Inr \<lparr>wm_frames = [], wm_codec_id = codec_track_id codec,
            wm_codec_private = (if codec = MKVC_CODEC_AV1 then av1_config else []),
            wm_default_duration = ucast fps_den * 1000000000 div ucast fps_num,
            wm_track_number = ms_track_number setup, wm_writer_open = True,
            wm_segment_initialized = True, wm_finalized = False, wm_output_path = the path,
            wm_container = container\<rparr>)"

text \<open>\<open>copied\<close> and \<open>added\<close>: whether libwebm copies the packet and takes the frame.\<close>

definition add_frame ::
    "bool \<Rightarrow> bool \<Rightarrow> bytes option \<Rightarrow> u64 \<Rightarrow> u64 \<Rightarrow> bool \<Rightarrow> webm_muxer \<Rightarrow> status \<times> webm_muxer" where
  "add_frame copied added data timestamp_ns duration_ns key m =
     (if wm_finalized m \<or> \<not> wm_segment_initialized m \<or> data = None \<or> data = Some []
      then ((MKVC_ERROR_INVALID_STATE, ''invalid encoded packet or finalized muxer''), m)
      else if \<not> copied then ((MKVC_ERROR_INTERNAL, ''libwebm failed to copy an encoded packet''), m)
      else if \<not> added then ((MKVC_ERROR_IO, ''libwebm failed to mux an encoded packet''), m)
      else (ok, m\<lparr>wm_frames := wm_frames m @ [\<lparr>mf_data = the data, mf_timestamp_ns = timestamp_ns,
                   mf_duration_ns = duration_ns, mf_key = key\<rparr>]\<rparr>))"

definition finalize_muxer ::
    "bool \<Rightarrow> io_faults \<Rightarrow> disk \<Rightarrow> webm_muxer \<Rightarrow> status \<times> disk \<times> webm_muxer" where
  "finalize_muxer segment_ok io d m =
     (if wm_finalized m then (ok, d, m)
      else if wm_segment_initialized m \<and> \<not> segment_ok
      then ((MKVC_ERROR_IO, ''libwebm failed to finalize the output''), d, m)
      else let m = m\<lparr>wm_writer_open := False\<rparr>
      in (case finalize_container_doc_type io d (wm_output_path m) (wm_container m) of
            (d', Inl e) \<Rightarrow> ((MKVC_ERROR_IO, e), d', m)
          | (d', Inr _) \<Rightarrow> (ok, d', m\<lparr>wm_finalized := True\<rparr>)))"

section \<open>What a track holds\<close>

text \<open>The packets of a track, read off the structure of the file.\<close>

definition entry_frames :: "int \<Rightarrow> webm_entry \<Rightarrow> (webm_block \<times> int \<times> bytes option) list" where
  "entry_frames track e = (case we_block e of
     None \<Rightarrow> []
   | Some b \<Rightarrow> if wb_track b = track then map (Pair b) (wb_frames b) else [])"

definition packet_of :: "webm_block \<times> int \<times> bytes option \<Rightarrow> encoded_packet" where
  "packet_of f = (case f of (b, len, content) \<Rightarrow> \<lparr>ep_data = the content, ep_pts_ns = wb_time b\<rparr>)"

definition track_packets :: "int \<Rightarrow> webm_cluster list \<Rightarrow> encoded_packet list" where
  "track_packets track clusters = map packet_of (concat (map (\<lambda>c. concat (map (entry_frames track) (wc_entries c))) clusters))"

text \<open>An entry every packet of which can be read, in a file without a defect libwebm would report;
  \<^verbatim>\<open>Block::GetFrameCount\<close> is a 32-bit \<^verbatim>\<open>int\<close>.\<close>

definition sound_entry :: "int \<Rightarrow> webm_entry \<Rightarrow> bool" where
  "sound_entry track e \<longleftrightarrow> we_next_ok e \<and>
     length (entry_frames track e) < 2 ^ 31 \<and> list_all (\<lambda>(b, len, content). 0 < len \<and> len \<le> kMaxPacketBytes \<and> content \<noteq> None) (entry_frames track e)"

definition sound_cluster :: "int \<Rightarrow> webm_cluster \<Rightarrow> bool" where
  "sound_cluster track c \<longleftrightarrow> wc_first_ok c \<and> list_all (sound_entry track) (wc_entries c)"

text \<open>The packets still ahead of a cursor.\<close>

definition ahead :: "packet_reader \<Rightarrow> encoded_packet list" where
  "ahead r = (case rd_entries r of
     None \<Rightarrow> track_packets (rd_track r) (rd_clusters r)
   | Some es \<Rightarrow> map packet_of (drop (rd_frame_index r) (concat (map (entry_frames (rd_track r)) es))) @
       track_packets (rd_track r) (tl (rd_clusters r)))"

definition sound_reader :: "packet_reader \<Rightarrow> bool" where
  "sound_reader r \<longleftrightarrow> list_all (sound_cluster (rd_track r)) (rd_clusters r) \<and>
     (case rd_entries r of
        None \<Rightarrow> True
      | Some es \<Rightarrow> rd_clusters r \<noteq> [] \<and> list_all (sound_entry (rd_track r)) es \<and> es \<noteq> [] \<and>
          rd_frame_index r \<le> length (entry_frames (rd_track r) (hd es)))"

lemma entry_frames_other:
  "we_block e = None \<or> (\<exists>b. we_block e = Some b \<and> wb_track b \<noteq> track) \<Longrightarrow> entry_frames track e = []"
  by (auto simp: entry_frames_def)

lemma walk_entries_sound:
  "list_all (sound_entry track) es \<Longrightarrow> es \<noteq> [] \<Longrightarrow> k \<le> length (entry_frames track (hd es)) \<Longrightarrow>
   (let rest = drop k (concat (map (entry_frames track) es)) in
    case walk_entries track es k of
      None \<Rightarrow> rest = []
    | Some (res, es', k') \<Rightarrow> rest \<noteq> [] \<and> res = Inr (packet_of (hd rest)) \<and>
        list_all (sound_entry track) es' \<and> es' \<noteq> [] \<and> k' \<le> length (entry_frames track (hd es')) \<and>
        drop k' (concat (map (entry_frames track) es')) = tl rest)"
proof (induction es arbitrary: k)
  case Nil
  then show ?case by simp
next
  case (Cons e es)
  have sound: "we_next_ok e" "list_all (sound_entry track) es"
    using Cons.prems(1) by (simp add: sound_entry_def, simp)
  show ?case
  proof (cases "k < length (entry_frames track e)")
    case True
    then obtain b where b: "we_block e = Some b" "wb_track b = track" "k < length (wb_frames b)"
        "entry_frames track e = map (Pair b) (wb_frames b)"
      by (auto simp: entry_frames_def split: option.splits if_splits)
    obtain len content where f: "wb_frames b ! k = (len, content)" by (cases "wb_frames b ! k")
    have "(b, len, content) \<in> set (entry_frames track e)" using b f by (metis length_map nth_map nth_mem)
    then have "0 < len" "len \<le> kMaxPacketBytes" "content \<noteq> None"
      using Cons.prems(1) by (auto simp: sound_entry_def list_all_iff)
    then have take: "take_frame b k = Inr (packet_of (b, len, content))"
      using f by (auto simp: take_frame_def packet_of_def)
    let ?all = "entry_frames track e @ concat (map (entry_frames track) es)"
    have rest: "drop k ?all = (b, len, content) # drop (Suc k) ?all"
      using True b f by (simp add: Cons_nth_drop_Suc [symmetric] nth_append del: append_Cons)
    show ?thesis using b take rest Cons.prems True by (simp add: Let_def)
  next
    case False
    then have k: "k = length (entry_frames track e)" using Cons.prems(3) by simp
    have step: "walk_entries track (e # es) k = walk_entries track es 0"
    proof (cases "we_block e")
      case None
      then show ?thesis using sound by simp
    next
      case (Some b)
      then show ?thesis using sound k by (auto simp: entry_frames_def)
    qed
    have rest: "drop k (concat (map (entry_frames track) (e # es))) = concat (map (entry_frames track) es)"
      using k by simp
    show ?thesis
    proof (cases es)
      case Nil
      then show ?thesis using step rest by (simp add: Let_def)
    next
      case (Cons e' es')
      then have "es \<noteq> []" by simp
      from Cons.IH [OF sound(2) this, of 0] show ?thesis unfolding step rest by simp
    qed
  qed
qed


lemma track_packets_Cons:
  "track_packets track (c # cs) =
     map packet_of (concat (map (entry_frames track) (wc_entries c))) @ track_packets track cs"
  by (simp add: track_packets_def)

lemma walk_clusters_sound:
  "list_all (sound_cluster track) cs \<Longrightarrow>
   (case entries of None \<Rightarrow> True | Some es \<Rightarrow> cs \<noteq> [] \<and> list_all (sound_entry track) es \<and>
      es \<noteq> [] \<and> k \<le> length (entry_frames track (hd es))) \<Longrightarrow>
   r = \<lparr>rd_clusters = cs, rd_entries = entries, rd_frame_index = k, rd_track = track\<rparr> \<Longrightarrow>
   (case walk_clusters track cs entries k of (res, r') \<Rightarrow>
      (case ahead r of
         [] \<Rightarrow> res = Inl (MKVC_END_OF_STREAM, []) \<and> ahead r' = []
       | p # ps \<Rightarrow> res = Inr p \<and> ahead r' = ps) \<and> sound_reader r')"
proof (induction cs arbitrary: entries k r)
  case Nil
  then show ?case by (simp add: ahead_def track_packets_def sound_reader_def split: option.splits)
next
  case (Cons c cs)
  have c: "wc_first_ok c" "list_all (sound_entry track) (wc_entries c)" "list_all (sound_cluster track) cs"
    using Cons.prems(1) by (simp add: sound_cluster_def, simp add: sound_cluster_def, simp)
  define es where "es = (case entries of None \<Rightarrow> wc_entries c | Some es \<Rightarrow> es)"
  define start where "start = (case entries of None \<Rightarrow> 0 | Some es \<Rightarrow> k)"
  let ?rest = "drop start (concat (map (entry_frames track) es))"
  have ahead: "ahead r = map packet_of ?rest @ track_packets track cs"
    unfolding Cons.prems(3) ahead_def es_def start_def
    by (simp add: track_packets_Cons split: option.splits)
  have es: "list_all (sound_entry track) es" "es \<noteq> [] \<Longrightarrow> start \<le> length (entry_frames track (hd es))"
    using c Cons.prems(2) by (auto simp: es_def start_def split: option.splits)
  have unfold: "walk_clusters track (c # cs) entries k = (case walk_entries track es start of
      Some (res, es', index') \<Rightarrow> (res, \<lparr>rd_clusters = c # cs, rd_entries = Some es', rd_frame_index = index', rd_track = track\<rparr>)
    | None \<Rightarrow> walk_clusters track cs None 0)"
    using c by (simp add: es_def start_def split: option.splits)
  show ?case
  proof (cases "walk_entries track es start")
    case None
    have "?rest = []"
    proof (cases "es = []")
      case False
      from walk_entries_sound [OF es(1) False es(2) [OF False]] None show ?thesis by (simp add: Let_def)
    qed simp
    then have "ahead r = ahead \<lparr>rd_clusters = cs, rd_entries = None, rd_frame_index = 0, rd_track = track\<rparr>"
      unfolding ahead by (simp add: ahead_def)
    then show ?thesis using Cons.IH [OF c(3), where entries = None and k = 0] unfolding unfold None by simp
  next
    case (Some hit)
    obtain res es' k' where hit: "hit = (res, es', k')" by (cases hit)
    have "es \<noteq> []" using Some by auto
    from walk_entries_sound [OF es(1) this es(2) [OF this]] Some
    have found: "?rest \<noteq> []" "res = Inr (packet_of (hd ?rest))" "list_all (sound_entry track) es'" "es' \<noteq> []"
        "k' \<le> length (entry_frames track (hd es'))"
        "drop k' (concat (map (entry_frames track) es')) = tl ?rest"
      by (simp_all add: Let_def hit)
    obtain f fs where rest: "?rest = f # fs" using found(1) by (cases ?rest) auto
    have here: "ahead r = packet_of f # map packet_of fs @ track_packets track cs" unfolding ahead rest by simp
    show ?thesis unfolding unfold Some hit here using found(2-6) Cons.prems(1) unfolding rest
      by (simp add: ahead_def sound_reader_def)
  qed
qed

lemma read_packet_sound:
  "sound_reader r \<Longrightarrow> (case read_packet r of (res, r') \<Rightarrow>
      (case ahead r of
         [] \<Rightarrow> res = Inl (MKVC_END_OF_STREAM, []) \<and> ahead r' = []
       | p # ps \<Rightarrow> res = Inr p \<and> ahead r' = ps) \<and> sound_reader r')"
  unfolding read_packet_def by (rule walk_clusters_sound) (simp_all add: sound_reader_def)

text \<open>\<open>n\<close> reads in a row.\<close>

primrec read_packets :: "nat \<Rightarrow> packet_reader \<Rightarrow> (status + encoded_packet) list" where
  "read_packets 0 r = []"
| "read_packets (Suc n) r = (case read_packet r of (res, r') \<Rightarrow> res # read_packets n r')"

lemma read_packets_sound:
  "sound_reader r \<Longrightarrow> read_packets n r =
     take n (map Inr (ahead r)) @ replicate (n - length (ahead r)) (Inl (MKVC_END_OF_STREAM, []))"
proof (induction n arbitrary: r)
  case 0
  then show ?case by simp
next
  case (Suc n)
  obtain res r' where r': "read_packet r = (res, r')" by (cases "read_packet r")
  from read_packet_sound [OF Suc.prems] have "sound_reader r'" unfolding r' by simp
  from Suc.IH [OF this] read_packet_sound [OF Suc.prems] show ?case
    unfolding r' by (cases "ahead r") (simp_all add: r')
qed

lemma open_reader_cases:
  assumes "open_reader opens d parse path codec = Inr r"
  obtains tracks t where "load_tracks (parse (the path)) = Inr tracks"
    and "select_track (codec_track_id codec) tracks = Some t"
    and "r = \<lparr>rd_clusters = wf_clusters (parse (the path)), rd_entries = None,
              rd_frame_index = 0, rd_track = wt_number t\<rparr>"
    and "open_checked opens d path = Inr ()"
  using assms unfolding open_reader_def
  by (auto simp: Let_def split: sum.splits option.splits if_splits)

lemma fresh_reader:
  "open_reader opens d parse path codec = Inr r \<Longrightarrow>
   ahead r = track_packets (rd_track r) (rd_clusters r) \<and>
   sound_reader r = list_all (sound_cluster (rd_track r)) (rd_clusters r)"
  by (erule open_reader_cases) (simp add: ahead_def sound_reader_def)

text \<open>C25. A reader opened on a file whose selected track has no defect delivers exactly the packets of
  that track, in file order and whatever the clusters, foreign blocks and laced frames between
  them, and from then on reports the end of the stream, however often it is asked.\<close>

theorem reader_delivers_track:
  assumes "open_reader opens d parse path codec = Inr r"
    and "list_all (sound_cluster (rd_track r)) (rd_clusters r)"
  shows "read_packets (length (track_packets (rd_track r) (rd_clusters r)) + n) r =
    map Inr (track_packets (rd_track r) (rd_clusters r)) @ replicate n (Inl (MKVC_END_OF_STREAM, []))"
  using fresh_reader [OF assms(1)] assms(2) by (simp add: read_packets_sound)

section \<open>The probe and the reader\<close>

lemma count_entries_exact:
  "list_all (sound_entry track) es \<Longrightarrow> count_entries track es count = Inr count' \<Longrightarrow>
   unat count' = unat count + length (concat (map (entry_frames track) es))"
proof (induction es arbitrary: count)
  case Nil
  then show ?case by simp
next
  case (Cons e es)
  have e: "we_next_ok e" "length (entry_frames track e) < 2 ^ 31" "list_all (sound_entry track) es"
    using Cons.prems(1) by (simp add: sound_entry_def, simp add: sound_entry_def, simp)
  show ?case
  proof (cases "entry_frames track e = []")
    case True
    then have "count_entries track (e # es) count = count_entries track es count"
      using e by (auto simp: entry_frames_def Let_def split: option.splits if_splits)
    then show ?thesis using Cons.IH [OF e(3)] Cons.prems(2) True by simp
  next
    case False
    then obtain b where b: "we_block e = Some b" "wb_track b = track"
        "entry_frames track e = map (Pair b) (wb_frames b)"
      by (auto simp: entry_frames_def split: option.splits if_splits)
    let ?frames = "of_nat (length (wb_frames b)) :: u64"
    have frames: "unat ?frames = length (wb_frames b)" using b e by (simp add: unat_of_nat)
    have fits: "\<not> count > - 1 - ?frames" and rest: "count_entries track es (count + ?frames) = Inr count'"
      using Cons.prems(2) b e by (simp_all add: Let_def split: if_splits)
    have "unat (count + ?frames) = unat count + length (wb_frames b)"
      using fits frames by (simp add: u64_sum_fits)
    then show ?thesis using Cons.IH [OF e(3) rest] b by simp
  qed
qed


lemma count_frames_exact:
  "list_all (sound_cluster track) cs \<Longrightarrow> count_frames track cs count = Inr count' \<Longrightarrow>
   unat count' = unat count + length (track_packets track cs)"
proof (induction cs arbitrary: count)
  case Nil
  then show ?case by (simp add: track_packets_def)
next
  case (Cons c cs)
  have c: "wc_first_ok c" "list_all (sound_entry track) (wc_entries c)" "list_all (sound_cluster track) cs"
    using Cons.prems(1) by (simp add: sound_cluster_def, simp add: sound_cluster_def, simp)
  obtain middle where middle: "count_entries track (wc_entries c) count = Inr middle"
      "count_frames track cs middle = Inr count'"
    using Cons.prems(2) c by (auto split: sum.splits)
  show ?case
    using count_entries_exact [OF c(2) middle(1)] Cons.IH [OF c(3) middle(2)]
    by (simp add: track_packets_Cons)
qed

lemma first_supported_selected:
  "first_supported tracks = Some (codec, t) \<Longrightarrow>
   (codec = MKVC_CODEC_VP9 \<or> codec = MKVC_CODEC_AV1) \<and> select_track (codec_track_id codec) tracks = Some t"
  by (induction tracks)
    (auto simp: codec_track_id_def split: option.splits if_splits)

lemma set_frame_rate_keeps [simp]: "vi_codec (set_frame_rate t info) = vi_codec info"
  by (simp add: set_frame_rate_def Let_def split: option.splits)

lemma probe_cases:
  assumes "probe_input_video opens d parse path = Inr info"
  obtains tracks t where "load_tracks (parse (the path)) = Inr tracks"
    and "first_supported tracks = Some (vi_codec info, t)"
    and "count_frames (wt_number t) (wf_clusters (parse (the path))) 0 = Inr (vi_frame_count info)"
  using assms unfolding probe_input_video_def
  by (auto simp: Let_def split: sum.splits option.splits if_splits)

text \<open>C26. The probe and the reader agree: when a file can be probed and a packet reader opens it with
  the codec the probe reported, both mean the same track, and on a track without a defect the
  reported frame count is the number of packets the reader delivers before the end of the stream.\<close>

theorem probe_counts_what_the_reader_delivers:
  assumes "probe_input_video opens d parse path = Inr info"
    and "open_reader opens d parse path (vi_codec info) = Inr r"
    and "list_all (sound_cluster (rd_track r)) (rd_clusters r)"
  shows "(\<forall>res. res \<in> set (read_packets (unat (vi_frame_count info)) r) \<longrightarrow> isl res = False) \<and>
    read_packets (Suc (unat (vi_frame_count info))) r ! unat (vi_frame_count info) = Inl (MKVC_END_OF_STREAM, [])"
proof -
  obtain tracks t where probed: "load_tracks (parse (the path)) = Inr tracks"
      "first_supported tracks = Some (vi_codec info, t)"
      "count_frames (wt_number t) (wf_clusters (parse (the path))) 0 = Inr (vi_frame_count info)"
    using probe_cases [OF assms(1)] .
  from first_supported_selected [OF probed(2)] assms(2)
  have r: "r = \<lparr>rd_clusters = wf_clusters (parse (the path)), rd_entries = None,
              rd_frame_index = 0, rd_track = wt_number t\<rparr>"
    by (auto elim!: open_reader_cases simp: probed(1))
  have count: "unat (vi_frame_count info) = length (ahead r)"
    using count_frames_exact [OF _ probed(3)] assms(3) fresh_reader [OF assms(2)] unfolding r by simp
  have "sound_reader r" using fresh_reader [OF assms(2)] assms(3) by simp
  from read_packets_sound [OF this] show ?thesis unfolding count
    by (auto simp: nth_append Suc_diff_le simp del: read_packets.simps)
qed

section \<open>Frame rates\<close>



section \<open>Witnesses\<close>

definition example_block :: "int \<Rightarrow> bytes list \<Rightarrow> i64 \<Rightarrow> webm_entry" where
  "example_block track frames time =
     \<lparr>we_block = Some \<lparr>wb_track = track, wb_frames = map (\<lambda>bs. (int (length bs), Some bs)) frames, wb_time = time\<rparr>,
      we_next_ok = True\<rparr>"

definition example_track :: webm_track where
  "example_track = \<lparr>wt_is_video = True, wt_codec_id = Some ''V_VP9'', wt_number = 1, wt_width = 64,
     wt_height = 48, wt_scaled_rate = None, wt_default_duration = 40000000\<rparr>"

definition example_file :: webm_file where
  "example_file = \<lparr>wf_opens = True, wf_header_ok = True, wf_segment_ok = True, wf_load_ok = True,
     wf_tracks = Some [None, Some (example_track\<lparr>wt_is_video := False, wt_number := 2\<rparr>), Some example_track],
     wf_clusters = [\<lparr>wc_first_ok = True, wc_entries = [example_block 2 [[9]] 0, example_block 1 [[1], [2, 3]] 0]\<rparr>,
       \<lparr>wc_first_ok = True, wc_entries = []\<rparr>,
       \<lparr>wc_first_ok = True, wc_entries = [example_block 1 [[4]] 80000000]\<rparr>], wf_duration = 120000000\<rparr>"

definition example_disk :: disk where
  "example_disk = (\<lambda>p. if p = ''a.webm'' then Some sample_header else None)"


lemma example_checked: "open_checked True example_disk (Some ''a.webm'') = Inr ()"
  by code_simp


definition example_reader :: packet_reader where
  "example_reader = \<lparr>rd_clusters = wf_clusters example_file, rd_entries = None, rd_frame_index = 0, rd_track = 1\<rparr>"

lemma example_open:
  "open_reader True example_disk (\<lambda>_. example_file) (Some ''a.webm'') MKVC_CODEC_VP9 = Inr example_reader"
  by (simp add: open_reader_def example_checked example_reader_def load_tracks_def kMaxTracks_def
      valid_dimensions_def kMaxDimension_def kMaxPixels_def codec_track_id_def example_file_def example_track_def)

lemma example_sound: "list_all (sound_cluster (rd_track example_reader)) (rd_clusters example_reader)"
  by (simp add: example_reader_def example_file_def example_block_def sound_cluster_def sound_entry_def
      entry_frames_def kMaxPacketBytes_def)

lemma example_probe:
  "probe_input_video True example_disk (\<lambda>_. example_file) (Some ''a.webm'') = Inr
     \<lparr>vi_struct_size = sizeof_video_info, vi_struct_version = 1, vi_codec = 1, vi_width = 64, vi_height = 48,
      vi_fps_num = 25, vi_fps_den = 1, vi_duration_ns = 120000000, vi_frame_count = 3, vi_fps_known = 1,
      vi_duration_known = 1, vi_frame_count_known = 1\<rparr>"
proof -
  have "set_frame_rate example_track info = info\<lparr>vi_fps_num := 25, vi_fps_den := 1, vi_fps_known := 1\<rparr>" for info
  proof -
    have "gcd 1000000000 (40000000 :: nat) = 40000000" by (simp add: gcd_nat.absorb2)
    then show ?thesis by (simp add: set_frame_rate_def example_track_def)
  qed
  moreover have "count_frames 1 (wf_clusters example_file) 0 = Inr 3" by code_simp
  moreover have "load_tracks example_file = Inr [None, Some (example_track\<lparr>wt_is_video := False, wt_number := 2\<rparr>), Some example_track]"
    by (simp add: load_tracks_def kMaxTracks_def example_file_def)
  moreover have "wt_number example_track = 1" "wf_duration example_file = 120000000" "valid_dimensions 64 48"
      "wt_width example_track = 64" "wt_height example_track = 48" "wt_is_video example_track"
      "wt_codec_id example_track = Some ''V_VP9''"
    by (simp_all add: example_track_def example_file_def valid_dimensions_def kMaxDimension_def kMaxPixels_def)
  ultimately show ?thesis by (simp add: probe_input_video_def example_checked empty_video_info_def)
qed

lemma example_packets:
  "track_packets (rd_track example_reader) (rd_clusters example_reader) =
     [\<lparr>ep_data = [1], ep_pts_ns = 0\<rparr>, \<lparr>ep_data = [2, 3], ep_pts_ns = 0\<rparr>, \<lparr>ep_data = [4], ep_pts_ns = 80000000\<rparr>]"
  by code_simp

theorem reader_delivers_track_witness:
  "read_packets 5 example_reader =
     [Inr \<lparr>ep_data = [1], ep_pts_ns = 0\<rparr>, Inr \<lparr>ep_data = [2, 3], ep_pts_ns = 0\<rparr>,
      Inr \<lparr>ep_data = [4], ep_pts_ns = 80000000\<rparr>, Inl (MKVC_END_OF_STREAM, []), Inl (MKVC_END_OF_STREAM, [])]"
proof -
  have two: "replicate 2 x = [x, x]" for x :: "status + encoded_packet" by (simp add: numeral_2_eq_2)
  have five: "length (track_packets (rd_track example_reader) (rd_clusters example_reader)) + 2 = 5"
    unfolding example_packets by simp
  show ?thesis
    using reader_delivers_track [OF example_open example_sound, of 2]
    unfolding five two unfolding example_packets list.map append.simps .
qed

theorem probe_counts_what_the_reader_delivers_witness:
  "read_packets 4 example_reader ! 3 = Inl (MKVC_END_OF_STREAM, [])"
proof -
  have "unat (3 :: u64) = 3" "Suc 3 = 4" by simp_all
  then show ?thesis
    using probe_counts_what_the_reader_delivers [OF example_probe _ example_sound] example_open
    by (simp del: read_packets.simps)
qed

definition example_setup :: muxer_setup where
  "example_setup = \<lparr>ms_writer_opens = True, ms_segment_inits = True, ms_track_number = 1,
     ms_track_found = True, ms_accepts_private = True\<rparr>"

lemma example_format: "resolve_container_format (Some ''a.webm'') = Inr WebM"
  by code_simp

lemma example_muxer:
  "create_muxer example_setup (Some ''a.webm'') 1 50 2 = Inr \<lparr>wm_frames = [], wm_codec_id = ''V_VP9'',
     wm_codec_private = [], wm_default_duration = 40000000, wm_track_number = 1, wm_writer_open = True,
     wm_segment_initialized = True, wm_finalized = False, wm_output_path = ''a.webm'', wm_container = WebM\<rparr>"
proof -
  have "(ucast (2 :: u32) * 1000000000 div ucast (50 :: u32) :: u64) = 40000000" by code_simp
  then show ?thesis
    by (simp add: create_muxer_def example_setup_def example_format codec_track_id_def)
qed


end
