(* ===== verification/CApi.thy ===== *)
theory CApi
  imports EncoderQueue FramePool FrameProcess Conversion Decoder WebmIO
begin

text \<open>
  The C ABI: handles, diagnostics and the guard against exceptions (src/c_api_internal.hpp), version
  and capabilities (c_api.cpp, backend_registry.cpp), and the entry points for encoders, decoders,
  frames, frame pools, buffers, submissions and the probe (c_api_encoder.cpp, c_api_decoder.cpp,
  c_api_frame.cpp, c_api_cpu_frame_pool.cpp, c_api_cpu_buffer.cpp, c_api_cpu_submission.cpp,
  c_api_input_probe.cpp). One thread's view: its diagnostic text and the objects its handles name.

  A handle is a number, a null pointer \<open>None\<close>; an object outlives its handle while others share it,
  so destroying a handle only makes its number invalid, and using an invalid one has no value. The
  calls into sessions and decoders with a queue are whole calls here; the sections they consist of
  are the subject of EncoderQueue and Decoder, and the lease a completing worker gives back is a step of the worker.
\<close>

section \<open>Capabilities, version and names of results\<close>

record hardware_probe =
  hp_runtime_available :: bool
  hp_vp9_encode :: bool
  hp_vp9_decode :: bool
  hp_av1_encode :: bool
  hp_av1_decode :: bool

definition flag8 :: "bool \<Rightarrow> u8" where
  "flag8 b = (if b then 1 else 0)"

definition capability :: "u32 \<Rightarrow> u32 \<Rightarrow> bool \<Rightarrow> bool \<Rightarrow> bool \<Rightarrow> backend_capability" where
  "capability backend codec can_decode can_encode hardware =
     \<lparr>bc_backend = backend, bc_codec = codec, bc_can_decode = flag8 can_decode,
      bc_can_encode = flag8 can_encode, bc_is_hardware = flag8 hardware\<rparr>"

text \<open>The CPU codecs and the hardware probes that were built in.\<close>

definition backend_capabilities ::
    "bool \<Rightarrow> bool \<Rightarrow> hardware_probe option \<Rightarrow> hardware_probe option \<Rightarrow> backend_capability list" where
  "backend_capabilities has_vp9 has_av1 intel nvidia =
     (if has_vp9 then [capability MKVC_BACKEND_CPU MKVC_CODEC_VP9 True True False] else []) @
     (if has_av1 then [capability MKVC_BACKEND_CPU MKVC_CODEC_AV1 True True False] else []) @
     (case intel of None \<Rightarrow> [] | Some p \<Rightarrow>
        (if hp_runtime_available p \<and> (hp_vp9_encode p \<or> hp_vp9_decode p)
         then [capability MKVC_BACKEND_INTEL MKVC_CODEC_VP9 (hp_vp9_decode p) (hp_vp9_encode p) True] else []) @
        (if hp_runtime_available p \<and> (hp_av1_encode p \<or> hp_av1_decode p)
         then [capability MKVC_BACKEND_INTEL MKVC_CODEC_AV1 (hp_av1_decode p) (hp_av1_encode p) True] else [])) @
     (case nvidia of None \<Rightarrow> [] | Some p \<Rightarrow>
        (if hp_runtime_available p \<and> hp_vp9_decode p
         then [capability MKVC_BACKEND_NVIDIA MKVC_CODEC_VP9 True False True] else []) @
        (if hp_runtime_available p \<and> (hp_av1_decode p \<or> hp_av1_encode p)
         then [capability MKVC_BACKEND_NVIDIA MKVC_CODEC_AV1 (hp_av1_decode p) (hp_av1_encode p) True] else []))"

text \<open>ABI version, major, minor and patch, into a structure of the caller's size.\<close>

definition mkvc_get_version :: "u32 option \<Rightarrow> mkvc_result \<times> (u32 \<times> u32 \<times> u32 \<times> u32) option" where
  "mkvc_get_version out_version =
     (case out_version of None \<Rightarrow> (MKVC_ERROR_INVALID_ARGUMENT, None)
      | Some struct_size \<Rightarrow> if struct_size < 20 then (MKVC_ERROR_INVALID_ARGUMENT, None)
          else (MKVC_OK, Some (1, 0, 1, 0)))"

text \<open>The caller's array by its capacity, if not null; the count written back and what is copied.\<close>

definition mkvc_get_backend_capabilities ::
    "backend_capability list \<Rightarrow> bool \<Rightarrow> nat option \<Rightarrow> mkvc_result \<times> nat option \<times> backend_capability list" where
  "mkvc_get_backend_capabilities available array inout_count =
     (case inout_count of
        None \<Rightarrow> (MKVC_ERROR_INVALID_ARGUMENT, None, [])
      | Some n \<Rightarrow>
          let required = length available
          in if \<not> array then (MKVC_OK, Some required, [])
             else if n < required then (MKVC_ERROR_BUFFER_TOO_SMALL, Some required, [])
             else (MKVC_OK, Some required, available))"

definition mkvc_result_string :: "int \<Rightarrow> string" where
  "mkvc_result_string raw_result =
     (if raw_result = 0 then ''ok'' else if raw_result = 1 then ''invalid argument''
      else if raw_result = 2 then ''buffer too small'' else if raw_result = 3 then ''not supported''
      else if raw_result = 4 then ''internal error'' else if raw_result = 5 then ''invalid state''
      else if raw_result = 6 then ''I/O error'' else if raw_result = 7 then ''codec error''
      else if raw_result = 8 then ''end of stream'' else if raw_result = 9 then ''would block''
      else if raw_result = 10 then ''timeout'' else if raw_result = 11 then ''cancelled''
      else ''unknown result'')"

definition create_encoder_session ::
    "backend_capability list \<Rightarrow> (encoder_kind \<Rightarrow> encoder_config \<Rightarrow> string + 'e) \<Rightarrow> u64 option \<Rightarrow> encoder_config \<Rightarrow>
     status + 'e session" where
  "create_encoder_session capabilities construct test_fail_after config =
     (if (ec_backend config = MKVC_BACKEND_INTEL \<or> ec_backend config = MKVC_BACKEND_NVIDIA) \<and>
         \<not> list_ex (\<lambda>item. bc_backend item = ec_backend config \<and> bc_codec item = ec_codec config \<and>
             bc_can_encode item \<noteq> 0) capabilities
      then Inl (MKVC_ERROR_NOT_SUPPORTED, ''requested hardware encode capability is unavailable'')
      else (case create_session construct config test_fail_after of
              Inl e \<Rightarrow> Inl (MKVC_ERROR_CODEC, e) | Inr s \<Rightarrow> Inr s))"

section \<open>Handles and diagnostics\<close>

record c_frame =
  cf_references :: u32
  cf_frame :: decoded_frame
  cf_source :: "nat option" \<comment> \<open>the decoder whose accumulators it shares\<close>

record ('e, 'b) c_world =
  cw_last_error :: string
  cw_next :: nat
  cw_live :: "nat list" \<comment> \<open>handles given out and not destroyed\<close>
  cw_encoders :: "nat \<Rightarrow> 'e session option"
  cw_decoders :: "nat \<Rightarrow> ('b, decoded_frame) decoder option"
  cw_frames :: "nat \<Rightarrow> c_frame option"
  cw_gpu_frames :: "nat \<Rightarrow> nat option" \<comment> \<open>the core behind a handle that still has one\<close>
  cw_submissions :: "nat \<Rightarrow> (nat \<times> nat) option" \<comment> \<open>an encoder and the index of its completion state\<close>
  cw_pools :: "nat \<Rightarrow> cpu_frame_pool option"
  cw_buffers :: "nat \<Rightarrow> (nat \<times> buffer_lease) option" \<comment> \<open>with its pool\<close>
  cw_frame_edges :: "(nat \<times> copy_edge) list" \<comment> \<open>what frames added to a decoder's accumulator\<close>

text \<open>What a call writes through its output pointers.\<close>

datatype c_output =
    NoOutput
  | Handle "nat option" \<comment> \<open>\<open>None\<close> for the null it is reset to\<close>
  | StatusWord u32
  | MetricsOutput pipeline_metrics
  | StageMetricsOutput stage_metrics
  | ComponentOutput component_metrics
  | CopyEdgeOutput copy_edge_metrics
  | InfoOutput video_info
  | ViewOutput frame_view
  | PoolStatsOutput cpu_frame_pool_stats
  | BufferOutput "u32 \<times> u32 \<times> u32 \<times> u32 \<times> u64" \<comment> \<open>format, width, height, planes, generation\<close>

type_synonym ('e, 'b) c_return = "((mkvc_result \<times> c_output) \<times> ('e, 'b) c_world) section_outcome option"

text \<open>Every entry clears the diagnostic first; \<open>fail\<close> sets it.\<close>

definition fail :: "mkvc_result \<Rightarrow> string \<Rightarrow> c_output \<Rightarrow> ('e, 'b) c_world \<Rightarrow> ('e, 'b) c_return" where
  "fail result message out w = Some (Passed ((result, out), w\<lparr>cw_last_error := message\<rparr>))"

definition succeed :: "mkvc_result \<Rightarrow> c_output \<Rightarrow> ('e, 'b) c_world \<Rightarrow> ('e, 'b) c_return" where
  "succeed result out w = Some (Passed ((result, out), w\<lparr>cw_last_error := []\<rparr>))"

text \<open>\<open>guard\<close> around a call whose result is returned as it is when it is \<open>silent\<close>, else through \<open>fail\<close>.\<close>

definition guard :: "string \<Rightarrow> mkvc_result list \<Rightarrow> c_output \<Rightarrow> status call \<Rightarrow> ('e, 'b) c_world \<Rightarrow> ('e, 'b) c_return" where
  "guard unknown_message silent out operation w =
     (case operation of
        Throws (Some what) \<Rightarrow> fail MKVC_ERROR_INTERNAL what out w
      | Throws None \<Rightarrow> fail MKVC_ERROR_INTERNAL unknown_message out w
      | Returns (result, error) \<Rightarrow>
          if result \<in> set silent then succeed result out w else fail result error out w)"

text \<open>The object a handle names: \<open>None\<close> for a number that is not a live handle of the kind.\<close>

definition object :: "('e, 'b) c_world \<Rightarrow> (nat \<Rightarrow> 'o option) \<Rightarrow> nat \<Rightarrow> 'o option" where
  "object w objects h = (if h \<in> set (cw_live w) then objects h else None)"

definition new_handle :: "('e, 'b) c_world \<Rightarrow> nat \<times> ('e, 'b) c_world" where
  "new_handle w = (cw_next w, w\<lparr>cw_next := Suc (cw_next w), cw_live := cw_next w # cw_live w\<rparr>)"

definition close_handle :: "nat \<Rightarrow> ('e, 'b) c_world \<Rightarrow> ('e, 'b) c_world" where
  "close_handle h w = w\<lparr>cw_live := filter (\<lambda>k. k \<noteq> h) (cw_live w)\<rparr>"

text \<open>What the calls need from outside: the parts of sessions and decoders that involve other
  threads, the libraries, and whether the heap has room for a handle.\<close>

record ('e, 'b, 'o) c_env =
  en_backend :: "'e backend"
  en_create_session :: "encoder_config \<Rightarrow> (status + 'e session) call"
  en_enqueue_owned :: "frame_view \<Rightarrow> bool \<Rightarrow> 'e session \<Rightarrow> status call \<times> 'e session"
  en_enqueue_borrowed :: "frame_view \<Rightarrow> 'e session \<Rightarrow> (status + nat) call \<times> 'e session"
  en_flush_queue :: "'e session \<Rightarrow> status call \<times> 'e session"
  en_close_session :: "'e session \<Rightarrow> status call \<times> 'e session"
  en_decoder :: "('b, decoded_frame) decoder_ops"
  en_create_decoder :: "decoder_config \<Rightarrow> (status + ('b, decoded_frame) decoder) call"
  en_join_prefetch :: "('b, decoded_frame) decoder \<Rightarrow> ('b, decoded_frame) decoder"
  en_elapsed :: u64
  en_components :: "nat \<Rightarrow> component_counters" \<comment> \<open>what the timers charged to a session or decoder so far\<close>
  en_heap_has_room :: bool
  en_out_of_memory :: string \<comment> \<open>what \<^verbatim>\<open>std::bad_alloc\<close> says\<close>
  en_pixels_address :: "nat \<Rightarrow> u64"
  en_plane_address :: "nat \<Rightarrow> nat \<Rightarrow> u64"
  en_page :: nat
  en_os_lock :: "'o \<Rightarrow> nat \<Rightarrow> string option \<times> 'o"
  en_os :: 'o
  en_packed :: packed_lib
  en_i420 :: i420_lib
  en_to_nv12 :: "yuv_planes \<Rightarrow> u32 \<Rightarrow> u32 \<Rightarrow> int \<times> bytes \<times> bytes"
  en_schedule :: "writes list \<Rightarrow> writes"
  en_auxiliary :: nat
  en_probe :: "string \<Rightarrow> (status + video_info) call"


section \<open>Encoders\<close>

text \<open>A call on an encoder's session: the checks, then the session's answer through the guard.\<close>

definition encoder_entry ::
    "string \<Rightarrow> string \<Rightarrow> mkvc_result list \<Rightarrow> bool \<Rightarrow> nat option \<Rightarrow> ('e session \<Rightarrow> status call \<times> 'e session) \<Rightarrow>
     ('e, 'b) c_world \<Rightarrow> ('e, 'b) c_return" where
  "encoder_entry invalid unknown silent valid encoder operation w =
     (if encoder = None \<or> \<not> valid then fail MKVC_ERROR_INVALID_ARGUMENT invalid NoOutput w
      else (case object w (cw_encoders w) (the encoder) of
              None \<Rightarrow> None
            | Some s \<Rightarrow> (case operation s of (answer, s') \<Rightarrow>
                guard unknown silent NoOutput answer (w\<lparr>cw_encoders := (cw_encoders w)(the encoder \<mapsto> s')\<rparr>))))"

definition returns :: "status \<times> 's \<Rightarrow> status call \<times> 's" where
  "returns r = (Returns (fst r), snd r)"

text \<open>\<^verbatim>\<open>EncoderSession::write\<close> and \<^verbatim>\<open>flush\<close>: at once without a queue, through it otherwise.\<close>

definition session_write ::
    "('e, 'b, 'o) c_env \<Rightarrow> frame_view \<Rightarrow> bool \<Rightarrow> 'e session \<Rightarrow> status call \<times> 'e session" where
  "session_write env frame block s =
     (if es_capacity s = 0 then write_synchronous (en_backend env) (en_elapsed env) frame s
      else (case write_check frame s of
              Some st \<Rightarrow> (Returns st, s)
            | None \<Rightarrow> (case en_enqueue_owned env frame block s of
                (answer, s') \<Rightarrow> (answer, case answer of
                   Returns st \<Rightarrow> if fst st = MKVC_OK then add_edge CpuNormalization s' else s'
                 | Throws _ \<Rightarrow> s'))))"

definition session_flush :: "('e, 'b, 'o) c_env \<Rightarrow> 'e session \<Rightarrow> status call \<times> 'e session" where
  "session_flush env s =
     (if es_capacity s = 0 then flush_synchronous (en_backend env) (en_elapsed env) s else en_flush_queue env s)"

definition session_submit ::
    "('e, 'b, 'o) c_env \<Rightarrow> frame_view \<Rightarrow> 'e session \<Rightarrow> (status + nat) call \<times> 'e session" where
  "session_submit env frame s =
     (let layout = validate_cpu_frame_layout frame (es_width s) (es_height s)
            (es_cpu_layout_mode s) (es_cpu_required_alignment s)
      in if fst layout \<noteq> MKVC_OK then (Returns (Inl layout), s)
         else (case en_enqueue_borrowed env frame s of
                 (answer, s') \<Rightarrow> (answer, case answer of
                    Returns (Inr index) \<Rightarrow> add_edge ZeroCopy s' | _ \<Rightarrow> s')))"

definition mkvc_encoder_create ::
    "('e, 'b, 'o) c_env \<Rightarrow> encoder_config option \<Rightarrow> bool \<Rightarrow> ('e, 'b) c_world \<Rightarrow> ('e, 'b) c_return" where
  "mkvc_encoder_create env config out_encoder w =
     (if \<not> out_encoder \<or> \<not> valid_encoder_config config
      then fail MKVC_ERROR_INVALID_ARGUMENT ''invalid encoder config'' (Handle None) w
      else let refuse = (\<lambda>answer. guard ''unknown encoder creation failure'' [] (Handle None) answer w)
      in (case en_create_session env (the config) of
            Throws what \<Rightarrow> refuse (Throws what)
          | Returns (Inl st) \<Rightarrow> refuse (Returns st)
          | Returns (Inr s) \<Rightarrow>
              if \<not> en_heap_has_room env then refuse (Throws (Some (en_out_of_memory env)))
              else let (h, w) = new_handle w
              in succeed MKVC_OK (Handle (Some h)) (w\<lparr>cw_encoders := (cw_encoders w)(h \<mapsto> s)\<rparr>)))"

definition mkvc_encoder_set_copy_policy ::
    "('e, 'b, 'o) c_env \<Rightarrow> nat option \<Rightarrow> copy_policy option \<Rightarrow> ('e, 'b) c_world \<Rightarrow> ('e, 'b) c_return" where
  "mkvc_encoder_set_copy_policy env encoder policy =
     encoder_entry ''invalid encoder copy policy'' ''unknown encoder copy policy failure'' [MKVC_OK]
       (valid_copy_policy policy) encoder (\<lambda>s. returns (set_copy_policy (en_backend env) (the policy) s))"

definition mkvc_encoder_set_cpu_layout_policy ::
    "('e, 'b, 'o) c_env \<Rightarrow> nat option \<Rightarrow> cpu_layout_policy option \<Rightarrow> ('e, 'b) c_world \<Rightarrow> ('e, 'b) c_return" where
  "mkvc_encoder_set_cpu_layout_policy env encoder policy =
     encoder_entry ''invalid encoder CPU layout policy'' ''unknown encoder CPU layout policy failure'' [MKVC_OK]
       (valid_cpu_layout_policy policy) encoder (\<lambda>s. returns (set_cpu_layout_policy (the policy) s))"

definition mkvc_encoder_write_frame ::
    "('e, 'b, 'o) c_env \<Rightarrow> nat option \<Rightarrow> frame_view option \<Rightarrow> ('e, 'b) c_world \<Rightarrow> ('e, 'b) c_return" where
  "mkvc_encoder_write_frame env encoder frame =
     encoder_entry ''invalid encoder or frame view'' ''unknown frame write failure'' [MKVC_OK]
       (valid_frame_view frame) encoder (session_write env (the frame) True)"

definition mkvc_encoder_write_frame_borrowed ::
    "('e, 'b, 'o) c_env \<Rightarrow> nat option \<Rightarrow> frame_view option \<Rightarrow> ('e, 'b) c_world \<Rightarrow> ('e, 'b) c_return" where
  "mkvc_encoder_write_frame_borrowed env encoder frame =
     encoder_entry ''invalid encoder or borrowed frame view'' ''unknown borrowed frame write failure'' [MKVC_OK]
       (valid_frame_view frame) encoder (write_borrowed (en_backend env) (en_elapsed env) (the frame))"

definition mkvc_encoder_try_write_frame ::
    "('e, 'b, 'o) c_env \<Rightarrow> nat option \<Rightarrow> frame_view option \<Rightarrow> ('e, 'b) c_world \<Rightarrow> ('e, 'b) c_return" where
  "mkvc_encoder_try_write_frame env encoder frame =
     encoder_entry ''invalid encoder or frame view'' ''unknown nonblocking frame write failure''
       [MKVC_OK, MKVC_WOULD_BLOCK] (valid_frame_view frame) encoder (session_write env (the frame) False)"

definition mkvc_encoder_write_gpu_frame ::
    "('e, 'b, 'o) c_env \<Rightarrow> nat option \<Rightarrow> nat option \<Rightarrow> ('e, 'b) c_world \<Rightarrow> ('e, 'b) c_return" where
  "mkvc_encoder_write_gpu_frame env encoder frame w =
     (if encoder \<noteq> None \<and> frame \<noteq> None \<and> the frame \<notin> set (cw_live w) then None
      else encoder_entry ''invalid encoder or GPU frame'' ''unknown GPU frame write failure'' [MKVC_OK]
        (frame \<noteq> None) encoder
        (\<lambda>s. case cw_gpu_frames w (the frame) of
               None \<Rightarrow> (Returns (MKVC_ERROR_INVALID_STATE, ''invalid or released GPU frame''), s)
             | Some core \<Rightarrow> write_gpu (en_backend env) (en_elapsed env) core s) w)"

definition mkvc_encoder_flush ::
    "('e, 'b, 'o) c_env \<Rightarrow> nat option \<Rightarrow> ('e, 'b) c_world \<Rightarrow> ('e, 'b) c_return" where
  "mkvc_encoder_flush env encoder =
     encoder_entry ''encoder is null'' ''unknown encoder flush failure'' [MKVC_OK] True encoder (session_flush env)"

definition mkvc_encoder_cancel :: "nat option \<Rightarrow> ('e, 'b) c_world \<Rightarrow> ('e, 'b) c_return" where
  "mkvc_encoder_cancel encoder =
     encoder_entry ''encoder is null'' ''unknown encoder cancel failure'' [MKVC_OK] True encoder
       (\<lambda>s. returns (cancel_session s))"

definition mkvc_encoder_close ::
    "('e, 'b, 'o) c_env \<Rightarrow> nat option \<Rightarrow> ('e, 'b) c_world \<Rightarrow> ('e, 'b) c_return" where
  "mkvc_encoder_close env encoder =
     encoder_entry ''encoder is null'' ''unknown encoder close failure'' [MKVC_OK] True encoder (en_close_session env)"

text \<open>The four metrics getters differ in what they read.\<close>

definition encoder_getter ::
    "string \<Rightarrow> bool \<Rightarrow> nat option \<Rightarrow> (nat \<Rightarrow> 'e session \<Rightarrow> c_output) \<Rightarrow> ('e, 'b) c_world \<Rightarrow> ('e, 'b) c_return" where
  "encoder_getter invalid valid encoder output w =
     (if encoder = None \<or> \<not> valid then fail MKVC_ERROR_INVALID_ARGUMENT invalid NoOutput w
      else (case object w (cw_encoders w) (the encoder) of
              None \<Rightarrow> None | Some s \<Rightarrow> succeed MKVC_OK (output (the encoder) s) w))"

definition mkvc_encoder_get_metrics :: "nat option \<Rightarrow> out_struct \<Rightarrow> ('e, 'b) c_world \<Rightarrow> ('e, 'b) c_return" where
  "mkvc_encoder_get_metrics encoder out =
     encoder_getter ''invalid encoder metrics output'' (valid_metrics_output out) encoder
       (\<lambda>h s. MetricsOutput (get_metrics s))"

definition mkvc_encoder_get_stage_metrics :: "nat option \<Rightarrow> out_struct \<Rightarrow> ('e, 'b) c_world \<Rightarrow> ('e, 'b) c_return" where
  "mkvc_encoder_get_stage_metrics encoder out =
     encoder_getter ''invalid encoder stage-metrics output'' (valid_stage_metrics_output out) encoder
       (\<lambda>h s. StageMetricsOutput (snd (snd (get_stage_metrics s))))"

definition mkvc_encoder_get_component_metrics ::
    "('e, 'b, 'o) c_env \<Rightarrow> nat option \<Rightarrow> out_struct \<Rightarrow> ('e, 'b) c_world \<Rightarrow> ('e, 'b) c_return" where
  "mkvc_encoder_get_component_metrics env encoder out =
     encoder_getter ''invalid encoder component-metrics output'' (valid_component_metrics_output out) encoder
       (\<lambda>h s. ComponentOutput (component_snapshot (en_components env h)))"

definition mkvc_encoder_get_copy_edge_metrics :: "nat option \<Rightarrow> out_struct \<Rightarrow> ('e, 'b) c_world \<Rightarrow> ('e, 'b) c_return" where
  "mkvc_encoder_get_copy_edge_metrics encoder out =
     encoder_getter ''invalid encoder copy-edge metrics output'' (valid_copy_edge_metrics_output out) encoder
       (\<lambda>h s. CopyEdgeOutput (get_copy_edge_metrics s))"

text \<open>\<^verbatim>\<open>delete\<close> closes the session; a null handle is accepted. There is no result.\<close>

definition mkvc_encoder_destroy ::
    "('e, 'b, 'o) c_env \<Rightarrow> nat option \<Rightarrow> ('e, 'b) c_world \<Rightarrow> ('e, 'b) c_world option" where
  "mkvc_encoder_destroy env encoder w =
     (case encoder of None \<Rightarrow> Some w | Some h \<Rightarrow>
       (case object w (cw_encoders w) h of None \<Rightarrow> None | Some s \<Rightarrow>
          Some (close_handle h (w\<lparr>cw_encoders := (cw_encoders w)(h \<mapsto> snd (en_close_session env s))\<rparr>))))"

section \<open>Submissions\<close>

text \<open>The completion state behind a handle.\<close>

definition submission_state :: "('e, 'b) c_world \<Rightarrow> nat \<Rightarrow> submission option" where
  "submission_state w h =
     (case object w (cw_submissions w) h of None \<Rightarrow> None | Some (e, index) \<Rightarrow>
       (case cw_encoders w e of None \<Rightarrow> None | Some s \<Rightarrow>
          if index < length (es_submissions s) then Some (es_submissions s ! index) else None))"

text \<open>The error text the state reports beside the status word is dropped: the call succeeds.\<close>

definition mkvc_submission_query :: "nat option \<Rightarrow> bool \<Rightarrow> ('e, 'b) c_world \<Rightarrow> ('e, 'b) c_return" where
  "mkvc_submission_query submission out_status w =
     (if submission = None \<or> \<not> out_status
      then fail MKVC_ERROR_INVALID_ARGUMENT ''invalid submission query'' NoOutput w
      else (case submission_state w (the submission) of
              None \<Rightarrow> None
            | Some s \<Rightarrow> succeed MKVC_OK (StatusWord (fst (query_submission s))) w))"

definition mkvc_submission_wait :: "nat option \<Rightarrow> u32 \<Rightarrow> ('e, 'b) c_world \<Rightarrow> ('e, 'b) c_return" where
  "mkvc_submission_wait submission timeout_ms w =
     (if submission = None
      then fail MKVC_ERROR_INVALID_ARGUMENT ''invalid submission wait'' NoOutput w
      else (case submission_state w (the submission) of
              None \<Rightarrow> None
            | Some s \<Rightarrow>
                (case wait_submission timeout_ms s of
                   Blocked \<Rightarrow> Some Blocked
                 | Passed (result, error) \<Rightarrow>
                     if result = MKVC_OK then succeed result NoOutput w else fail result error NoOutput w)))"

text \<open>Releasing waits for the completion.\<close>

definition mkvc_submission_release ::
    "nat option \<Rightarrow> ('e, 'b) c_world \<Rightarrow> ('e, 'b) c_world section_outcome option" where
  "mkvc_submission_release submission w =
     (case submission of None \<Rightarrow> Some (Passed w) | Some h \<Rightarrow>
       (case submission_state w h of None \<Rightarrow> None | Some s \<Rightarrow>
          (case wait_submission (- 1) s of
             Blocked \<Rightarrow> Some Blocked | Passed _ \<Rightarrow> Some (Passed (close_handle h w)))))"

definition mkvc_encoder_submit_frame_borrowed ::
    "('e, 'b, 'o) c_env \<Rightarrow> nat option \<Rightarrow> frame_view option \<Rightarrow> bool \<Rightarrow> ('e, 'b) c_world \<Rightarrow> ('e, 'b) c_return" where
  "mkvc_encoder_submit_frame_borrowed env encoder frame out_submission w =
     (if encoder = None \<or> \<not> out_submission \<or> \<not> valid_frame_view frame
      then fail MKVC_ERROR_INVALID_ARGUMENT ''invalid encoder, borrowed frame, or submission output'' NoOutput w
      else let refuse = (\<lambda>answer w. guard ''unknown borrowed submission failure'' [] (Handle None) answer w)
      in if \<not> en_heap_has_room env then refuse (Throws (Some (en_out_of_memory env))) w
      else (case object w (cw_encoders w) (the encoder) of None \<Rightarrow> None | Some s \<Rightarrow>
        (case session_submit env (the frame) s of (answer, s') \<Rightarrow>
          let w = w\<lparr>cw_encoders := (cw_encoders w)(the encoder \<mapsto> s')\<rparr>
          in (case answer of
                Throws what \<Rightarrow> refuse (Throws what) w
              | Returns (Inl st) \<Rightarrow> refuse (Returns st) w
              | Returns (Inr index) \<Rightarrow>
                  let (h, w) = new_handle w
                  in succeed MKVC_OK (Handle (Some h)) (w\<lparr>cw_submissions := (cw_submissions w)(h \<mapsto> (the encoder, index))\<rparr>)))))"

definition retain_owner :: "nat \<Rightarrow> nat \<Rightarrow> 'e session \<Rightarrow> 'e session" where
  "retain_owner index owner s =
     s\<lparr>es_submissions := (es_submissions s)[index := set_owner owner (es_submissions s ! index)]\<rparr>"

text \<open>The handle is allocated before the frame is submitted, the buffer retained behind it.\<close>

definition mkvc_encoder_submit_cpu_buffer ::
    "('e, 'b, 'o) c_env \<Rightarrow> nat option \<Rightarrow> nat option \<Rightarrow> i64 \<Rightarrow> bool \<Rightarrow> ('e, 'b) c_world \<Rightarrow> ('e, 'b) c_return" where
  "mkvc_encoder_submit_cpu_buffer env encoder buffer pts out_submission w =
     (if encoder = None \<or> buffer = None \<or> \<not> out_submission
      then fail MKVC_ERROR_INVALID_ARGUMENT ''invalid encoder, CPU buffer, or submission output'' NoOutput w
      else let refuse = (\<lambda>answer w. guard ''unknown native CPU buffer submission failure'' [] (Handle None) answer w)
      in (case object w (cw_buffers w) (the buffer) of None \<Rightarrow> None | Some (pool, l) \<Rightarrow>
         (case cw_pools w pool of None \<Rightarrow> None | Some p \<Rightarrow>
         (case lease_view (en_plane_address env) l p of
            Inl st \<Rightarrow> refuse (Returns st) w
          | Inr view \<Rightarrow>
              if \<not> en_heap_has_room env then refuse (Throws (Some (en_out_of_memory env))) w
              else (case object w (cw_encoders w) (the encoder) of None \<Rightarrow> None | Some s \<Rightarrow>
                (case session_submit env (view\<lparr>fv_pts := pts\<rparr>) s of (answer, s') \<Rightarrow>
                   let w' = w\<lparr>cw_encoders := (cw_encoders w)(the encoder \<mapsto> s')\<rparr>
                   in (case answer of
                         Throws what \<Rightarrow> refuse (Throws what) w'
                       | Returns (Inl st) \<Rightarrow> refuse (Returns st) w'
                       | Returns (Inr index) \<Rightarrow>
                           let (h, w'') = new_handle (w\<lparr>cw_encoders := (cw_encoders w)(the encoder \<mapsto>
                                 retain_owner index (the buffer) s')\<rparr>)
                           in succeed MKVC_OK (Handle (Some h))
                                (w''\<lparr>cw_submissions := (cw_submissions w'')(h \<mapsto> (the encoder, index))\<rparr>))))))))"


section \<open>Decoders\<close>

definition mkvc_decoder_create ::
    "('e, 'b, 'o) c_env \<Rightarrow> decoder_config option \<Rightarrow> bool \<Rightarrow> ('e, 'b) c_world \<Rightarrow> ('e, 'b) c_return" where
  "mkvc_decoder_create env config out_decoder w =
     (if \<not> out_decoder \<or> \<not> valid_decoder_config config
      then fail MKVC_ERROR_INVALID_ARGUMENT ''invalid decoder config'' (Handle None) w
      else let refuse = (\<lambda>answer. guard ''unknown decoder creation failure'' [] (Handle None) answer w)
      in (case en_create_decoder env (the config) of
            Throws what \<Rightarrow> refuse (Throws what)
          | Returns (Inl st) \<Rightarrow> refuse (Returns st)
          | Returns (Inr d) \<Rightarrow>
              let (h, w) = new_handle w
              in succeed MKVC_OK (Handle (Some h)) (w\<lparr>cw_decoders := (cw_decoders w)(h \<mapsto> d)\<rparr>)))"

definition decoder_entry ::
    "string \<Rightarrow> string \<Rightarrow> bool \<Rightarrow> nat option \<Rightarrow>
     (('b, decoded_frame) decoder \<Rightarrow> status call \<times> ('b, decoded_frame) decoder) \<Rightarrow>
     ('e, 'b) c_world \<Rightarrow> ('e, 'b) c_return" where
  "decoder_entry invalid unknown valid decoder operation w =
     (if decoder = None \<or> \<not> valid then fail MKVC_ERROR_INVALID_ARGUMENT invalid NoOutput w
      else (case object w (cw_decoders w) (the decoder) of
              None \<Rightarrow> None
            | Some d \<Rightarrow> (case operation d of (answer, d') \<Rightarrow>
                guard unknown [MKVC_OK] NoOutput answer (w\<lparr>cw_decoders := (cw_decoders w)(the decoder \<mapsto> d')\<rparr>))))"

definition mkvc_decoder_set_copy_policy ::
    "nat option \<Rightarrow> copy_policy option \<Rightarrow> ('e, 'b) c_world \<Rightarrow> ('e, 'b) c_return" where
  "mkvc_decoder_set_copy_policy decoder policy =
     decoder_entry ''invalid decoder copy policy'' ''unknown decoder copy policy failure''
       (valid_copy_policy policy) decoder (\<lambda>d. returns (set_decoder_copy_policy (the policy) d))"

text \<open>\<^verbatim>\<open>read_cpu\<close>: from the read-ahead queue, once its condition holds, or directly.\<close>

definition decoder_read_cpu ::
    "('e, 'b, 'o) c_env \<Rightarrow> ('b, decoded_frame) decoder \<Rightarrow>
     ((status \<times> decoded_frame option) call \<times> ('b, decoded_frame) decoder) section_outcome" where
  "decoder_read_cpu env d =
     (if dd_capacity d \<noteq> 0
      then (case read_prefetched (en_elapsed env) d of
              Blocked \<Rightarrow> Blocked | Passed (r, d') \<Rightarrow> Passed (Returns r, d'))
      else (case read_cpu_sync (en_decoder env) (en_elapsed env) d of
              (Throws what, d') \<Rightarrow> Passed (Throws what, d')
            | (Returns (st, frame), d') \<Rightarrow> Passed (Returns (st, Some frame), d')))"

definition mkvc_decoder_read ::
    "('e, 'b, 'o) c_env \<Rightarrow> nat option \<Rightarrow> bool \<Rightarrow> ('e, 'b) c_world \<Rightarrow> ('e, 'b) c_return" where
  "mkvc_decoder_read env decoder out_frame w =
     (if decoder = None \<or> \<not> out_frame
      then fail MKVC_ERROR_INVALID_ARGUMENT ''invalid decoder or frame output'' (Handle None) w
      else (case object w (cw_decoders w) (the decoder) of None \<Rightarrow> None | Some d \<Rightarrow>
        let refuse = (\<lambda>answer w. guard ''unknown decoder read failure'' [MKVC_END_OF_STREAM] (Handle None) answer w);
            policy = check_cpu_read d
        in if fst policy \<noteq> MKVC_OK then fail (fst policy) (snd policy) (Handle None) w
           else (case decoder_read_cpu env d of
                   Blocked \<Rightarrow> Some Blocked
                 | Passed (answer, d') \<Rightarrow>
                     let w = w\<lparr>cw_decoders := (cw_decoders w)(the decoder \<mapsto> d')\<rparr>
                     in (case answer of
                           Throws what \<Rightarrow> refuse (Throws what) w
                         | Returns (st, frame) \<Rightarrow>
                             if fst st \<noteq> MKVC_OK then refuse (Returns st) w
                             else if \<not> en_heap_has_room env then refuse (Throws (Some (en_out_of_memory env))) w
                             else (case frame of None \<Rightarrow> None | Some f \<Rightarrow>
                               let (h, w) = new_handle w
                               in succeed MKVC_OK (Handle (Some h)) (w\<lparr>cw_frames := (cw_frames w)(h \<mapsto>
                                    \<lparr>cf_references = 1, cf_frame = f, cf_source = decoder\<rparr>)\<rparr>))))))"

text \<open>The GPU frame read is a handle of its own core.\<close>

definition mkvc_decoder_read_gpu ::
    "('e, 'b, 'o) c_env \<Rightarrow> nat option \<Rightarrow> bool \<Rightarrow> ('e, 'b) c_world \<Rightarrow> ('e, 'b) c_return" where
  "mkvc_decoder_read_gpu env decoder out_frame w =
     (if decoder = None \<or> \<not> out_frame
      then fail MKVC_ERROR_INVALID_ARGUMENT ''invalid decoder or GPU frame output'' (Handle None) w
      else (case object w (cw_decoders w) (the decoder) of None \<Rightarrow> None | Some d \<Rightarrow>
        let supported = check_gpu_read d
        in if fst supported \<noteq> MKVC_OK then fail (fst supported) (snd supported) (Handle None) w
           else (case read_gpu_sync (en_decoder env) (en_elapsed env) d of (answer, d') \<Rightarrow>
             let w = w\<lparr>cw_decoders := (cw_decoders w)(the decoder \<mapsto> d')\<rparr>
             in if (case answer of Returns st \<Rightarrow> fst st = MKVC_OK | Throws _ \<Rightarrow> False)
                then let (h, w) = new_handle w
                     in succeed MKVC_OK (Handle (Some h)) (w\<lparr>cw_gpu_frames := (cw_gpu_frames w)(h \<mapsto> h)\<rparr>)
                else guard ''unknown GPU decoder read failure'' [MKVC_END_OF_STREAM] (Handle None) answer w)))"

definition decoder_close ::
    "('e, 'b, 'o) c_env \<Rightarrow> ('b, decoded_frame) decoder \<Rightarrow> status call \<times> ('b, decoded_frame) decoder" where
  "decoder_close env d = close_joined (en_decoder env) (en_elapsed env) (en_join_prefetch env (stop_request d))"

definition mkvc_decoder_close ::
    "('e, 'b, 'o) c_env \<Rightarrow> nat option \<Rightarrow> ('e, 'b) c_world \<Rightarrow> ('e, 'b) c_return" where
  "mkvc_decoder_close env decoder =
     decoder_entry ''decoder is null'' ''unknown decoder close failure'' True decoder (decoder_close env)"

definition decoder_getter ::
    "string \<Rightarrow> bool \<Rightarrow> nat option \<Rightarrow> (nat \<Rightarrow> ('b, decoded_frame) decoder \<Rightarrow> c_output) \<Rightarrow>
     ('e, 'b) c_world \<Rightarrow> ('e, 'b) c_return" where
  "decoder_getter invalid valid decoder output w =
     (if decoder = None \<or> \<not> valid then fail MKVC_ERROR_INVALID_ARGUMENT invalid NoOutput w
      else (case object w (cw_decoders w) (the decoder) of
              None \<Rightarrow> None | Some d \<Rightarrow> succeed MKVC_OK (output (the decoder) d) w))"

definition mkvc_decoder_get_metrics :: "nat option \<Rightarrow> out_struct \<Rightarrow> ('e, 'b) c_world \<Rightarrow> ('e, 'b) c_return" where
  "mkvc_decoder_get_metrics decoder out =
     decoder_getter ''invalid decoder metrics output'' (valid_metrics_output out) decoder
       (\<lambda>h d. MetricsOutput (snapshot_metrics d))"

definition mkvc_decoder_get_stage_metrics :: "nat option \<Rightarrow> out_struct \<Rightarrow> ('e, 'b) c_world \<Rightarrow> ('e, 'b) c_return" where
  "mkvc_decoder_get_stage_metrics decoder out =
     decoder_getter ''invalid decoder stage-metrics output'' (valid_stage_metrics_output out) decoder
       (\<lambda>h d. StageMetricsOutput (dd_stages d))"

definition mkvc_decoder_get_component_metrics ::
    "('e, 'b, 'o) c_env \<Rightarrow> nat option \<Rightarrow> out_struct \<Rightarrow> ('e, 'b) c_world \<Rightarrow> ('e, 'b) c_return" where
  "mkvc_decoder_get_component_metrics env decoder out =
     decoder_getter ''invalid decoder component-metrics output'' (valid_component_metrics_output out) decoder
       (\<lambda>h d. ComponentOutput (component_snapshot (en_components env h)))"

text \<open>The accumulator of copy edges is shared by a decoder and its frames.\<close>

definition shared_copy_edges :: "('e, 'b) c_world \<Rightarrow> nat \<Rightarrow> ('b, decoded_frame) decoder \<Rightarrow> copy_edge_counters" where
  "shared_copy_edges w h d =
     fold add_copy (map snd (filter (\<lambda>e. fst e = h) (cw_frame_edges w))) (dd_copy_edges d)"

definition mkvc_decoder_get_copy_edge_metrics :: "nat option \<Rightarrow> out_struct \<Rightarrow> ('e, 'b) c_world \<Rightarrow> ('e, 'b) c_return" where
  "mkvc_decoder_get_copy_edge_metrics decoder out w =
     decoder_getter ''invalid decoder copy-edge metrics output'' (valid_copy_edge_metrics_output out) decoder
       (\<lambda>h d. CopyEdgeOutput (copy_edge_snapshot (shared_copy_edges w h d))) w"

definition mkvc_decoder_get_info :: "nat option \<Rightarrow> out_struct \<Rightarrow> ('e, 'b) c_world \<Rightarrow> ('e, 'b) c_return" where
  "mkvc_decoder_get_info decoder out =
     decoder_getter ''invalid decoder video-info output'' (valid_output sizeof_video_info out) decoder
       (\<lambda>h d. InfoOutput (dd_video_info d))"

definition mkvc_decoder_destroy ::
    "('e, 'b, 'o) c_env \<Rightarrow> nat option \<Rightarrow> ('e, 'b) c_world \<Rightarrow> ('e, 'b) c_world option" where
  "mkvc_decoder_destroy env decoder w =
     (case decoder of None \<Rightarrow> Some w | Some h \<Rightarrow>
       (case object w (cw_decoders w) h of None \<Rightarrow> None | Some d \<Rightarrow>
          Some (close_handle h (w\<lparr>cw_decoders := (cw_decoders w)(h \<mapsto> snd (decoder_close env d))\<rparr>))))"

section \<open>Frames\<close>

definition add_frame_edges :: "nat option \<Rightarrow> copy_edge list \<Rightarrow> ('e, 'b) c_world \<Rightarrow> ('e, 'b) c_world" where
  "add_frame_edges source edges w =
     (case source of None \<Rightarrow> w | Some h \<Rightarrow> w\<lparr>cw_frame_edges := cw_frame_edges w @ map (Pair h) edges\<rparr>)"

definition mkvc_frame_retain :: "nat option \<Rightarrow> ('e, 'b) c_world \<Rightarrow> ('e, 'b) c_world option" where
  "mkvc_frame_retain frame w =
     (case frame of None \<Rightarrow> Some w | Some h \<Rightarrow>
       (case object w (cw_frames w) h of None \<Rightarrow> None | Some f \<Rightarrow>
          Some (w\<lparr>cw_frames := (cw_frames w)(h \<mapsto> f\<lparr>cf_references := cf_references f + 1\<rparr>)\<rparr>)))"

definition mkvc_frame_release :: "nat option \<Rightarrow> ('e, 'b) c_world \<Rightarrow> ('e, 'b) c_world option" where
  "mkvc_frame_release frame w =
     (case frame of None \<Rightarrow> Some w | Some h \<Rightarrow>
       (case object w (cw_frames w) h of None \<Rightarrow> None | Some f \<Rightarrow>
          let w' = w\<lparr>cw_frames := (cw_frames w)(h \<mapsto> f\<lparr>cf_references := cf_references f - 1\<rparr>)\<rparr>
          in Some (if cf_references f = 1 then close_handle h w' else w')))"

text \<open>The view of a decoded frame: pointers into its pixels; the output's size and version stay.\<close>

definition frame_pixels_view :: "u64 \<Rightarrow> u32 \<times> u32 \<Rightarrow> decoded_frame \<Rightarrow> frame_view" where
  "frame_pixels_view base out f =
     \<lparr>fv_struct_size = fst out, fv_struct_version = snd out, fv_pixel_format = MKVC_PIXEL_FORMAT_I420,
      fv_width = df_width f, fv_height = df_height f,
      fv_planes = (\<lambda>k. if k < 3 then Some \<lparr>address = base + of_nat (df_offsets f ! k),
                                          memory = drop (df_offsets f ! k) (df_pixels f)\<rparr> else None),
      fv_strides = (\<lambda>k. if k < 3 then df_strides f ! k else 0), fv_pts = df_pts_ns f\<rparr>"

definition mkvc_frame_get_view ::
    "('e, 'b, 'o) c_env \<Rightarrow> nat option \<Rightarrow> out_struct \<Rightarrow> ('e, 'b) c_world \<Rightarrow> ('e, 'b) c_return" where
  "mkvc_frame_get_view env frame out w =
     (if frame = None \<or> \<not> valid_output sizeof_frame_view out
      then fail MKVC_ERROR_INVALID_ARGUMENT ''invalid frame or output view'' NoOutput w
      else (case object w (cw_frames w) (the frame) of None \<Rightarrow> None | Some f \<Rightarrow>
         succeed MKVC_OK (ViewOutput (frame_pixels_view (en_pixels_address env (the frame)) (the out) (cf_frame f)))
           (add_frame_edges (cf_source f) [ZeroCopy] w)))"

text \<open>\<^verbatim>\<open>copy_frame\<close>; the destination's planes are written even where the call fails.\<close>

definition copy_frame_entry ::
    "('e, 'b, 'o) c_env \<Rightarrow> c_frame \<Rightarrow> frame_view \<Rightarrow> u32 \<Rightarrow> ('e, 'b) c_world \<Rightarrow> ('e, 'b) c_return" where
  "copy_frame_entry env f destination conversion_threads w =
     (case copy_frame_to (en_packed env) (en_i420 env) (en_to_nv12 env) (en_schedule env) (en_auxiliary env)
             conversion_threads (cf_frame f) destination of
        None \<Rightarrow> None
      | Some (st, view) \<Rightarrow>
          guard ''unknown frame conversion failure'' [MKVC_OK] (ViewOutput view) (Returns st)
            (if fst st = MKVC_OK
             then add_frame_edges (cf_source f) (CpuNormalization #
                    (if fv_pixel_format destination \<noteq> MKVC_PIXEL_FORMAT_I420 then [PixelConversion] else [])) w
             else w))"

definition mkvc_frame_copy_to ::
    "('e, 'b, 'o) c_env \<Rightarrow> nat option \<Rightarrow> frame_view option \<Rightarrow> ('e, 'b) c_world \<Rightarrow> ('e, 'b) c_return" where
  "mkvc_frame_copy_to env frame destination w =
     (if frame = None \<or> \<not> valid_frame_view destination
      then fail MKVC_ERROR_INVALID_ARGUMENT ''invalid frame or mutable destination view'' NoOutput w
      else (case object w (cw_frames w) (the frame) of None \<Rightarrow> None | Some f \<Rightarrow>
         copy_frame_entry env f (the destination) 0 w))"

record frame_copy_options =
  co_struct_size :: u32
  co_struct_version :: u32
  co_conversion_threads :: u32
  co_reserved :: u32

definition mkvc_frame_copy_to_ex ::
    "('e, 'b, 'o) c_env \<Rightarrow> nat option \<Rightarrow> frame_view option \<Rightarrow> frame_copy_options option \<Rightarrow>
     ('e, 'b) c_world \<Rightarrow> ('e, 'b) c_return" where
  "mkvc_frame_copy_to_ex env frame destination options w =
     (if frame = None \<or> \<not> valid_frame_view destination \<or>
         (case options of None \<Rightarrow> True | Some o' \<Rightarrow> co_struct_size o' < 16 \<or> co_struct_version o' \<noteq> 1 \<or>
            co_conversion_threads o' > 4 \<or> co_reserved o' \<noteq> 0)
      then fail MKVC_ERROR_INVALID_ARGUMENT ''invalid frame copy options'' NoOutput w
      else (case object w (cw_frames w) (the frame) of None \<Rightarrow> None | Some f \<Rightarrow>
         copy_frame_entry env f (the destination) (co_conversion_threads (the options)) w))"

abbreviation sizeof_frame_process_config :: u32 where "sizeof_frame_process_config \<equiv> 52"

definition mkvc_frame_process ::
    "('e, 'b, 'o) c_env \<Rightarrow> nat option \<Rightarrow> frame_process_config option \<Rightarrow> bool \<Rightarrow>
     ('e, 'b) c_world \<Rightarrow> ('e, 'b) c_return" where
  "mkvc_frame_process env frame config out_frame w =
     (if frame = None \<or> \<not> out_frame \<or>
         (case config of None \<Rightarrow> True
          | Some c \<Rightarrow> pr_struct_size c < sizeof_frame_process_config \<or> pr_struct_version c \<noteq> 1)
      then fail MKVC_ERROR_INVALID_ARGUMENT ''invalid frame process arguments'' (Handle None) w
      else (case object w (cw_frames w) (the frame) of None \<Rightarrow> None | Some f \<Rightarrow>
        (case process_frame_cpu (en_i420 env) (cf_frame f) (the config) of
           None \<Rightarrow> None
         | Some (st, processed) \<Rightarrow>
             if fst st \<noteq> MKVC_OK then fail (fst st) (snd st) (Handle None) w
             else if \<not> en_heap_has_room env then fail MKVC_ERROR_INTERNAL (en_out_of_memory env) (Handle None) w
             else (case processed of None \<Rightarrow> None | Some g \<Rightarrow>
               let (h, w) = new_handle (add_frame_edges (cf_source f) [CpuNormalization] w)
               in succeed MKVC_OK (Handle (Some h)) (w\<lparr>cw_frames := (cw_frames w)(h \<mapsto>
                    \<lparr>cf_references = 1, cf_frame = g, cf_source = cf_source f\<rparr>)\<rparr>)))))"


section \<open>Frame pools and buffers\<close>

abbreviation sizeof_cpu_frame_pool_config :: u32 where "sizeof_cpu_frame_pool_config \<equiv> 24"
abbreviation sizeof_cpu_frame_pool_options :: u32 where "sizeof_cpu_frame_pool_options \<equiv> 16"
abbreviation sizeof_cpu_buffer_desc :: u32 where "sizeof_cpu_buffer_desc \<equiv> 32"

definition create_pool ::
    "('e, 'b, 'o) c_env \<Rightarrow> cpu_frame_pool_config \<Rightarrow> u32 \<Rightarrow> ('e, 'b) c_world \<Rightarrow> ('e, 'b) c_return" where
  "create_pool env config memory_mode w =
     (case create_cpu_frame_pool (en_page env) (en_os_lock env) config memory_mode (en_os env) of
        Inl st \<Rightarrow> fail (fst st) (snd st) (Handle None) w
      | Inr p \<Rightarrow>
          if \<not> en_heap_has_room env then fail MKVC_ERROR_INTERNAL (en_out_of_memory env) (Handle None) w
          else let (h, w) = new_handle w
          in succeed MKVC_OK (Handle (Some h)) (w\<lparr>cw_pools := (cw_pools w)(h \<mapsto> p)\<rparr>))"

definition valid_pool_config :: "cpu_frame_pool_config option \<Rightarrow> bool" where
  "valid_pool_config config = (case config of None \<Rightarrow> False
     | Some c \<Rightarrow> pc_struct_size c \<ge> sizeof_cpu_frame_pool_config \<and> pc_struct_version c = 1)"

definition mkvc_cpu_frame_pool_create ::
    "('e, 'b, 'o) c_env \<Rightarrow> cpu_frame_pool_config option \<Rightarrow> bool \<Rightarrow> ('e, 'b) c_world \<Rightarrow> ('e, 'b) c_return" where
  "mkvc_cpu_frame_pool_create env config out_pool w =
     (if \<not> out_pool \<or> \<not> valid_pool_config config
      then fail MKVC_ERROR_INVALID_ARGUMENT ''invalid native CPU frame pool configuration'' NoOutput w
      else create_pool env (the config) MKVC_CPU_MEMORY_PAGEABLE w)"

record cpu_frame_pool_options =
  po_struct_size :: u32
  po_struct_version :: u32
  po_memory_mode :: u32
  po_reserved :: u32

definition mkvc_cpu_frame_pool_create_ex ::
    "('e, 'b, 'o) c_env \<Rightarrow> cpu_frame_pool_config option \<Rightarrow> cpu_frame_pool_options option \<Rightarrow> bool \<Rightarrow>
     ('e, 'b) c_world \<Rightarrow> ('e, 'b) c_return" where
  "mkvc_cpu_frame_pool_create_ex env config options out_pool w =
     (if \<not> out_pool \<or> \<not> valid_pool_config config \<or>
         (case options of None \<Rightarrow> True | Some o' \<Rightarrow> po_struct_size o' < sizeof_cpu_frame_pool_options \<or>
            po_struct_version o' \<noteq> 1 \<or> po_reserved o' \<noteq> 0)
      then fail MKVC_ERROR_INVALID_ARGUMENT ''invalid native CPU frame pool options'' (Handle None) w
      else create_pool env (the config) (po_memory_mode (the options)) w)"

definition mkvc_cpu_frame_pool_get_stats :: "nat option \<Rightarrow> out_struct \<Rightarrow> ('e, 'b) c_world \<Rightarrow> ('e, 'b) c_return" where
  "mkvc_cpu_frame_pool_get_stats pool out w =
     (if pool = None \<or> \<not> valid_output sizeof_cpu_frame_pool_stats out
      then fail MKVC_ERROR_INVALID_ARGUMENT ''invalid native CPU frame pool statistics output'' NoOutput w
      else (case object w (cw_pools w) (the pool) of
              None \<Rightarrow> None | Some p \<Rightarrow> succeed MKVC_OK (PoolStatsOutput (pool_stats p)) w))"

text \<open>The pool itself lives on while buffers share it.\<close>

definition mkvc_cpu_frame_pool_destroy :: "nat option \<Rightarrow> ('e, 'b) c_world \<Rightarrow> ('e, 'b) c_world option" where
  "mkvc_cpu_frame_pool_destroy pool w =
     (case pool of None \<Rightarrow> Some w | Some h \<Rightarrow>
       (case object w (cw_pools w) h of None \<Rightarrow> None | Some p \<Rightarrow> Some (close_handle h w)))"

text \<open>\<open>expired\<close>: whether the timeout of the wait has passed. The handle is allocated first.\<close>

definition mkvc_cpu_frame_pool_acquire ::
    "('e, 'b, 'o) c_env \<Rightarrow> bool \<Rightarrow> nat option \<Rightarrow> u32 \<Rightarrow> bool \<Rightarrow> ('e, 'b) c_world \<Rightarrow> ('e, 'b) c_return" where
  "mkvc_cpu_frame_pool_acquire env expired pool timeout_ms out_buffer w =
     (if pool = None \<or> \<not> out_buffer
      then fail MKVC_ERROR_INVALID_ARGUMENT ''invalid native CPU frame pool acquire'' NoOutput w
      else (case object w (cw_pools w) (the pool) of None \<Rightarrow> None | Some p \<Rightarrow>
        if \<not> en_heap_has_room env then fail MKVC_ERROR_INTERNAL (en_out_of_memory env) (Handle None) w
        else (case acquire_cpu_buffer timeout_ms expired (en_elapsed env) p of
                Blocked \<Rightarrow> Some Blocked
              | Passed ((st, l), p') \<Rightarrow>
                  let w = w\<lparr>cw_pools := (cw_pools w)(the pool \<mapsto> p')\<rparr>
                  in if fst st = MKVC_WOULD_BLOCK then succeed MKVC_WOULD_BLOCK (Handle None) w
                     else if fst st \<noteq> MKVC_OK then fail (fst st) (snd st) (Handle None) w
                     else (case l of None \<Rightarrow> None | Some l \<Rightarrow>
                       let (h, w) = new_handle w
                       in succeed MKVC_OK (Handle (Some h)) (w\<lparr>cw_buffers := (cw_buffers w)(h \<mapsto> (the pool, l))\<rparr>)))))"

definition mkvc_cpu_buffer_get_desc :: "nat option \<Rightarrow> out_struct \<Rightarrow> ('e, 'b) c_world \<Rightarrow> ('e, 'b) c_return" where
  "mkvc_cpu_buffer_get_desc buffer out w =
     (if buffer = None \<or> \<not> valid_output sizeof_cpu_buffer_desc out
      then fail MKVC_ERROR_INVALID_ARGUMENT ''invalid native CPU buffer descriptor output'' NoOutput w
      else (case object w (cw_buffers w) (the buffer) of
              None \<Rightarrow> None
            | Some (pool, l) \<Rightarrow> succeed MKVC_OK (BufferOutput (bl_pixel_format l, bl_width l, bl_height l,
                bl_plane_count l, bl_generation l)) w))"

definition mkvc_cpu_buffer_get_view ::
    "('e, 'b, 'o) c_env \<Rightarrow> nat option \<Rightarrow> out_struct \<Rightarrow> ('e, 'b) c_world \<Rightarrow> ('e, 'b) c_return" where
  "mkvc_cpu_buffer_get_view env buffer out w =
     (if buffer = None \<or> \<not> valid_output sizeof_frame_view out
      then fail MKVC_ERROR_INVALID_ARGUMENT ''invalid native CPU buffer view output'' NoOutput w
      else (case object w (cw_buffers w) (the buffer) of None \<Rightarrow> None | Some (pool, l) \<Rightarrow>
        (case cw_pools w pool of None \<Rightarrow> None | Some p \<Rightarrow>
          (case lease_view (en_plane_address env) l p of
             Inl st \<Rightarrow> fail (fst st) (snd st) NoOutput w
           | Inr view \<Rightarrow> succeed MKVC_OK (ViewOutput view) w))))"

text \<open>The lease goes back to the pool with its last owner: the handle or a pending submission.\<close>

definition buffer_retained :: "('e, 'b) c_world \<Rightarrow> nat \<Rightarrow> bool" where
  "buffer_retained w h =
     list_ex (\<lambda>e. case cw_encoders w e of None \<Rightarrow> False
        | Some s \<Rightarrow> list_ex (\<lambda>sub. sub_owner sub = Some h) (es_submissions s)) [0..<cw_next w]"

definition drop_lease :: "u64 \<Rightarrow> nat \<Rightarrow> ('e, 'b) c_world \<Rightarrow> ('e, 'b) c_world" where
  "drop_lease lease_ns h w =
     (case cw_buffers w h of None \<Rightarrow> w | Some (pool, l) \<Rightarrow>
       (case cw_pools w pool of None \<Rightarrow> w | Some p \<Rightarrow>
          w\<lparr>cw_pools := (cw_pools w)(pool \<mapsto> release_lease lease_ns l p)\<rparr>))"

definition mkvc_cpu_buffer_release :: "u64 \<Rightarrow> nat option \<Rightarrow> ('e, 'b) c_world \<Rightarrow> ('e, 'b) c_world option" where
  "mkvc_cpu_buffer_release lease_ns buffer w =
     (case buffer of None \<Rightarrow> Some w | Some h \<Rightarrow>
       (case object w (cw_buffers w) h of None \<Rightarrow> None | Some b \<Rightarrow>
          Some (close_handle h (if buffer_retained w h then w else drop_lease lease_ns h w))))"

section \<open>The probe\<close>

definition mkvc_probe_input ::
    "('e, 'b, 'o) c_env \<Rightarrow> string option \<Rightarrow> out_struct \<Rightarrow> ('e, 'b) c_world \<Rightarrow> ('e, 'b) c_return" where
  "mkvc_probe_input env path out w =
     (if path = None \<or> path = Some [] \<or> \<not> valid_output sizeof_video_info out
      then fail MKVC_ERROR_INVALID_ARGUMENT ''invalid input probe arguments'' NoOutput w
      else (case en_probe env (the path) of
              Throws what \<Rightarrow> guard ''unknown input probe failure'' [] NoOutput (Throws what) w
            | Returns (Inl st) \<Rightarrow> fail (fst st) (snd st) NoOutput w
            | Returns (Inr info) \<Rightarrow> succeed MKVC_OK (InfoOutput info) w))"

section \<open>All entry points\<close>

datatype c_call =
    EncoderCreate "encoder_config option" bool
  | EncoderSetCopyPolicy "nat option" "copy_policy option"
  | EncoderSetCpuLayoutPolicy "nat option" "cpu_layout_policy option"
  | EncoderWriteFrame "nat option" "frame_view option"
  | EncoderWriteFrameBorrowed "nat option" "frame_view option"
  | EncoderTryWriteFrame "nat option" "frame_view option"
  | EncoderWriteGpuFrame "nat option" "nat option"
  | EncoderSubmitFrameBorrowed "nat option" "frame_view option" bool
  | EncoderSubmitCpuBuffer "nat option" "nat option" i64 bool
  | EncoderFlush "nat option"
  | EncoderCancel "nat option"
  | EncoderClose "nat option"
  | EncoderGetMetrics "nat option" out_struct
  | EncoderGetStageMetrics "nat option" out_struct
  | EncoderGetComponentMetrics "nat option" out_struct
  | EncoderGetCopyEdgeMetrics "nat option" out_struct
  | SubmissionQuery "nat option" bool
  | SubmissionWait "nat option" u32
  | DecoderCreate "decoder_config option" bool
  | DecoderSetCopyPolicy "nat option" "copy_policy option"
  | DecoderRead "nat option" bool
  | DecoderReadGpu "nat option" bool
  | DecoderClose "nat option"
  | DecoderGetMetrics "nat option" out_struct
  | DecoderGetStageMetrics "nat option" out_struct
  | DecoderGetComponentMetrics "nat option" out_struct
  | DecoderGetCopyEdgeMetrics "nat option" out_struct
  | DecoderGetInfo "nat option" out_struct
  | FrameGetView "nat option" out_struct
  | FrameCopyTo "nat option" "frame_view option"
  | FrameCopyToEx "nat option" "frame_view option" "frame_copy_options option"
  | FrameProcess "nat option" "frame_process_config option" bool
  | PoolCreate "cpu_frame_pool_config option" bool
  | PoolCreateEx "cpu_frame_pool_config option" "cpu_frame_pool_options option" bool
  | PoolGetStats "nat option" out_struct
  | PoolAcquire bool "nat option" u32 bool
  | BufferGetDesc "nat option" out_struct
  | BufferGetView "nat option" out_struct
  | ProbeInput "string option" out_struct

fun c_api :: "('e, 'b, 'o) c_env \<Rightarrow> c_call \<Rightarrow> ('e, 'b) c_world \<Rightarrow> ('e, 'b) c_return" where
  "c_api env (EncoderCreate config out) = mkvc_encoder_create env config out"
| "c_api env (EncoderSetCopyPolicy e policy) = mkvc_encoder_set_copy_policy env e policy"
| "c_api env (EncoderSetCpuLayoutPolicy e policy) = mkvc_encoder_set_cpu_layout_policy env e policy"
| "c_api env (EncoderWriteFrame e frame) = mkvc_encoder_write_frame env e frame"
| "c_api env (EncoderWriteFrameBorrowed e frame) = mkvc_encoder_write_frame_borrowed env e frame"
| "c_api env (EncoderTryWriteFrame e frame) = mkvc_encoder_try_write_frame env e frame"
| "c_api env (EncoderWriteGpuFrame e frame) = mkvc_encoder_write_gpu_frame env e frame"
| "c_api env (EncoderSubmitFrameBorrowed e frame out) = mkvc_encoder_submit_frame_borrowed env e frame out"
| "c_api env (EncoderSubmitCpuBuffer e buffer pts out) = mkvc_encoder_submit_cpu_buffer env e buffer pts out"
| "c_api env (EncoderFlush e) = mkvc_encoder_flush env e"
| "c_api env (EncoderCancel e) = mkvc_encoder_cancel e"
| "c_api env (EncoderClose e) = mkvc_encoder_close env e"
| "c_api env (EncoderGetMetrics e out) = mkvc_encoder_get_metrics e out"
| "c_api env (EncoderGetStageMetrics e out) = mkvc_encoder_get_stage_metrics e out"
| "c_api env (EncoderGetComponentMetrics e out) = mkvc_encoder_get_component_metrics env e out"
| "c_api env (EncoderGetCopyEdgeMetrics e out) = mkvc_encoder_get_copy_edge_metrics e out"
| "c_api env (SubmissionQuery s out) = mkvc_submission_query s out"
| "c_api env (SubmissionWait s timeout_ms) = mkvc_submission_wait s timeout_ms"
| "c_api env (DecoderCreate config out) = mkvc_decoder_create env config out"
| "c_api env (DecoderSetCopyPolicy d policy) = mkvc_decoder_set_copy_policy d policy"
| "c_api env (DecoderRead d out) = mkvc_decoder_read env d out"
| "c_api env (DecoderReadGpu d out) = mkvc_decoder_read_gpu env d out"
| "c_api env (DecoderClose d) = mkvc_decoder_close env d"
| "c_api env (DecoderGetMetrics d out) = mkvc_decoder_get_metrics d out"
| "c_api env (DecoderGetStageMetrics d out) = mkvc_decoder_get_stage_metrics d out"
| "c_api env (DecoderGetComponentMetrics d out) = mkvc_decoder_get_component_metrics env d out"
| "c_api env (DecoderGetCopyEdgeMetrics d out) = mkvc_decoder_get_copy_edge_metrics d out"
| "c_api env (DecoderGetInfo d out) = mkvc_decoder_get_info d out"
| "c_api env (FrameGetView f out) = mkvc_frame_get_view env f out"
| "c_api env (FrameCopyTo f destination) = mkvc_frame_copy_to env f destination"
| "c_api env (FrameCopyToEx f destination options) = mkvc_frame_copy_to_ex env f destination options"
| "c_api env (FrameProcess f config out) = mkvc_frame_process env f config out"
| "c_api env (PoolCreate config out) = mkvc_cpu_frame_pool_create env config out"
| "c_api env (PoolCreateEx config options out) = mkvc_cpu_frame_pool_create_ex env config options out"
| "c_api env (PoolGetStats p out) = mkvc_cpu_frame_pool_get_stats p out"
| "c_api env (PoolAcquire expired p timeout_ms out) = mkvc_cpu_frame_pool_acquire env expired p timeout_ms out"
| "c_api env (BufferGetDesc b out) = mkvc_cpu_buffer_get_desc b out"
| "c_api env (BufferGetView b out) = mkvc_cpu_buffer_get_view env b out"
| "c_api env (ProbeInput path out) = mkvc_probe_input env path out"


section \<open>The contract of every entry point\<close>

text \<open>Outcomes that report a failure are not \<open>MKVC_OK\<close>.\<close>

definition honest_env :: "('e, 'b, 'o) c_env \<Rightarrow> bool" where
  "honest_env env \<longleftrightarrow>
     (\<forall>config st. en_create_session env config = Returns (Inl st) \<longrightarrow> fst st \<noteq> MKVC_OK) \<and>
     (\<forall>config st. en_create_decoder env config = Returns (Inl st) \<longrightarrow> fst st \<noteq> MKVC_OK) \<and>
     (\<forall>frame s st s'. en_enqueue_borrowed env frame s = (Returns (Inl st), s') \<longrightarrow> fst st \<noteq> MKVC_OK) \<and>
     (\<forall>path st. en_probe env path = Returns (Inl st) \<longrightarrow> fst st \<noteq> MKVC_OK)"

text \<open>Nothing but sessions, decoders, pools and the diagnostic differs.\<close>

definition same_handles :: "('e, 'b) c_world \<Rightarrow> ('e, 'b) c_world \<Rightarrow> bool" where
  "same_handles w w' \<longleftrightarrow> cw_next w' = cw_next w \<and> cw_live w' = cw_live w \<and> cw_frames w' = cw_frames w \<and>
     cw_gpu_frames w' = cw_gpu_frames w \<and> cw_submissions w' = cw_submissions w \<and> cw_buffers w' = cw_buffers w \<and>
     cw_frame_edges w' = cw_frame_edges w"

definition keeps_contract :: "('e, 'b) c_world \<Rightarrow> ('e, 'b) c_return \<Rightarrow> bool" where
  "keeps_contract w ret \<longleftrightarrow>
     (case ret of
        Some (Passed ((r, out), w')) \<Rightarrow>
          (if r = MKVC_OK then cw_last_error w' = [] else same_handles w w') \<and>
          (case out of
             Handle (Some h) \<Rightarrow> r = MKVC_OK \<and> h = cw_next w \<and> cw_next w' = Suc h \<and> cw_live w' = h # cw_live w
           | _ \<Rightarrow> cw_next w' = cw_next w \<and> cw_live w' = cw_live w)
      | _ \<Rightarrow> True)"

definition no_handle :: "c_output \<Rightarrow> bool" where
  "no_handle out \<longleftrightarrow> (case out of Handle (Some h) \<Rightarrow> False | _ \<Rightarrow> True)"

lemma same_handles_refl [simp]: "same_handles w w"
  by (simp add: same_handles_def)

lemma same_handles_objects [simp]:
  "same_handles w (w\<lparr>cw_encoders := x\<rparr>) \<longleftrightarrow> True" "same_handles w (w\<lparr>cw_decoders := y\<rparr>) \<longleftrightarrow> True"
  "same_handles w (w\<lparr>cw_pools := z\<rparr>) \<longleftrightarrow> True"
  by (simp_all add: same_handles_def)

lemma keeps_None [simp]: "keeps_contract w None"
  by (simp add: keeps_contract_def)

lemma keeps_Blocked [simp]: "keeps_contract w (Some Blocked)"
  by (simp add: keeps_contract_def)

lemma keeps_fail: "r \<noteq> MKVC_OK \<Longrightarrow> no_handle out \<Longrightarrow> same_handles w w1 \<Longrightarrow> keeps_contract w (fail r e out w1)"
  by (auto simp: keeps_contract_def fail_def no_handle_def same_handles_def split: c_output.splits option.splits)

lemma keeps_succeed:
  "no_handle out \<Longrightarrow> cw_next w1 = cw_next w \<Longrightarrow> cw_live w1 = cw_live w \<Longrightarrow> r = MKVC_OK \<or> same_handles w w1 \<Longrightarrow>
     keeps_contract w (succeed r out w1)"
  by (auto simp: keeps_contract_def succeed_def no_handle_def same_handles_def split: c_output.splits option.splits)

lemma keeps_guard:
  assumes "no_handle out" "cw_next w1 = cw_next w" "cw_live w1 = cw_live w"
    and "\<And>st. operation = Returns st \<Longrightarrow> fst st \<noteq> MKVC_OK \<or> MKVC_OK \<in> set silent"
    and "operation \<noteq> Returns (MKVC_OK, snd (case operation of Returns st \<Rightarrow> st | Throws _ \<Rightarrow> ok)) \<Longrightarrow> same_handles w w1"
  shows "keeps_contract w (guard unknown silent out operation w1)"
proof (cases operation)
  case (Returns st)
  then show ?thesis using assms by (cases st) (auto simp: guard_def intro!: keeps_fail keeps_succeed)
next
  case (Throws what)
  then show ?thesis using assms by (auto simp: guard_def intro!: keeps_fail split: option.splits)
qed

lemma keeps_new_handle:
  assumes "new_handle w1 = (h, w2)" "cw_next w1 = cw_next w" "cw_live w1 = cw_live w"
    and "cw_next w3 = cw_next w2" "cw_live w3 = cw_live w2"
  shows "keeps_contract w (succeed MKVC_OK (Handle (Some h)) w3)"
  using assms by (auto simp: keeps_contract_def succeed_def new_handle_def)

lemma no_handle_simps [simp]:
  "no_handle NoOutput" "no_handle (Handle None)" "no_handle (StatusWord s)" "no_handle (MetricsOutput m)"
  "no_handle (StageMetricsOutput sm)" "no_handle (ComponentOutput c)" "no_handle (CopyEdgeOutput ce)"
  "no_handle (InfoOutput i)" "no_handle (ViewOutput v)" "no_handle (PoolStatsOutput ps)" "no_handle (BufferOutput b)"
  by (simp_all add: no_handle_def)

lemma encoder_entry_keeps: "MKVC_OK \<in> set silent \<Longrightarrow> keeps_contract w (encoder_entry invalid unknown silent valid encoder operation w)"
  by (auto simp: encoder_entry_def intro!: keeps_fail keeps_guard split: option.splits prod.splits)

lemma getter_keeps:
  "(\<And>h s. no_handle (output h s)) \<Longrightarrow> keeps_contract w (encoder_getter invalid valid encoder output w)"
  "(\<And>h d. no_handle (output' h d)) \<Longrightarrow> keeps_contract w (decoder_getter invalid valid decoder output' w)"
  by (auto simp: encoder_getter_def decoder_getter_def intro!: keeps_fail keeps_succeed split: option.splits)

lemma decoder_entry_keeps: "keeps_contract w (decoder_entry invalid unknown valid decoder operation w)"
  by (auto simp: decoder_entry_def intro!: keeps_fail keeps_guard split: option.splits prod.splits)

lemma encoder_calls_keep:
  "keeps_contract w (mkvc_encoder_set_copy_policy env e cp w)"
  "keeps_contract w (mkvc_encoder_set_cpu_layout_policy env e lp w)"
  "keeps_contract w (mkvc_encoder_write_frame env e frame w)"
  "keeps_contract w (mkvc_encoder_write_frame_borrowed env e frame w)"
  "keeps_contract w (mkvc_encoder_try_write_frame env e frame w)"
  "keeps_contract w (mkvc_encoder_write_gpu_frame env e gpu w)"
  "keeps_contract w (mkvc_encoder_flush env e w)"
  "keeps_contract w (mkvc_encoder_cancel e w)"
  "keeps_contract w (mkvc_encoder_close env e w)"
  "keeps_contract w (mkvc_encoder_get_metrics e out w)"
  "keeps_contract w (mkvc_encoder_get_stage_metrics e out w)"
  "keeps_contract w (mkvc_encoder_get_component_metrics env e out w)"
  "keeps_contract w (mkvc_encoder_get_copy_edge_metrics e out w)"
  by (simp_all add: mkvc_encoder_set_copy_policy_def mkvc_encoder_set_cpu_layout_policy_def mkvc_encoder_write_frame_def
      mkvc_encoder_write_frame_borrowed_def mkvc_encoder_try_write_frame_def mkvc_encoder_write_gpu_frame_def
      mkvc_encoder_flush_def mkvc_encoder_cancel_def mkvc_encoder_close_def mkvc_encoder_get_metrics_def
      mkvc_encoder_get_stage_metrics_def mkvc_encoder_get_component_metrics_def mkvc_encoder_get_copy_edge_metrics_def
      encoder_entry_keeps getter_keeps)

lemma decoder_calls_keep:
  "keeps_contract w (mkvc_decoder_set_copy_policy d cp w)"
  "keeps_contract w (mkvc_decoder_close env d w)"
  "keeps_contract w (mkvc_decoder_get_metrics d out w)"
  "keeps_contract w (mkvc_decoder_get_stage_metrics d out w)"
  "keeps_contract w (mkvc_decoder_get_component_metrics env d out w)"
  "keeps_contract w (mkvc_decoder_get_copy_edge_metrics d out w)"
  "keeps_contract w (mkvc_decoder_get_info d out w)"
  by (simp_all add: mkvc_decoder_set_copy_policy_def mkvc_decoder_close_def mkvc_decoder_get_metrics_def
      mkvc_decoder_get_stage_metrics_def mkvc_decoder_get_component_metrics_def mkvc_decoder_get_copy_edge_metrics_def
      mkvc_decoder_get_info_def decoder_entry_keeps getter_keeps)

lemma lease_view_refuses: "lease_view addr l p = Inl st \<Longrightarrow> fst st \<noteq> MKVC_OK"
  by (auto simp: lease_view_def get_pool_view_def Let_def split: if_splits option.splits prod.splits)

lemma create_pool_refuses: "create_cpu_frame_pool pg osl config mode os = Inl st \<Longrightarrow> fst st \<noteq> MKVC_OK"
  by (auto simp: create_cpu_frame_pool_def Let_def split: if_splits option.splits prod.splits sum.splits)

lemma keeps_refusal:
  "fst st \<noteq> MKVC_OK \<Longrightarrow> no_handle out \<Longrightarrow> same_handles w w1 \<Longrightarrow> keeps_contract w (guard unknown silent out (Returns st) w1)"
  "no_handle out \<Longrightarrow> same_handles w w1 \<Longrightarrow> keeps_contract w (guard unknown silent out (Throws what) w1)"
  by (auto simp: same_handles_def intro!: keeps_guard)

lemma keeps_handed_out:
  "h = cw_next w \<Longrightarrow> cw_next w1 = Suc (cw_next w) \<Longrightarrow> cw_live w1 = cw_next w # cw_live w \<Longrightarrow>
     keeps_contract w (succeed MKVC_OK (Handle (Some h)) w1)"
  by (simp add: keeps_contract_def succeed_def)

lemmas keeps_intros = keeps_fail keeps_succeed keeps_refusal keeps_handed_out

lemma honest_envD:
  "honest_env env \<Longrightarrow> en_create_session env config = Returns (Inl st) \<Longrightarrow> fst st \<noteq> MKVC_OK"
  "honest_env env \<Longrightarrow> en_create_decoder env config' = Returns (Inl st) \<Longrightarrow> fst st \<noteq> MKVC_OK"
  "honest_env env \<Longrightarrow> en_enqueue_borrowed env frame s = (Returns (Inl st), s') \<Longrightarrow> fst st \<noteq> MKVC_OK"
  "honest_env env \<Longrightarrow> en_probe env path = Returns (Inl st) \<Longrightarrow> fst st \<noteq> MKVC_OK"
  unfolding honest_env_def by blast+

lemma session_submit_refuses:
  assumes "honest_env env" "session_submit env frame s = (Returns (Inl st), s')"
  shows "fst st \<noteq> MKVC_OK"
  using assms(2) unfolding session_submit_def Let_def
  by (auto dest: honest_envD(3) [OF assms(1)] split: if_splits prod.splits call.splits sum.splits)

lemma encoder_create_keeps: "honest_env env \<Longrightarrow> keeps_contract w (mkvc_encoder_create env config out w)"
  unfolding mkvc_encoder_create_def Let_def
  by (auto simp: new_handle_def intro!: keeps_intros dest: honest_envD split: call.splits sum.splits)

lemma decoder_create_keeps: "honest_env env \<Longrightarrow> keeps_contract w (mkvc_decoder_create env config out w)"
  unfolding mkvc_decoder_create_def Let_def
  by (auto simp: new_handle_def intro!: keeps_intros dest: honest_envD split: call.splits sum.splits)

lemma submit_frame_borrowed_keeps:
  "honest_env env \<Longrightarrow> keeps_contract w (mkvc_encoder_submit_frame_borrowed env e frame out w)"
  unfolding mkvc_encoder_submit_frame_borrowed_def Let_def
  by (auto simp: new_handle_def intro!: keeps_intros dest: session_submit_refuses split: option.splits call.splits sum.splits prod.splits)

lemma submit_cpu_buffer_keeps:
  "honest_env env \<Longrightarrow> keeps_contract w (mkvc_encoder_submit_cpu_buffer env e buffer pts out w)"
  unfolding mkvc_encoder_submit_cpu_buffer_def Let_def
  by (auto simp: new_handle_def intro!: keeps_intros dest: session_submit_refuses lease_view_refuses
      split: option.splits call.splits sum.splits prod.splits)

lemma submission_calls_keep:
  "keeps_contract w (mkvc_submission_query s out w)" "keeps_contract w (mkvc_submission_wait s t w)"
  by (auto simp: mkvc_submission_query_def mkvc_submission_wait_def intro!: keeps_intros
      split: option.splits section_outcome.splits)

lemma decoder_read_keeps: "keeps_contract w (mkvc_decoder_read env d out w)"
  unfolding mkvc_decoder_read_def Let_def
  by (auto simp: new_handle_def intro!: keeps_intros
      split: option.splits call.splits section_outcome.splits prod.splits)

lemma decoder_read_gpu_keeps: "keeps_contract w (mkvc_decoder_read_gpu env d out w)"
  unfolding mkvc_decoder_read_gpu_def Let_def
  by (auto simp: new_handle_def intro!: keeps_intros split: option.splits call.splits prod.splits)

lemma frame_edges_handles [simp]:
  "cw_next (add_frame_edges source es w) = cw_next w" "cw_live (add_frame_edges source es w) = cw_live w"
  by (simp_all add: add_frame_edges_def split: option.splits)

lemma copy_frame_entry_keeps: "keeps_contract w (copy_frame_entry env f destination n w)"
  unfolding copy_frame_entry_def
  by (auto simp: no_handle_def intro!: keeps_guard split: option.splits prod.splits)

lemma frame_calls_keep:
  "keeps_contract w (mkvc_frame_get_view env f out w)"
  "keeps_contract w (mkvc_frame_copy_to env f destination w)"
  "keeps_contract w (mkvc_frame_copy_to_ex env f destination options w)"
  by (auto simp: mkvc_frame_get_view_def mkvc_frame_copy_to_def mkvc_frame_copy_to_ex_def copy_frame_entry_keeps
      intro!: keeps_intros split: option.splits)

lemma frame_process_keeps: "keeps_contract w (mkvc_frame_process env f config out w)"
  unfolding mkvc_frame_process_def Let_def
  by (auto simp: new_handle_def intro!: keeps_intros split: option.splits prod.splits)

lemma create_pool_keeps: "keeps_contract w (create_pool env config mode w)"
  unfolding create_pool_def Let_def
  by (auto simp: new_handle_def intro!: keeps_intros dest: create_pool_refuses split: sum.splits)

lemma pool_calls_keep:
  "keeps_contract w (mkvc_cpu_frame_pool_create env config out w)"
  "keeps_contract w (mkvc_cpu_frame_pool_create_ex env config options out w)"
  "keeps_contract w (mkvc_cpu_frame_pool_get_stats p stats w)"
  by (auto simp: mkvc_cpu_frame_pool_create_def mkvc_cpu_frame_pool_create_ex_def mkvc_cpu_frame_pool_get_stats_def
      create_pool_keeps intro!: keeps_intros split: option.splits)

lemma pool_acquire_keeps: "keeps_contract w (mkvc_cpu_frame_pool_acquire env expired p t out w)"
  unfolding mkvc_cpu_frame_pool_acquire_def Let_def
  by (auto simp: new_handle_def intro!: keeps_intros split: option.splits section_outcome.splits prod.splits)

lemma buffer_calls_keep:
  "keeps_contract w (mkvc_cpu_buffer_get_desc b out w)" "keeps_contract w (mkvc_cpu_buffer_get_view env b out w)"
  by (auto simp: mkvc_cpu_buffer_get_desc_def mkvc_cpu_buffer_get_view_def intro!: keeps_intros
      dest: lease_view_refuses split: option.splits sum.splits prod.splits)

lemma probe_keeps: "honest_env env \<Longrightarrow> keeps_contract w (mkvc_probe_input env path out w)"
  unfolding mkvc_probe_input_def
  by (auto intro!: keeps_intros dest: honest_envD split: call.splits sum.splits)

lemma c_api_keeps: "honest_env env \<Longrightarrow> keeps_contract w (c_api env call w)"
  by (cases call) (simp_all add: encoder_create_keeps decoder_create_keeps submit_frame_borrowed_keeps
      submit_cpu_buffer_keeps submission_calls_keep decoder_read_keeps decoder_read_gpu_keeps frame_calls_keep
      frame_process_keeps pool_calls_keep pool_acquire_keeps buffer_calls_keep probe_keeps encoder_calls_keep
      decoder_calls_keep)

text \<open>A call with a null handle, structure or output pointer among its arguments.\<close>

fun null_call :: "c_call \<Rightarrow> bool" where
  "null_call (EncoderCreate config out) \<longleftrightarrow> config = None \<or> \<not> out"
| "null_call (EncoderSetCopyPolicy e policy) \<longleftrightarrow> e = None \<or> policy = None"
| "null_call (EncoderSetCpuLayoutPolicy e policy) \<longleftrightarrow> e = None \<or> policy = None"
| "null_call (EncoderWriteFrame e frame) \<longleftrightarrow> e = None \<or> frame = None"
| "null_call (EncoderWriteFrameBorrowed e frame) \<longleftrightarrow> e = None \<or> frame = None"
| "null_call (EncoderTryWriteFrame e frame) \<longleftrightarrow> e = None \<or> frame = None"
| "null_call (EncoderWriteGpuFrame e frame) \<longleftrightarrow> e = None \<or> frame = None"
| "null_call (EncoderSubmitFrameBorrowed e frame out) \<longleftrightarrow> e = None \<or> frame = None \<or> \<not> out"
| "null_call (EncoderSubmitCpuBuffer e buffer pts out) \<longleftrightarrow> e = None \<or> buffer = None \<or> \<not> out"
| "null_call (EncoderFlush e) \<longleftrightarrow> e = None"
| "null_call (EncoderCancel e) \<longleftrightarrow> e = None"
| "null_call (EncoderClose e) \<longleftrightarrow> e = None"
| "null_call (EncoderGetMetrics e out) \<longleftrightarrow> e = None \<or> out = None"
| "null_call (EncoderGetStageMetrics e out) \<longleftrightarrow> e = None \<or> out = None"
| "null_call (EncoderGetComponentMetrics e out) \<longleftrightarrow> e = None \<or> out = None"
| "null_call (EncoderGetCopyEdgeMetrics e out) \<longleftrightarrow> e = None \<or> out = None"
| "null_call (SubmissionQuery s out) \<longleftrightarrow> s = None \<or> \<not> out"
| "null_call (SubmissionWait s timeout_ms) \<longleftrightarrow> s = None"
| "null_call (DecoderCreate config out) \<longleftrightarrow> config = None \<or> \<not> out"
| "null_call (DecoderSetCopyPolicy d policy) \<longleftrightarrow> d = None \<or> policy = None"
| "null_call (DecoderRead d out) \<longleftrightarrow> d = None \<or> \<not> out"
| "null_call (DecoderReadGpu d out) \<longleftrightarrow> d = None \<or> \<not> out"
| "null_call (DecoderClose d) \<longleftrightarrow> d = None"
| "null_call (DecoderGetMetrics d out) \<longleftrightarrow> d = None \<or> out = None"
| "null_call (DecoderGetStageMetrics d out) \<longleftrightarrow> d = None \<or> out = None"
| "null_call (DecoderGetComponentMetrics d out) \<longleftrightarrow> d = None \<or> out = None"
| "null_call (DecoderGetCopyEdgeMetrics d out) \<longleftrightarrow> d = None \<or> out = None"
| "null_call (DecoderGetInfo d out) \<longleftrightarrow> d = None \<or> out = None"
| "null_call (FrameGetView f out) \<longleftrightarrow> f = None \<or> out = None"
| "null_call (FrameCopyTo f destination) \<longleftrightarrow> f = None \<or> destination = None"
| "null_call (FrameCopyToEx f destination options) \<longleftrightarrow> f = None \<or> destination = None \<or> options = None"
| "null_call (FrameProcess f config out) \<longleftrightarrow> f = None \<or> config = None \<or> \<not> out"
| "null_call (PoolCreate config out) \<longleftrightarrow> config = None \<or> \<not> out"
| "null_call (PoolCreateEx config options out) \<longleftrightarrow> config = None \<or> options = None \<or> \<not> out"
| "null_call (PoolGetStats p out) \<longleftrightarrow> p = None \<or> out = None"
| "null_call (PoolAcquire expired p timeout_ms out) \<longleftrightarrow> p = None \<or> \<not> out"
| "null_call (BufferGetDesc b out) \<longleftrightarrow> b = None \<or> out = None"
| "null_call (BufferGetView b out) \<longleftrightarrow> b = None \<or> out = None"
| "null_call (ProbeInput path out) \<longleftrightarrow> path = None \<or> out = None"

lemma null_arguments [simp]:
  "\<not> valid_encoder_config None" "\<not> valid_decoder_config None" "\<not> valid_copy_policy None"
  "\<not> valid_cpu_layout_policy None" "\<not> valid_frame_view None" "\<not> valid_metrics_output None"
  "\<not> valid_stage_metrics_output None" "\<not> valid_component_metrics_output None"
  "\<not> valid_copy_edge_metrics_output None" "\<not> valid_output n None" "\<not> valid_pool_config None"
  by (simp_all add: valid_encoder_config_def valid_decoder_config_def valid_copy_policy_def
      valid_cpu_layout_policy_def valid_frame_view_def valid_metrics_output_def valid_stage_metrics_output_def
      valid_component_metrics_output_def valid_copy_edge_metrics_output_def valid_output_def valid_pool_config_def)

definition refuses_argument :: "('e, 'b) c_world \<Rightarrow> ('e, 'b) c_return \<Rightarrow> bool" where
  "refuses_argument w ret \<longleftrightarrow> (\<exists>message out. message \<noteq> [] \<and> no_handle out \<and>
     ret = fail MKVC_ERROR_INVALID_ARGUMENT message out w)"

lemma refuses_fail: "message \<noteq> [] \<Longrightarrow> no_handle out \<Longrightarrow> refuses_argument w (fail MKVC_ERROR_INVALID_ARGUMENT message out w)"
  unfolding refuses_argument_def by blast

lemma null_entry_refused:
  "e = None \<or> \<not> valid \<Longrightarrow> invalid \<noteq> [] \<Longrightarrow> refuses_argument w (encoder_entry invalid unknown silent valid e operation w)"
  "e = None \<or> \<not> valid \<Longrightarrow> invalid \<noteq> [] \<Longrightarrow> refuses_argument w (encoder_getter invalid valid e output w)"
  "e = None \<or> \<not> valid \<Longrightarrow> invalid \<noteq> [] \<Longrightarrow> refuses_argument w (decoder_entry invalid unknown valid e operation' w)"
  "e = None \<or> \<not> valid \<Longrightarrow> invalid \<noteq> [] \<Longrightarrow> refuses_argument w (decoder_getter invalid valid e output' w)"
  by (auto simp: encoder_entry_def encoder_getter_def decoder_entry_def decoder_getter_def intro!: refuses_fail)

lemma null_encoder_call_refused:
  "e = None \<or> policy = None \<Longrightarrow> refuses_argument w (mkvc_encoder_set_copy_policy env e policy w)"
  "e = None \<or> layout = None \<Longrightarrow> refuses_argument w (mkvc_encoder_set_cpu_layout_policy env e layout w)"
  "e = None \<or> frame = None \<Longrightarrow> refuses_argument w (mkvc_encoder_write_frame env e frame w)"
  "e = None \<or> frame = None \<Longrightarrow> refuses_argument w (mkvc_encoder_write_frame_borrowed env e frame w)"
  "e = None \<or> frame = None \<Longrightarrow> refuses_argument w (mkvc_encoder_try_write_frame env e frame w)"
  "e = None \<or> gpu = None \<Longrightarrow> refuses_argument w (mkvc_encoder_write_gpu_frame env e gpu w)"
  "e = None \<Longrightarrow> refuses_argument w (mkvc_encoder_flush env e w)"
  "e = None \<Longrightarrow> refuses_argument w (mkvc_encoder_cancel e w)"
  "e = None \<Longrightarrow> refuses_argument w (mkvc_encoder_close env e w)"
  "e = None \<or> out = None \<Longrightarrow> refuses_argument w (mkvc_encoder_get_metrics e out w)"
  "e = None \<or> out = None \<Longrightarrow> refuses_argument w (mkvc_encoder_get_stage_metrics e out w)"
  "e = None \<or> out = None \<Longrightarrow> refuses_argument w (mkvc_encoder_get_component_metrics env e out w)"
  "e = None \<or> out = None \<Longrightarrow> refuses_argument w (mkvc_encoder_get_copy_edge_metrics e out w)"
  unfolding mkvc_encoder_set_copy_policy_def mkvc_encoder_set_cpu_layout_policy_def mkvc_encoder_write_frame_def
      mkvc_encoder_write_frame_borrowed_def mkvc_encoder_try_write_frame_def mkvc_encoder_write_gpu_frame_def
      mkvc_encoder_flush_def mkvc_encoder_cancel_def mkvc_encoder_close_def mkvc_encoder_get_metrics_def
      mkvc_encoder_get_stage_metrics_def mkvc_encoder_get_component_metrics_def mkvc_encoder_get_copy_edge_metrics_def
  by (auto intro!: null_entry_refused)

lemma null_decoder_call_refused:
  "d = None \<or> policy = None \<Longrightarrow> refuses_argument w (mkvc_decoder_set_copy_policy d policy w)"
  "d = None \<Longrightarrow> refuses_argument w (mkvc_decoder_close env d w)"
  "d = None \<or> out = None \<Longrightarrow> refuses_argument w (mkvc_decoder_get_metrics d out w)"
  "d = None \<or> out = None \<Longrightarrow> refuses_argument w (mkvc_decoder_get_stage_metrics d out w)"
  "d = None \<or> out = None \<Longrightarrow> refuses_argument w (mkvc_decoder_get_component_metrics env d out w)"
  "d = None \<or> out = None \<Longrightarrow> refuses_argument w (mkvc_decoder_get_copy_edge_metrics d out w)"
  "d = None \<or> out = None \<Longrightarrow> refuses_argument w (mkvc_decoder_get_info d out w)"
  "d = None \<or> \<not> out_frame \<Longrightarrow> refuses_argument w (mkvc_decoder_read env d out_frame w)"
  "d = None \<or> \<not> out_frame \<Longrightarrow> refuses_argument w (mkvc_decoder_read_gpu env d out_frame w)"
  unfolding mkvc_decoder_set_copy_policy_def mkvc_decoder_close_def mkvc_decoder_get_metrics_def
      mkvc_decoder_get_stage_metrics_def mkvc_decoder_get_component_metrics_def
      mkvc_decoder_get_copy_edge_metrics_def mkvc_decoder_get_info_def mkvc_decoder_read_def mkvc_decoder_read_gpu_def
  by (auto intro!: null_entry_refused refuses_fail)

lemma null_object_call_refused:
  "s = None \<or> \<not> status \<Longrightarrow> refuses_argument w (mkvc_submission_query s status w)"
  "s = None \<Longrightarrow> refuses_argument w (mkvc_submission_wait s t w)"
  "f = None \<or> out = None \<Longrightarrow> refuses_argument w (mkvc_frame_get_view env f out w)"
  "f = None \<or> dst = None \<Longrightarrow> refuses_argument w (mkvc_frame_copy_to env f dst w)"
  "f = None \<or> dst = None \<or> options = None \<Longrightarrow> refuses_argument w (mkvc_frame_copy_to_ex env f dst options w)"
  "f = None \<or> process = None \<or> \<not> given \<Longrightarrow> refuses_argument w (mkvc_frame_process env f process given w)"
  "pool = None \<or> \<not> given \<Longrightarrow> refuses_argument w (mkvc_cpu_frame_pool_create env pool given w)"
  "pool = None \<or> popts = None \<or> \<not> given \<Longrightarrow> refuses_argument w (mkvc_cpu_frame_pool_create_ex env pool popts given w)"
  "p = None \<or> out = None \<Longrightarrow> refuses_argument w (mkvc_cpu_frame_pool_get_stats p out w)"
  "p = None \<or> \<not> given \<Longrightarrow> refuses_argument w (mkvc_cpu_frame_pool_acquire env expired p t' given w)"
  "b = None \<or> out = None \<Longrightarrow> refuses_argument w (mkvc_cpu_buffer_get_desc b out w)"
  "b = None \<or> out = None \<Longrightarrow> refuses_argument w (mkvc_cpu_buffer_get_view env b out w)"
  unfolding mkvc_submission_query_def mkvc_submission_wait_def mkvc_frame_get_view_def mkvc_frame_copy_to_def
    mkvc_frame_copy_to_ex_def mkvc_frame_process_def mkvc_cpu_frame_pool_create_def
    mkvc_cpu_frame_pool_create_ex_def mkvc_cpu_frame_pool_get_stats_def mkvc_cpu_frame_pool_acquire_def
    mkvc_cpu_buffer_get_desc_def mkvc_cpu_buffer_get_view_def
  by (auto intro!: refuses_fail)

lemma null_creation_refused:
  "config = None \<or> \<not> out \<Longrightarrow> refuses_argument w (mkvc_encoder_create env config out w)"
  "config' = None \<or> \<not> out \<Longrightarrow> refuses_argument w (mkvc_decoder_create env config' out w)"
  "e = None \<or> frame = None \<or> \<not> out \<Longrightarrow> refuses_argument w (mkvc_encoder_submit_frame_borrowed env e frame out w)"
  "e = None \<or> buffer = None \<or> \<not> out \<Longrightarrow> refuses_argument w (mkvc_encoder_submit_cpu_buffer env e buffer pts out w)"
  "path = None \<or> info = None \<Longrightarrow> refuses_argument w (mkvc_probe_input env path info w)"
  unfolding mkvc_encoder_create_def mkvc_decoder_create_def mkvc_encoder_submit_frame_borrowed_def
    mkvc_encoder_submit_cpu_buffer_def mkvc_probe_input_def
  by (auto intro!: refuses_fail)

lemma null_call_refused: "null_call call \<Longrightarrow> refuses_argument w (c_api env call w)"
  by (cases call) (simp_all add: null_creation_refused null_encoder_call_refused null_decoder_call_refused
      null_object_call_refused)

text \<open>Every live handle is below the next number.\<close>

definition handles_fresh :: "('e, 'b) c_world \<Rightarrow> bool" where
  "handles_fresh w \<longleftrightarrow> distinct (cw_live w) \<and> (\<forall>h \<in> set (cw_live w). h < cw_next w)"


text \<open>A setting where nothing outside succeeds, a fresh world and a pool of one 2 by 2 BGR image.\<close>

definition refusing_backend :: "unit backend" where
  "refusing_backend = cpu_backend_adapter (\<lambda>_ b. (Throws None, b)) (\<lambda>b. (Throws None, b)) (\<lambda>b. (Throws None, b))"

definition refusing_env :: "(unit, unit, unit) c_env" where
  "refusing_env = \<lparr>en_backend = refusing_backend, en_create_session = (\<lambda>_. Throws None),
     en_enqueue_owned = (\<lambda>_ _ s. (Throws None, s)), en_enqueue_borrowed = (\<lambda>_ s. (Throws None, s)),
     en_flush_queue = (\<lambda>s. (Throws None, s)), en_close_session = (\<lambda>s. (Throws None, s)),
     en_decoder = \<lparr>do_read = (\<lambda>b. (Throws None, b)), do_read_gpu = (\<lambda>b. (Throws None, b)),
       do_close = (\<lambda>b. (Throws None, b)), do_max_pending_observed = (\<lambda>_. 0)\<rparr>,
     en_create_decoder = (\<lambda>_. Returns (Inl (MKVC_ERROR_CODEC, ''no decoder''))), en_join_prefetch = (\<lambda>d. d),
     en_elapsed = 0, en_components = (\<lambda>_. no_components), en_heap_has_room = True, en_out_of_memory = ''bad_alloc'', en_pixels_address = (\<lambda>_. 0),
     en_plane_address = (\<lambda>_ _. 0), en_page = 4096, en_os_lock = (\<lambda>os _. (Some ''denied'', os)), en_os = (),
     en_packed = \<lparr>I420ToRGB24 = (\<lambda>_ _ _. (1, [])), I420ToRAW = (\<lambda>_ _ _. (1, [])),
       I420ToARGB = (\<lambda>_ _ _. (1, [])), I420ToABGR = (\<lambda>_ _ _. (1, [])),
       pl_unit = \<lparr>vu_lanes = 0, vu_load4 = (\<lambda>_. ([], [], [], [])), vu_store3 = (\<lambda>_ _ _. [])\<rparr>, pl_highway = False\<rparr>,
     en_i420 = \<lparr>lib_copy = (\<lambda>p _ _. (1, p)), lib_rotate = (\<lambda>p _ _ _. (1, p)), lib_mirror = (\<lambda>p _ _. (1, p)),
       lib_scale = (\<lambda>p _ _ _ _. (1, p)), lib_set_plane = (\<lambda>_ _ _. [])\<rparr>,
     en_to_nv12 = (\<lambda>_ _ _. (1, [], [])), en_schedule = concat, en_auxiliary = 0, en_probe = (\<lambda>_. Throws None)\<rparr>"

definition fresh_world :: "(unit, unit) c_world" where
  "fresh_world = \<lparr>cw_last_error = ''stale'', cw_next = 1, cw_live = [], cw_encoders = (\<lambda>_. None),
     cw_decoders = (\<lambda>_. None), cw_frames = (\<lambda>_. None), cw_gpu_frames = (\<lambda>_. None),
     cw_submissions = (\<lambda>_. None), cw_pools = (\<lambda>_. None), cw_buffers = (\<lambda>_. None),
     cw_frame_edges = []\<rparr>"

definition tiny_pool_call :: c_call where
  "tiny_pool_call = PoolCreate (Some \<lparr>pc_struct_size = 24, pc_struct_version = 1,
     pc_pixel_format = MKVC_PIXEL_FORMAT_BGR24, pc_width = 2, pc_height = 2, pc_capacity = 1\<rparr>) True"

lemma tiny_pool_call_succeeds:
  "\<exists>w'. c_api refusing_env tiny_pool_call fresh_world = Some (Passed ((MKVC_OK, Handle (Some 1)), w'))"
  by (simp add: tiny_pool_call_def mkvc_cpu_frame_pool_create_def valid_pool_config_def create_pool_def
      create_cpu_frame_pool_def configure_slot_def pool_layout_def new_slot_def allocate_def reset_allocation_def
      empty_allocation_def refusing_env_def fresh_world_def new_handle_def succeed_def Let_def)


end
