(* ===== verification/ConversionPool.thy ===== *)
theory ConversionPool
  imports Prelude
begin

text \<open>
  The worker pool of src/cpu_conversion_workers.cpp that runs conversion stripes: tasks in a queue,
  at most three threads, a future per task. A task is its future and the value its operation
  returns; the sections of a thread between two acquisitions of the mutex are its steps.
\<close>

section \<open>State and operations\<close>

datatype pool_thread = Waiting | Running nat int | Finished

record conversion_pool =
  cw_tasks :: "(nat \<times> int) list"
  cw_threads :: "pool_thread list"
  cw_stopping :: bool
  cw_futures :: "int option list" \<comment> \<open>by the order of submission\<close>

definition kMaximumAuxiliaryWorkers :: nat where
  "kMaximumAuxiliaryWorkers = 3"

definition new_conversion_pool :: "nat \<Rightarrow> conversion_pool" where
  "new_conversion_pool hardware_concurrency =
     (let hardware_threads = max 1 hardware_concurrency;
          worker_count = min kMaximumAuxiliaryWorkers (hardware_threads - 1)
      in \<lparr>cw_tasks = [], cw_threads = replicate worker_count Waiting, cw_stopping = False, cw_futures = []\<rparr>)"

definition pool_parallelism :: "conversion_pool \<Rightarrow> nat" where
  "pool_parallelism p = length (cw_threads p) + 1"

text \<open>The future is the position of its value.\<close>

definition submit_conversion :: "int \<Rightarrow> conversion_pool \<Rightarrow> nat \<times> conversion_pool" where
  "submit_conversion result p =
     (let future = length (cw_futures p)
      in (future, p\<lparr>cw_tasks := cw_tasks p @ [(future, result)], cw_futures := cw_futures p @ [None]\<rparr>))"

definition begin_shutdown :: "conversion_pool \<Rightarrow> conversion_pool" where
  "begin_shutdown p = p\<lparr>cw_stopping := True\<rparr>"

text \<open>The loop of \<^verbatim>\<open>run\<close>: the locked section that takes a task, then the task.\<close>

definition take_task :: "conversion_pool \<Rightarrow> (pool_thread \<times> conversion_pool) section_outcome" where
  "take_task p =
     (if \<not> (cw_stopping p \<or> cw_tasks p \<noteq> []) then Blocked
      else if cw_stopping p \<and> cw_tasks p = [] then Passed (Finished, p)
      else (case hd (cw_tasks p) of (future, result) \<Rightarrow>
              Passed (Running future result, p\<lparr>cw_tasks := tl (cw_tasks p)\<rparr>)))"

fun thread_step :: "pool_thread \<Rightarrow> conversion_pool \<Rightarrow> (pool_thread \<times> conversion_pool) section_outcome" where
  "thread_step Waiting p = take_task p"
| "thread_step (Running future result) p =
     Passed (Waiting, p\<lparr>cw_futures := (cw_futures p)[future := Some result]\<rparr>)"
| "thread_step Finished p = Blocked"

definition put_thread :: "nat \<Rightarrow> pool_thread \<Rightarrow> conversion_pool \<Rightarrow> conversion_pool" where
  "put_thread i t p = p\<lparr>cw_threads := (cw_threads p)[i := t]\<rparr>"

inductive thread_moves :: "conversion_pool \<Rightarrow> conversion_pool \<Rightarrow> bool" where
  "i < length (cw_threads p) \<Longrightarrow> thread_step (cw_threads p ! i) p = Passed (t, p') \<Longrightarrow>
   thread_moves p (put_thread i t p')"

text \<open>Everything that can have happened to a pool; \<open>rs\<close> are the values of the operations submitted
  so far. The destructor runs when no thread submits any more.\<close>

inductive pool_reaches :: "nat \<Rightarrow> int list \<Rightarrow> conversion_pool \<Rightarrow> bool" for hardware where
  start: "pool_reaches hardware [] (new_conversion_pool hardware)"
| submit: "pool_reaches hardware rs p \<Longrightarrow> \<not> cw_stopping p \<Longrightarrow>
    pool_reaches hardware (rs @ [r]) (snd (submit_conversion r p))"
| moves: "pool_reaches hardware rs p \<Longrightarrow> thread_moves p p' \<Longrightarrow> pool_reaches hardware rs p'"
| shutdown: "pool_reaches hardware rs p \<Longrightarrow> pool_reaches hardware rs (begin_shutdown p)"

inductive thread_runs :: "nat \<Rightarrow> conversion_pool \<Rightarrow> conversion_pool \<Rightarrow> bool" where
  "thread_runs 0 p p"
| "thread_moves p p' \<Longrightarrow> thread_runs n p' p'' \<Longrightarrow> thread_runs (Suc n) p p''"

section \<open>What a pool keeps\<close>

fun running :: "pool_thread \<Rightarrow> nat option" where
  "running (Running future result) = Some future"
| "running _ = None"

text \<open>How often a future is in work: running on a thread or waiting in the queue.\<close>

definition in_work :: "conversion_pool \<Rightarrow> nat \<Rightarrow> nat" where
  "in_work p k = count_if (\<lambda>t. running t = Some k) (cw_threads p) + count_if (\<lambda>task. fst task = k) (cw_tasks p)"

definition conversion_inv :: "int list \<Rightarrow> conversion_pool \<Rightarrow> bool" where
  "conversion_inv rs p \<longleftrightarrow>
     length (cw_futures p) = length rs \<and>
     (\<forall>k. in_work p k = (if k < length rs \<and> cw_futures p ! k = None then 1 else 0)) \<and>
     (\<forall>k < length rs. cw_futures p ! k = None \<or> cw_futures p ! k = Some (rs ! k)) \<and>
     (\<forall>(k, r) \<in> set (cw_tasks p). r = rs ! k) \<and>
     (\<forall>k r. Running k r \<in> set (cw_threads p) \<longrightarrow> r = rs ! k) \<and>
     sorted_wrt (<) (map fst (cw_tasks p)) \<and>
     (Finished \<in> set (cw_threads p) \<longrightarrow> cw_stopping p \<and> cw_tasks p = [])"

lemma in_work_bound: "conversion_inv rs p \<Longrightarrow> 0 < in_work p k \<Longrightarrow> k < length rs \<and> cw_futures p ! k = None"
  by (auto simp: conversion_inv_def split: if_splits)

lemma task_in_work: "(k, r) \<in> set (cw_tasks p) \<Longrightarrow> 0 < in_work p k"
proof -
  assume "(k, r) \<in> set (cw_tasks p)"
  then obtain i where "i < length (cw_tasks p)" "cw_tasks p ! i = (k, r)" by (metis in_set_conv_nth)
  then have "0 < count_if (\<lambda>task. fst task = k) (cw_tasks p)"
    using count_if_pos [of i "cw_tasks p" "\<lambda>task. fst task = k"] by simp
  then show ?thesis by (simp add: in_work_def)
qed

lemma running_in_work: "i < length (cw_threads p) \<Longrightarrow> cw_threads p ! i = Running k r \<Longrightarrow> 0 < in_work p k"
  using count_if_pos [of i "cw_threads p" "\<lambda>t. running t = Some k"] by (simp add: in_work_def)

lemma inv_start: "conversion_inv [] (new_conversion_pool hardware)"
  by (auto simp: conversion_inv_def new_conversion_pool_def in_work_def Let_def count_if_replicate)

lemma inv_submit:
  assumes inv: "conversion_inv rs p" and "\<not> cw_stopping p"
  shows "conversion_inv (rs @ [r]) (snd (submit_conversion r p))"
proof -
  let ?n = "length rs"
  have len: "length (cw_futures p) = ?n" using inv by (simp add: conversion_inv_def)
  have tasks: "k < ?n" if "(k, r') \<in> set (cw_tasks p)" for k r' using in_work_bound [OF inv task_in_work [OF that]] by simp
  have threads: "k < ?n" if "Running k r' \<in> set (cw_threads p)" for k r'
    using that in_work_bound [OF inv running_in_work] by (metis in_set_conv_nth)
  have work: "in_work (snd (submit_conversion r p)) k = in_work p k + (if k = ?n then 1 else 0)" for k
    by (simp add: in_work_def submit_conversion_def Let_def len)
  show ?thesis unfolding conversion_inv_def
  proof (intro conjI)
    show "\<forall>k. in_work (snd (submit_conversion r p)) k =
        (if k < length (rs @ [r]) \<and> cw_futures (snd (submit_conversion r p)) ! k = None then 1 else 0)"
      using inv unfolding work by (auto simp: conversion_inv_def submit_conversion_def Let_def nth_append less_Suc_eq)
    show "\<forall>k < length (rs @ [r]). cw_futures (snd (submit_conversion r p)) ! k = None \<or>
        cw_futures (snd (submit_conversion r p)) ! k = Some ((rs @ [r]) ! k)"
      using inv by (auto simp: conversion_inv_def submit_conversion_def Let_def nth_append less_Suc_eq)
    show "\<forall>(k, r') \<in> set (cw_tasks (snd (submit_conversion r p))). r' = (rs @ [r]) ! k"
      using inv tasks by (auto simp: conversion_inv_def submit_conversion_def Let_def nth_append len)
    show "\<forall>k r'. Running k r' \<in> set (cw_threads (snd (submit_conversion r p))) \<longrightarrow> r' = (rs @ [r]) ! k"
      using inv threads by (auto simp: conversion_inv_def submit_conversion_def Let_def nth_append)
    show "sorted_wrt (<) (map fst (cw_tasks (snd (submit_conversion r p))))"
      using inv tasks by (auto simp: conversion_inv_def submit_conversion_def Let_def sorted_wrt_append len)
  qed (use inv assms(2) in \<open>auto simp: conversion_inv_def submit_conversion_def Let_def\<close>)
qed


lemma inv_moves:
  assumes inv: "conversion_inv rs p" and "thread_moves p p'"
  shows "conversion_inv rs p'"
proof -
  obtain i t q where i: "i < length (cw_threads p)" and t: "thread_step (cw_threads p ! i) p = Passed (t, q)"
      and p': "p' = put_thread i t q"
    using assms(2) by (auto elim: thread_moves.cases)
  show ?thesis
  proof (cases "cw_threads p ! i")
    case Waiting
    show ?thesis
    proof (cases "cw_tasks p")
      case Nil
      then have "t = Finished" "q = p" "cw_stopping p" using t by (auto simp: Waiting take_task_def split: if_splits)
      moreover have "in_work (put_thread i Finished p) k = in_work p k" for k
        using count_if_update [OF i, of "\<lambda>t. running t = Some k" Finished] by (simp add: in_work_def put_thread_def Waiting)
      ultimately show ?thesis using inv Nil set_update_subset_insert [of "cw_threads p" i Finished]
        by (auto simp: conversion_inv_def p' put_thread_def)
    next
      case (Cons task tasks)
      obtain k r where task: "task = (k, r)" by (cases task)
      have q: "t = Running k r" "q = p\<lparr>cw_tasks := tasks\<rparr>"
        using t by (auto simp: Waiting take_task_def Cons task split: if_splits)
      have "in_work (put_thread i t q) j = in_work p j" for j
        using count_if_update [OF i, of "\<lambda>t. running t = Some j" t]
        by (auto simp: in_work_def put_thread_def Waiting q Cons task)
      moreover have "r' = rs ! k'" if "Running k' r' \<in> set ((cw_threads p)[i := Running k r])" for k' r'
        using that inv set_update_subset_insert [of "cw_threads p" i "Running k r"]
        by (auto simp: conversion_inv_def Cons task)
      ultimately show ?thesis using inv set_update_subset_insert [of "cw_threads p" i "Running k r"] unfolding p'
        by (auto simp: conversion_inv_def put_thread_def q Cons task)
    qed
  next
    case (Running k r)
    then have q: "t = Waiting" "q = p\<lparr>cw_futures := (cw_futures p)[k := Some r]\<rparr>" using t by simp_all
    have k: "k < length rs" "cw_futures p ! k = None" "length (cw_futures p) = length rs"
      using in_work_bound [OF inv running_in_work [OF i Running]] inv by (simp_all add: conversion_inv_def)
    have r: "r = rs ! k" using inv nth_mem [OF i] by (auto simp: conversion_inv_def Running)
    have "in_work (put_thread i t q) j = (if j < length rs \<and> (cw_futures p)[k := Some r] ! j = None then 1 else 0)" for j
    proof -
      have "in_work (put_thread i t q) j + (if j = k then 1 else 0) = in_work p j"
        using count_if_update [OF i, of "\<lambda>t. running t = Some j" t]
        by (auto simp: in_work_def put_thread_def Running q)
      moreover have "in_work p j = (if j < length rs \<and> cw_futures p ! j = None then 1 else 0)"
        using inv by (simp add: conversion_inv_def)
      ultimately show ?thesis using k by (cases "j = k") simp_all
    qed
    then show ?thesis using inv k r set_update_subset_insert [of "cw_threads p" i Waiting] unfolding p'
      by (auto simp: conversion_inv_def put_thread_def q nth_list_update)
  next
    case Finished
    then show ?thesis using t by simp
  qed
qed

lemma reaches_inv: "pool_reaches hardware rs p \<Longrightarrow> conversion_inv rs p"
proof (induction rule: pool_reaches.induct)
  case (shutdown rs p)
  then show ?case by (auto simp: conversion_inv_def begin_shutdown_def in_work_def)
qed (auto intro: inv_start inv_submit inv_moves)


section \<open>Every task runs\<close>

definition pool_work :: "conversion_pool \<Rightarrow> nat" where
  "pool_work p = 2 * length (cw_tasks p) + count_if (\<lambda>t. running t \<noteq> None) (cw_threads p) +
     count_if (\<lambda>t. t \<noteq> Finished) (cw_threads p)"

lemma moves_less_work:
  assumes "thread_moves p p'"
  shows "pool_work p' < pool_work p"
proof -
  obtain i t q where i: "i < length (cw_threads p)" and t: "thread_step (cw_threads p ! i) p = Passed (t, q)"
      and p': "p' = put_thread i t q"
    using assms by (auto elim: thread_moves.cases)
  have pos: "cw_threads p ! i \<noteq> Finished" using t by auto
  then have "0 < count_if (\<lambda>t. t \<noteq> Finished) (cw_threads p)" using count_if_pos [OF i, of "\<lambda>t. t \<noteq> Finished"] by simp
  then show ?thesis
    using count_if_update [OF i, of "\<lambda>t. running t \<noteq> None" t] count_if_update [OF i, of "\<lambda>t. t \<noteq> Finished" t] t
    unfolding p'
    by (cases "cw_threads p ! i"; cases "cw_tasks p")
      (auto simp: pool_work_def put_thread_def take_task_def split: if_splits)
qed

lemma moves_keep_threads: "thread_moves p p' \<Longrightarrow> length (cw_threads p') = length (cw_threads p)"
  by (erule thread_moves.cases, rename_tac t, case_tac "cw_threads p ! i")
    (auto simp: put_thread_def take_task_def split: if_splits prod.splits)

lemma reaches_threads:
  "pool_reaches hardware rs p \<Longrightarrow> length (cw_threads p) = min kMaximumAuxiliaryWorkers (max 1 hardware - 1)"
  by (induction rule: pool_reaches.induct)
    (simp_all add: new_conversion_pool_def submit_conversion_def begin_shutdown_def Let_def moves_keep_threads)

lemma runs_reach: "thread_runs n p p' \<Longrightarrow> pool_reaches hardware rs p \<Longrightarrow> pool_reaches hardware rs p'"
  by (induction rule: thread_runs.induct) (auto intro: pool_reaches.moves)

lemma runs_bounded: "thread_runs n p p' \<Longrightarrow> n + pool_work p' \<le> pool_work p"
proof (induction rule: thread_runs.induct)
  case (2 p p' n p'')
  then show ?case using moves_less_work [OF "2.hyps"(1)] by simp
qed simp

lemma pending_can_move:
  assumes inv: "conversion_inv rs p" and threads: "cw_threads p \<noteq> []" and stuck: "\<And>p'. \<not> thread_moves p p'"
  shows "cw_futures p = map Some rs"
proof -
  have blocked: "thread_step t p = Blocked" if t: "t \<in> set (cw_threads p)" for t
  proof (cases "thread_step t p")
    case (Passed a)
    obtain i where i: "i < length (cw_threads p)" "cw_threads p ! i = t" using t unfolding in_set_conv_nth by blast
    have "thread_moves p (put_thread i (fst a) (snd a))"
      by (rule thread_moves.intros [OF i(1)]) (simp add: i(2) Passed)
    then show ?thesis using stuck by blast
  qed
  have tasks: "cw_tasks p = []"
  proof (rule ccontr)
    assume some: "cw_tasks p \<noteq> []"
    then have "t = Finished" if "t \<in> set (cw_threads p)" for t
      using blocked [OF that] by (cases t) (auto simp: take_task_def split: if_splits prod.splits)
    then have "Finished \<in> set (cw_threads p)" using threads by (metis hd_in_set)
    then show False using inv some by (simp add: conversion_inv_def)
  qed
  have idle: "running t = None" if "t \<in> set (cw_threads p)" for t
    using blocked [OF that] by (cases t) simp_all
  then have "in_work p k = 0" for k
    using tasks by (auto simp: in_work_def count_if_def filter_empty_conv)
  then have "cw_futures p ! k = Some (rs ! k)" if "k < length rs" for k
    using inv that by (fastforce simp: conversion_inv_def split: if_splits)
  then show ?thesis using inv by (intro nth_equalityI) (simp_all add: conversion_inv_def)
qed



end
