(* ===== verification/CpuDecoders.thy ===== *)
theory CpuDecoders
  imports WebmIO Decoder
begin

text \<open>
  The software decoders: src/cpu_vp9_decoder.cpp with its runtime and thread policy, and
  src/cpu_av1_decoder.cpp with its runtime. libvpx and libaom are not part of the sources: a codec
  is a record of operations over a state of its own. The nodes of the list of submitted packets keep their addresses, so
  the pointer to a packet's timestamp, which the codec hands back with a picture, is the packet's
  number; reading through the pointer of a packet that has left the list has no value. The facts of
  this theory bound the reading loops: every packet read leaves fewer in the file.
\<close>

section \<open>Pictures of a codec\<close>

datatype image_format = ImageI420 | ImageI42016 | ImageOther int

record codec_image =
  ci_format :: image_format
  ci_bit_depth :: u32
  ci_d_w :: u32
  ci_d_h :: u32
  ci_planes :: "nat \<Rightarrow> bytes" \<comment> \<open>what lies behind each plane pointer\<close>
  ci_strides :: "nat \<Rightarrow> i32"
  ci_user_priv :: "nat option" \<comment> \<open>the packet the picture was decoded with\<close>

text \<open>The product of a row and a stride is formed in 32 unsigned bits.\<close>

definition image_offset :: "nat \<Rightarrow> i32 \<Rightarrow> nat" where
  "image_offset row stride = unat (of_nat row * stride)"

text \<open>A row of bytes, or the low bytes of a row of 16-bit samples.\<close>

definition image_row :: "bool \<Rightarrow> bytes \<Rightarrow> nat \<Rightarrow> nat \<Rightarrow> bytes option" where
  "image_row wide mem off width =
     (if wide then map_option (\<lambda>bs. map (\<lambda>column. bs ! (2 * column)) [0..<width]) (read_block mem off (2 * width))
      else read_block mem off width)"

fun copy_image_rows :: "bool \<Rightarrow> bytes \<Rightarrow> i32 \<Rightarrow> nat \<Rightarrow> nat \<Rightarrow> i32 \<Rightarrow> nat \<Rightarrow> bytes \<Rightarrow> bytes option" where
  "copy_image_rows wide mem stride width base out_stride 0 pixels = Some pixels"
| "copy_image_rows wide mem stride width base out_stride (Suc row) pixels =
     (case copy_image_rows wide mem stride width base out_stride row pixels of
        None \<Rightarrow> None
      | Some pixels' \<Rightarrow>
          (case image_row wide mem (image_offset row stride) width of
             None \<Rightarrow> None
           | Some bs \<Rightarrow> write_block pixels' (base + image_offset row out_stride) bs))"

definition copy_image_pixels :: "bool \<Rightarrow> codec_image \<Rightarrow> i64 \<Rightarrow> decoded_frame option" where
  "copy_image_pixels wide img pts_ns =
     (let w = ci_d_w img; h = ci_d_h img;
          y_size = unat w * unat h; uv_size = unat (w div 2) * unat (h div 2);
          plane = (\<lambda>k width height base. copy_image_rows wide (ci_planes img k) (ci_strides img k)
                     (unat width) base width (unat height))
      in case plane 0 w h 0 (replicate (y_size + 2 * uv_size) 0) of None \<Rightarrow> None
       | Some p0 \<Rightarrow> (case plane 1 (w div 2) (h div 2) y_size p0 of None \<Rightarrow> None
       | Some p1 \<Rightarrow> (case plane 2 (w div 2) (h div 2) (y_size + uv_size) p1 of None \<Rightarrow> None
       | Some p2 \<Rightarrow> Some \<lparr>df_width = w, df_height = h, df_pts_ns = pts_ns, df_pixels = p2,
                          df_offsets = [0, y_size, y_size + uv_size],
                          df_strides = [w, w div 2, w div 2]\<rparr>)))"

definition odd_or_empty :: "codec_image \<Rightarrow> bool" where
  "odd_or_empty img \<longleftrightarrow> ci_d_w img = 0 \<or> ci_d_h img = 0 \<or> ci_d_w img AND 1 \<noteq> 0 \<or> ci_d_h img AND 1 \<noteq> 0"

definition vp9_copy_image :: "codec_image \<Rightarrow> i64 \<Rightarrow> (status + decoded_frame) option" where
  "vp9_copy_image img pts_ns =
     (if ci_format img \<noteq> ImageI420 \<or> odd_or_empty img
      then Some (Inl (MKVC_ERROR_NOT_SUPPORTED, ''decoder produced an unsupported pixel format or dimension''))
      else map_option Inr (copy_image_pixels False img pts_ns))"

fun decimal :: "nat \<Rightarrow> string" where
  "decimal n = (if n < 10 then [char_of (48 + n)] else decimal (n div 10) @ [char_of (48 + n mod 10)])"

declare decimal.simps [simp del]

definition decimal_int :: "int \<Rightarrow> string" where
  "decimal_int i = (if i < 0 then ''-'' @ decimal (nat (- i)) else decimal (nat i))"

text \<open>libaom's numbers of the two formats are not part of the sources: \<open>format_code\<close>.\<close>

definition av1_format_error :: "(image_format \<Rightarrow> int) \<Rightarrow> codec_image \<Rightarrow> string" where
  "av1_format_error format_code img =
     ''libaom produced unsupported format='' @ decimal_int (format_code (ci_format img)) @
     '' size='' @ decimal (unat (ci_d_w img)) @ ''x'' @ decimal (unat (ci_d_h img)) @
     '' bit_depth='' @ decimal (unat (ci_bit_depth img))"

definition av1_copy_image ::
    "(image_format \<Rightarrow> int) \<Rightarrow> codec_image \<Rightarrow> i64 \<Rightarrow> (status + decoded_frame) option" where
  "av1_copy_image format_code img pts_ns =
     (let byte_i420 = (ci_format img = ImageI420);
          word_i420 = (ci_format img = ImageI42016 \<and> ci_bit_depth img = 8)
      in if (\<not> byte_i420 \<and> \<not> word_i420) \<or> odd_or_empty img
         then Some (Inl (MKVC_ERROR_NOT_SUPPORTED, av1_format_error format_code img))
         else map_option Inr (copy_image_pixels (\<not> byte_i420) img pts_ns))"

section \<open>The codec and the packets it holds\<close>

record 'c codec_ops =
  co_init :: "u32 \<Rightarrow> string + 'c" \<comment> \<open>by the number of threads\<close>
  co_decode :: "'c \<Rightarrow> (bytes \<times> nat) option \<Rightarrow> bool \<times> 'c" \<comment> \<open>\<open>None\<close> flushes\<close>
  co_get_frame :: "'c \<Rightarrow> nat option \<Rightarrow> codec_image option \<times> nat option \<times> 'c"
  co_error :: "'c \<Rightarrow> string"
  co_error_detail :: "'c \<Rightarrow> string option"

definition codec_message :: "'c codec_ops \<Rightarrow> 'c \<Rightarrow> string" where
  "codec_message ops c = (case co_error_detail ops c of Some e \<Rightarrow> e | None \<Rightarrow> co_error ops c)"

text \<open>\<^verbatim>\<open>find_if\<close> by address, then \<^verbatim>\<open>erase\<close>.\<close>

fun erase_packet :: "nat \<Rightarrow> (nat \<times> encoded_packet) list \<Rightarrow> (nat \<times> encoded_packet) list" where
  "erase_packet n [] = []"
| "erase_packet n (p # ps) = (if fst p = n then ps else p # erase_packet n ps)"

section \<open>The VP9 decoder\<close>

definition kAutomaticThreadLimit :: u32 where "kAutomaticThreadLimit = 16"

definition resolve_thread_count :: "u32 \<Rightarrow> u32 \<Rightarrow> u32" where
  "resolve_thread_count requested hardware_threads =
     (if requested \<noteq> 0 then requested else min kAutomaticThreadLimit (max 1 hardware_threads))"

record 'c vp9_decoder =
  vd_codec :: "'c option" \<comment> \<open>\<open>None\<close> while not \<^verbatim>\<open>codec_initialized\<close>\<close>
  vd_iterator :: "nat option"
  vd_packet_reader :: "packet_reader option"
  vd_submitted_packets :: "(nat \<times> encoded_packet) list"
  vd_next_node :: nat
  vd_demux_eos :: bool
  vd_drained :: bool
  vd_closed :: bool

definition new_vp9_decoder :: "'c vp9_decoder" where
  "new_vp9_decoder = \<lparr>vd_codec = None, vd_iterator = None, vd_packet_reader = None,
     vd_submitted_packets = [], vd_next_node = 0, vd_demux_eos = False, vd_drained = False, vd_closed = False\<rparr>"

text \<open>\<open>open_reader_of\<close> is the packet reader's factory for the codec the decoder asks for.\<close>

definition vp9_initialize ::
    "'c codec_ops \<Rightarrow> u32 \<Rightarrow> (string option \<Rightarrow> u32 \<Rightarrow> string + packet_reader) \<Rightarrow> decoder_config \<Rightarrow>
     'c vp9_decoder \<Rightarrow> status \<times> 'c vp9_decoder" where
  "vp9_initialize ops hardware_threads open_reader_of config d =
     (case open_reader_of (dc_input_path config) MKVC_CODEC_VP9 of
        Inl e \<Rightarrow> ((MKVC_ERROR_IO, e), d)
      | Inr r \<Rightarrow>
          let d = d\<lparr>vd_packet_reader := Some r\<rparr>
          in (case co_init ops (resolve_thread_count (dc_threads config) hardware_threads) of
                Inl e \<Rightarrow> ((MKVC_ERROR_CODEC, e), d)
              | Inr c \<Rightarrow> (ok, d\<lparr>vd_codec := Some c\<rparr>)))"

definition vp9_create ::
    "'c codec_ops \<Rightarrow> u32 \<Rightarrow> (string option \<Rightarrow> u32 \<Rightarrow> string + packet_reader) \<Rightarrow> decoder_config \<Rightarrow>
     string + 'c vp9_decoder" where
  "vp9_create ops hardware_threads open_reader_of config =
     (case vp9_initialize ops hardware_threads open_reader_of config new_vp9_decoder of
        ((r, e), d) \<Rightarrow> if r \<noteq> MKVC_OK then Inl e else Inr d)"

text \<open>How many frames of any track a reader can still hand out.\<close>

fun entries_left :: "webm_entry list \<Rightarrow> nat \<Rightarrow> nat" where
  "entries_left [] k = 0"
| "entries_left (e # es) k =
     (case we_block e of None \<Rightarrow> 0 | Some b \<Rightarrow> length (wb_frames b) - k) + entries_left es 0"

fun clusters_left :: "webm_cluster list \<Rightarrow> nat" where
  "clusters_left [] = 0"
| "clusters_left (c # cs) = entries_left (wc_entries c) 0 + clusters_left cs"

definition reader_left :: "packet_reader \<Rightarrow> nat" where
  "reader_left r = (case rd_entries r of
     None \<Rightarrow> clusters_left (rd_clusters r)
   | Some es \<Rightarrow> entries_left es (rd_frame_index r) + clusters_left (tl (rd_clusters r)))"

lemma entries_left_0: "entries_left es 0 \<ge> entries_left es k"
  by (cases es) (auto split: option.splits)

lemma walk_entries_left:
  "walk_entries track es k = Some (Inr p, es', k') \<Longrightarrow> entries_left es' k' < entries_left es k"
proof (induction es arbitrary: k)
  case Nil
  then show ?case by simp
next
  case (Cons e es)
  have rest: "entries_left es 0 \<le> entries_left (e # es) k" by simp
  show ?case
  proof (cases "walk_entries track es 0 = Some (Inr p, es', k')")
    case True
    from Cons.IH [OF True] rest show ?thesis by linarith
  next
    case False
    then show ?thesis using Cons.prems
      by (auto simp: Let_def split: option.splits if_splits)
  qed
qed

lemma walk_clusters_left:
  "walk_clusters track cs entries k = (Inr p, r') \<Longrightarrow>
   reader_left r' < reader_left \<lparr>rd_clusters = cs, rd_entries = entries, rd_frame_index = k, rd_track = track\<rparr>"
proof (induction track cs entries k rule: walk_clusters.induct)
  case (1 track entries index)
  then show ?case by simp
next
  case (2 track c cs entries index)
  define es start where "es = (case entries of None \<Rightarrow> wc_entries c | Some es \<Rightarrow> es)"
    and "start = (case entries of None \<Rightarrow> 0 | Some _ \<Rightarrow> index)"
  have pair: "(case entries of None \<Rightarrow> (wc_entries c, 0) | Some es \<Rightarrow> (es, index)) = (es, start)"
    by (simp add: es_def start_def split: option.splits)
  have left: "reader_left \<lparr>rd_clusters = c # cs, rd_entries = entries, rd_frame_index = index, rd_track = track\<rparr> =
      entries_left es start + clusters_left cs"
    by (simp add: reader_left_def es_def start_def split: option.splits)
  have first: "\<not> (entries = None \<and> \<not> wc_first_ok c)" 
    using "2.prems" by (intro notI) simp
  show ?case
  proof (cases "walk_entries track es start")
    case None
    then have next_cluster: "walk_clusters track cs None 0 = (Inr p, r')"
      using "2.prems" first pair by simp
    have "reader_left r' < clusters_left cs"
      using "2.IH" [OF first pair [symmetric] refl None next_cluster] by (simp add: reader_left_def)
    then show ?thesis unfolding left by simp
  next
    case (Some res)
    obtain es' k' where found: "walk_entries track es start = Some (Inr p, es', k')"
        and r': "r' = \<lparr>rd_clusters = c # cs, rd_entries = Some es', rd_frame_index = k', rd_track = track\<rparr>"
      using "2.prems" first pair Some by (cases res) auto
    show ?thesis unfolding left using walk_entries_left [OF found] by (simp add: r' reader_left_def)
  qed
qed

lemma read_packet_left: "read_packet r = (Inr p, r') \<Longrightarrow> reader_left r' < reader_left r"
  using walk_clusters_left [of "rd_track r" "rd_clusters r" "rd_entries r" "rd_frame_index r" p r']
  by (cases r) (simp add: read_packet_def)


text \<open>One call of \<^verbatim>\<open>read_frame\<close>: \<open>None\<close> where the code would read through a null or dangling
  pointer or outside a plane.\<close>

function vp9_read_frame ::
    "'c codec_ops \<Rightarrow> 'c vp9_decoder \<Rightarrow> ((status + decoded_frame) \<times> 'c vp9_decoder) option" where
  "vp9_read_frame ops d =
     (case vd_codec d of None \<Rightarrow> None | Some c \<Rightarrow> (case vd_packet_reader d of None \<Rightarrow> None | Some r \<Rightarrow>
       (case co_get_frame ops c (vd_iterator d) of (found, i, c) \<Rightarrow>
         let d = d\<lparr>vd_codec := Some c, vd_iterator := i\<rparr> in
         (case found of
            Some img \<Rightarrow>
              (case ci_user_priv img of
                 None \<Rightarrow> map_option (\<lambda>res. (res, d)) (vp9_copy_image img 0)
               | Some node \<Rightarrow>
                   (case map_of (vd_submitted_packets d) node of
                      None \<Rightarrow> None
                    | Some p \<Rightarrow>
                        map_option (\<lambda>res. (res, d\<lparr>vd_submitted_packets := erase_packet node (vd_submitted_packets d)\<rparr>))
                          (vp9_copy_image img (ep_pts_ns p))))
          | None \<Rightarrow>
              if \<not> vd_demux_eos d then
                (case read_packet r of
                   (Inl (demux_result, e), r') \<Rightarrow>
                     if demux_result \<noteq> MKVC_END_OF_STREAM
                     then Some (Inl (demux_result, e), d\<lparr>vd_packet_reader := Some r'\<rparr>)
                     else vp9_read_frame ops (d\<lparr>vd_packet_reader := Some r', vd_demux_eos := True\<rparr>)
                 | (Inr p, r') \<Rightarrow>
                     let node = vd_next_node d;
                         d = d\<lparr>vd_packet_reader := Some r', vd_next_node := Suc node,
                               vd_submitted_packets := vd_submitted_packets d @ [(node, p)]\<rparr>
                     in (case co_decode ops c (Some (ep_data p, node)) of (accepted, c) \<Rightarrow>
                           let d = d\<lparr>vd_codec := Some c\<rparr>
                           in if \<not> accepted then Some (Inl (MKVC_ERROR_CODEC, codec_message ops c), d)
                              else vp9_read_frame ops d))
              else if \<not> vd_drained d then
                (case co_decode ops c None of (accepted, c) \<Rightarrow>
                   let d = d\<lparr>vd_codec := Some c, vd_drained := True\<rparr>
                   in if \<not> accepted then Some (Inl (MKVC_ERROR_CODEC, co_error ops c), d)
                      else vp9_read_frame ops d)
              else Some (Inl (MKVC_END_OF_STREAM, []), d)))))"
  by pat_completeness auto

termination
  by (relation "measure (\<lambda>(ops, d).
        (if vd_demux_eos d then 0 else Suc (reader_left (the (vd_packet_reader d)))) +
        (if vd_drained d then 0 else 1))")
    (auto dest: read_packet_left [OF sym])

declare vp9_read_frame.simps [simp del]

definition vp9_read ::
    "'c codec_ops \<Rightarrow> 'c vp9_decoder \<Rightarrow> ((status + decoded_frame) \<times> 'c vp9_decoder) option" where
  "vp9_read ops d =
     (if vd_closed d then Some (Inl (MKVC_ERROR_INVALID_STATE, ''decoder is closed''), d)
      else vp9_read_frame ops d)"

definition vp9_destroy :: "'c vp9_decoder \<Rightarrow> 'c vp9_decoder" where
  "vp9_destroy d = d\<lparr>vd_codec := None, vd_submitted_packets := [], vd_packet_reader := None\<rparr>"

definition vp9_close :: "'c vp9_decoder \<Rightarrow> status \<times> 'c vp9_decoder" where
  "vp9_close d = (if vd_closed d then (ok, d) else (ok, (vp9_destroy d)\<lparr>vd_closed := True\<rparr>))"

section \<open>The AV1 decoder\<close>

record 'c av1_decoder =
  ad_codec :: "'c option"
  ad_iterator :: "nat option"
  ad_packet_reader :: "packet_reader option"
  ad_submitted_packets :: "(nat \<times> encoded_packet) list"
  ad_next_node :: nat
  ad_output_pending :: bool
  ad_active_pts :: "nat option"
  ad_demux_eos :: bool
  ad_closed :: bool

definition new_av1_decoder :: "'c av1_decoder" where
  "new_av1_decoder = \<lparr>ad_codec = None, ad_iterator = None, ad_packet_reader = None,
     ad_submitted_packets = [], ad_next_node = 0, ad_output_pending = False, ad_active_pts = None,
     ad_demux_eos = False, ad_closed = False\<rparr>"

definition av1_initialize ::
    "'c codec_ops \<Rightarrow> (string option \<Rightarrow> u32 \<Rightarrow> string + packet_reader) \<Rightarrow> decoder_config \<Rightarrow>
     'c av1_decoder \<Rightarrow> status \<times> 'c av1_decoder" where
  "av1_initialize ops open_reader_of config d =
     (case open_reader_of (dc_input_path config) MKVC_CODEC_AV1 of
        Inl e \<Rightarrow> ((MKVC_ERROR_IO, e), d)
      | Inr r \<Rightarrow>
          let d = d\<lparr>ad_packet_reader := Some r\<rparr>
          in (case co_init ops (dc_threads config) of
                Inl e \<Rightarrow> ((MKVC_ERROR_CODEC, e), d)
              | Inr c \<Rightarrow> (ok, d\<lparr>ad_codec := Some c\<rparr>)))"

definition av1_create ::
    "'c codec_ops \<Rightarrow> (string option \<Rightarrow> u32 \<Rightarrow> string + packet_reader) \<Rightarrow> decoder_config \<Rightarrow>
     string + 'c av1_decoder" where
  "av1_create ops open_reader_of config =
     (case av1_initialize ops open_reader_of config new_av1_decoder of
        ((r, e), d) \<Rightarrow> if r \<noteq> MKVC_OK then Inl e else Inr d)"

text \<open>The end of a packet's pictures: the packet leaves the list.\<close>

definition av1_output_done :: "'c av1_decoder \<Rightarrow> 'c av1_decoder" where
  "av1_output_done d =
     (let d = d\<lparr>ad_output_pending := False, ad_iterator := None\<rparr>
      in case ad_active_pts d of
           None \<Rightarrow> d
         | Some node \<Rightarrow> d\<lparr>ad_submitted_packets := erase_packet node (ad_submitted_packets d), ad_active_pts := None\<rparr>)"

lemma av1_output_done_keeps [simp]:
  "ad_codec (av1_output_done d) = ad_codec d" "ad_packet_reader (av1_output_done d) = ad_packet_reader d"
  "ad_demux_eos (av1_output_done d) = ad_demux_eos d" "ad_closed (av1_output_done d) = ad_closed d"
  "ad_output_pending (av1_output_done d) = False" "ad_next_node (av1_output_done d) = ad_next_node d"
  by (simp_all add: av1_output_done_def Let_def split: option.splits)

text \<open>The part of the loop's body that asks for output: the picture found, if any.\<close>

definition av1_poll :: "'c codec_ops \<Rightarrow> 'c \<Rightarrow> 'c av1_decoder \<Rightarrow> codec_image option \<times> 'c av1_decoder" where
  "av1_poll ops c d =
     (if ad_output_pending d
      then (case co_get_frame ops c (ad_iterator d) of (found, i, c) \<Rightarrow>
             let d = d\<lparr>ad_codec := Some c, ad_iterator := i\<rparr>
             in (found, if found = None then av1_output_done d else d))
      else (None, d))"

lemma av1_poll_keeps:
  "av1_poll ops c d = (found, d') \<Longrightarrow> ad_demux_eos d' = ad_demux_eos d \<and>
     ad_packet_reader d' = ad_packet_reader d \<and> ad_closed d' = ad_closed d \<and> ad_next_node d' = ad_next_node d"
  by (auto simp: av1_poll_def Let_def split: if_splits prod.splits)

function av1_read_frame ::
    "'c codec_ops \<Rightarrow> (image_format \<Rightarrow> int) \<Rightarrow> 'c av1_decoder \<Rightarrow>
     ((status + decoded_frame) \<times> 'c av1_decoder) option" where
  "av1_read_frame ops format_code d0 =
     (case ad_codec d0 of None \<Rightarrow> None | Some c0 \<Rightarrow> (case ad_packet_reader d0 of None \<Rightarrow> None | Some r \<Rightarrow>
       (case av1_poll ops c0 d0 of
          (Some img, d) \<Rightarrow>
            (case ci_user_priv img of
               None \<Rightarrow> map_option (\<lambda>res. (res, d)) (av1_copy_image format_code img 0)
             | Some node \<Rightarrow>
                 (case map_of (ad_submitted_packets d) node of
                    None \<Rightarrow> None
                  | Some p \<Rightarrow> map_option (\<lambda>res. (res, d)) (av1_copy_image format_code img (ep_pts_ns p))))
        | (None, d) \<Rightarrow>
            if \<not> ad_demux_eos d0 then
              (case read_packet r of
                 (Inl (demux_result, e), r') \<Rightarrow>
                   if demux_result \<noteq> MKVC_END_OF_STREAM
                   then Some (Inl (demux_result, e), d\<lparr>ad_packet_reader := Some r'\<rparr>)
                   else av1_read_frame ops format_code (d\<lparr>ad_packet_reader := Some r', ad_demux_eos := True\<rparr>)
               | (Inr p, r') \<Rightarrow>
                   let node = ad_next_node d;
                       d = d\<lparr>ad_packet_reader := Some r', ad_next_node := Suc node,
                             ad_submitted_packets := ad_submitted_packets d @ [(node, p)]\<rparr>
                   in (case co_decode ops (the (ad_codec d)) (Some (ep_data p, node)) of (accepted, c) \<Rightarrow>
                         let d = d\<lparr>ad_codec := Some c\<rparr>
                         in if \<not> accepted then Some (Inl (MKVC_ERROR_CODEC, codec_message ops c), d)
                            else av1_read_frame ops format_code
                                   (d\<lparr>ad_output_pending := True, ad_iterator := None, ad_active_pts := Some node\<rparr>)))
            else Some (Inl (MKVC_END_OF_STREAM, []), d))))"
  by pat_completeness auto

termination
  by (relation "measure (\<lambda>(ops, f, d).
        if ad_demux_eos d then 0 else Suc (reader_left (the (ad_packet_reader d))))")
    (auto dest!: av1_poll_keeps [OF sym] av1_poll_keeps dest: read_packet_left [OF sym])

declare av1_read_frame.simps [simp del]

definition av1_read ::
    "'c codec_ops \<Rightarrow> (image_format \<Rightarrow> int) \<Rightarrow> 'c av1_decoder \<Rightarrow>
     ((status + decoded_frame) \<times> 'c av1_decoder) option" where
  "av1_read ops format_code d =
     (if ad_closed d then Some (Inl (MKVC_ERROR_INVALID_STATE, ''decoder is closed''), d)
      else av1_read_frame ops format_code d)"

definition av1_destroy :: "'c av1_decoder \<Rightarrow> 'c av1_decoder" where
  "av1_destroy d = d\<lparr>ad_codec := None, ad_submitted_packets := [], ad_packet_reader := None\<rparr>"

definition av1_close :: "'c av1_decoder \<Rightarrow> status \<times> 'c av1_decoder" where
  "av1_close d = (if ad_closed d then (ok, d) else (ok, (av1_destroy d)\<lparr>ad_closed := True\<rparr>))"

end
