(* ===== verification/CpuDecoderStream.thy ===== *)
theory CpuDecoderStream
  imports CpuDecoders
begin

text \<open>
  What the software decoders deliver. \<open>decodes_like\<close> states what the codec's documentation promises.
  On a track without a defect both decoders deliver exactly the pictures the codec makes of the
  track's packets, in order, each with the timestamp of the packet it came from and its pixels row
  by row without padding, then the end of the stream; a packet the codec refuses ends the stream
  with a codec error at its place.
\<close>

section \<open>Copied pictures\<close>

text \<open>A plane whose rows lie inside what its pointer reaches, and an image small enough that no
  offset leaves 32 bits; a codec's pictures are such.\<close>

definition sound_plane :: "bool \<Rightarrow> bytes \<Rightarrow> i32 \<Rightarrow> nat \<Rightarrow> nat \<Rightarrow> bool" where
  "sound_plane wide mem stride width rows \<longleftrightarrow>
     rows * unat stride < 4294967296 \<and> (rows - 1) * unat stride + (if wide then 2 * width else width) \<le> length mem"

definition sound_image :: "bool \<Rightarrow> codec_image \<Rightarrow> bool" where
  "sound_image wide img \<longleftrightarrow> unat (ci_d_w img) * unat (ci_d_h img) < 4294967296 \<and>
     sound_plane wide (ci_planes img 0) (ci_strides img 0) (unat (ci_d_w img)) (unat (ci_d_h img)) \<and>
     (\<forall>k \<in> {1, 2}. sound_plane wide (ci_planes img k) (ci_strides img k)
        (unat (ci_d_w img div 2)) (unat (ci_d_h img div 2)))"

text \<open>The samples of a plane, row by row.\<close>

definition sample_row :: "bool \<Rightarrow> bytes \<Rightarrow> nat \<Rightarrow> nat \<Rightarrow> bytes" where
  "sample_row wide mem off width = map (\<lambda>column. mem ! (off + (if wide then 2 * column else column))) [0..<width]"

definition plane_samples :: "bool \<Rightarrow> bytes \<Rightarrow> nat \<Rightarrow> nat \<Rightarrow> nat \<Rightarrow> bytes" where
  "plane_samples wide mem stride width rows =
     concat (map (\<lambda>row. sample_row wide mem (row * stride) width) [0..<rows])"

definition image_frame :: "bool \<Rightarrow> codec_image \<Rightarrow> i64 \<Rightarrow> decoded_frame" where
  "image_frame wide img pts =
     (let w = ci_d_w img; h = ci_d_h img; y_size = unat w * unat h; uv_size = unat (w div 2) * unat (h div 2);
          samples = (\<lambda>k width height. plane_samples wide (ci_planes img k) (unat (ci_strides img k)) (unat width) (unat height))
      in \<lparr>df_width = w, df_height = h, df_pts_ns = pts,
          df_pixels = samples 0 w h @ samples 1 (w div 2) (h div 2) @ samples 2 (w div 2) (h div 2),
          df_offsets = [0, y_size, y_size + uv_size], df_strides = [w, w div 2, w div 2]\<rparr>)"

lemma length_sample_row [simp]: "length (sample_row wide mem off width) = width"
  by (simp add: sample_row_def)

lemma length_plane_samples [simp]: "length (plane_samples wide mem stride width rows) = rows * width"
  by (induction rows) (simp_all add: plane_samples_def)

lemma plane_samples_Suc:
  "plane_samples wide mem stride width (Suc rows) =
     plane_samples wide mem stride width rows @ sample_row wide mem (rows * stride) width"
  by (simp add: plane_samples_def)

lemma image_row_samples:
  "off + (if wide then 2 * width else width) \<le> length mem \<Longrightarrow>
   image_row wide mem off width = Some (sample_row wide mem off width)"
  by (cases wide) (auto simp: image_row_def sample_row_def read_block_def intro!: nth_equalityI)

lemma image_offset_small:
  "row * unat stride < 4294967296 \<Longrightarrow> row < 4294967296 \<Longrightarrow> image_offset row stride = row * unat stride"
  by (simp add: image_offset_def unat_word_ariths unat_of_nat)

lemma copy_image_rows_samples:
  assumes "rows < 4294967296" "rows * unat stride < 4294967296" "rows * unat out_stride < 4294967296"
    and "unat out_stride = width" "rows = 0 \<or> (rows - 1) * unat stride + (if wide then 2 * width else width) \<le> length mem"
    and "base + rows * width \<le> length pixels"
  shows "copy_image_rows wide mem stride width base out_stride rows pixels =
    Some (take base pixels @ plane_samples wide mem (unat stride) width rows @ drop (base + rows * width) pixels)"
  using assms
proof (induction rows)
  case 0
  then show ?case by (simp add: plane_samples_def)
next
  case (Suc rows)
  let ?need = "if wide then 2 * width else width"
  have room: "rows * unat stride + ?need \<le> length mem" using Suc.prems(5) by simp
  have before: "rows = 0 \<or> (rows - 1) * unat stride + ?need \<le> length mem"
    using room by (cases rows) auto
  have IH: "copy_image_rows wide mem stride width base out_stride rows pixels =
    Some (take base pixels @ plane_samples wide mem (unat stride) width rows @ drop (base + rows * width) pixels)"
    using Suc.prems before by (intro Suc.IH) auto
  have offsets: "image_offset rows stride = rows * unat stride" "image_offset rows out_stride = rows * width"
    using Suc.prems by (simp_all add: image_offset_small)
  show ?case
    using Suc.prems(4,6) room
    by (simp add: IH offsets image_row_samples write_block_def plane_samples_Suc algebra_simps)
qed

lemma odd_or_empty_iff:
  "\<not> odd_or_empty img \<longleftrightarrow> 0 < unat (ci_d_w img) \<and> 0 < unat (ci_d_h img) \<and>
     even (unat (ci_d_w img)) \<and> even (unat (ci_d_h img))"
  by (auto simp: odd_or_empty_def even_word_iff unat_gt_0)

lemma copy_image_pixels_frame:
  assumes "sound_image wide img" "\<not> odd_or_empty img"
  shows "copy_image_pixels wide img pts = Some (image_frame wide img pts)"
proof -
  define w h where "w = ci_d_w img" and "h = ci_d_h img"
  have even: "even (unat w)" "even (unat h)" "0 < unat w" "0 < unat h"
    using assms(2) by (simp_all add: odd_or_empty_iff w_def h_def)
  have area: "unat w * unat h < 4294967296" using assms(1) by (simp add: sound_image_def w_def h_def)
  have half: "unat (w div 2) = unat w div 2" "unat (h div 2) = unat h div 2" by (simp_all add: unat_div)
  have "unat h div 2 * (unat w div 2) \<le> unat h * unat w" by (intro mult_le_mono) simp_all
  then have quarter: "unat (h div 2) * unat (w div 2) < 4294967296" using area by (simp add: half mult.commute)
  have y: "sound_plane wide (ci_planes img 0) (ci_strides img 0) (unat w) (unat h)"
    and uv: "sound_plane wide (ci_planes img 1) (ci_strides img 1) (unat (w div 2)) (unat (h div 2))"
      "sound_plane wide (ci_planes img 2) (ci_strides img 2) (unat (w div 2)) (unat (h div 2))"
    using assms(1) by (simp_all add: sound_image_def w_def h_def)
  define ys us vs where "ys = plane_samples wide (ci_planes img 0) (unat (ci_strides img 0)) (unat w) (unat h)"
    and "us = plane_samples wide (ci_planes img 1) (unat (ci_strides img 1)) (unat (w div 2)) (unat (h div 2))"
    and "vs = plane_samples wide (ci_planes img 2) (unat (ci_strides img 2)) (unat (w div 2)) (unat (h div 2))"
  have len: "length ys = unat h * unat w" "length us = unat (h div 2) * unat (w div 2)"
      "length vs = unat (h div 2) * unat (w div 2)" by (simp_all add: ys_def us_def vs_def)
  have plane: "copy_image_rows wide (ci_planes img k) (ci_strides img k) (unat width) base width (unat height) pixels =
      Some (take base pixels @ plane_samples wide (ci_planes img k) (unat (ci_strides img k)) (unat width) (unat height) @
        drop (base + unat height * unat width) pixels)"
    if "sound_plane wide (ci_planes img k) (ci_strides img k) (unat width) (unat height)"
      "unat height * unat width < 4294967296" "base + unat height * unat width \<le> length pixels"
    for k base pixels and width height :: u32
    using that u32_less [of height] by (intro copy_image_rows_samples) (auto simp: sound_plane_def)
  let ?zero = "replicate (unat w * unat h + 2 * (unat (w div 2) * unat (h div 2))) (0 :: u8)"
  have p0: "copy_image_rows wide (ci_planes img 0) (ci_strides img 0) (unat w) 0 w (unat h) ?zero =
      Some (ys @ drop (unat h * unat w) ?zero)"
    using plane [OF y, of 0 ?zero] area by (simp add: ys_def mult.commute)
  have p1: "copy_image_rows wide (ci_planes img 1) (ci_strides img 1) (unat (w div 2)) (unat w * unat h) (w div 2)
      (unat (h div 2)) (ys @ drop (unat h * unat w) ?zero) =
      Some (ys @ us @ drop (unat h * unat w + unat (h div 2) * unat (w div 2)) ?zero)"
    using plane [OF uv(1) quarter, of "unat w * unat h" "ys @ drop (unat h * unat w) ?zero"]
    by (simp add: len us_def [symmetric] mult.commute add.commute del: One_nat_def)
  have p2: "copy_image_rows wide (ci_planes img 2) (ci_strides img 2) (unat (w div 2))
      (unat w * unat h + unat (w div 2) * unat (h div 2)) (w div 2) (unat (h div 2))
      (ys @ us @ drop (unat h * unat w + unat (h div 2) * unat (w div 2)) ?zero) = Some (ys @ us @ vs)"
    using plane [OF uv(2) quarter, of "unat w * unat h + unat (w div 2) * unat (h div 2)"
        "ys @ us @ drop (unat h * unat w + unat (h div 2) * unat (w div 2)) ?zero"]
    by (simp add: len vs_def [symmetric] mult.commute add.commute)
  show ?thesis
    by (simp only: copy_image_pixels_def Let_def image_frame_def w_def [symmetric] h_def [symmetric]
        ys_def [symmetric] us_def [symmetric] vs_def [symmetric] p0 p1 p2 option.case)
qed


section \<open>What the codec promises\<close>

text \<open>\<open>pictures history data\<close> is what decoding \<open>data\<close> after the packets of \<open>history\<close> makes, \<open>None\<close>
  where the codec refuses the packet. A fresh codec has seen nothing and holds no picture; decoding
  a packet makes its pictures available from a null iterator on, marked with the caller's pointer;
  asking for a frame hands them out one after the other.\<close>

definition decodes_like ::
    "'c codec_ops \<Rightarrow> ('c \<Rightarrow> bytes list) \<Rightarrow> ('c \<Rightarrow> nat option \<Rightarrow> codec_image list) \<Rightarrow>
     (bytes list \<Rightarrow> bytes \<Rightarrow> codec_image list option) \<Rightarrow> bool" where
  "decodes_like ops history available pictures \<longleftrightarrow>
     (\<forall>threads c. co_init ops threads = Inr c \<longrightarrow> history c = [] \<and> available c None = []) \<and>
     (\<forall>c data node. case co_decode ops c (Some (data, node)) of (accepted, c') \<Rightarrow>
        (case pictures (history c) data of
           None \<Rightarrow> \<not> accepted
         | Some imgs \<Rightarrow> accepted \<and> history c' = history c @ [data] \<and>
             available c' None = map (\<lambda>img. img\<lparr>ci_user_priv := Some node\<rparr>) imgs)) \<and>
     (\<forall>c i. case co_get_frame ops c i of (found, i', c') \<Rightarrow> history c' = history c \<and>
        (case available c i of
           [] \<Rightarrow> found = None \<and> available c' i' = []
         | img # imgs \<Rightarrow> found = Some img \<and> available c' i' = imgs))"

text \<open>libvpx's VP9 decoder ignores the iterator (which its caller here never sets back), makes at
  most one picture of a packet and none by a flush.\<close>

definition single_picture_codec ::
    "'c codec_ops \<Rightarrow> ('c \<Rightarrow> nat option \<Rightarrow> codec_image list) \<Rightarrow>
     (bytes list \<Rightarrow> bytes \<Rightarrow> codec_image list option) \<Rightarrow> bool" where
  "single_picture_codec ops available pictures \<longleftrightarrow>
     (\<forall>c i. available c i = available c None) \<and>
     (\<forall>past data imgs. pictures past data = Some imgs \<longrightarrow> length imgs \<le> 1) \<and>
     (\<forall>c. fst (co_decode ops c None) \<and> (available c None = [] \<longrightarrow> available (snd (co_decode ops c None)) None = []))"

text \<open>What a reader of the decoder should see of a list of packets: the pictures' frames, and
  whether the codec took every packet.\<close>

fun stream_frames ::
    "(bytes list \<Rightarrow> bytes \<Rightarrow> codec_image list option) \<Rightarrow> (codec_image \<Rightarrow> i64 \<Rightarrow> status + decoded_frame) \<Rightarrow>
     bytes list \<Rightarrow> encoded_packet list \<Rightarrow> (status + decoded_frame) list \<times> bool" where
  "stream_frames pictures frame_of past [] = ([], True)"
| "stream_frames pictures frame_of past (p # ps) =
     (case pictures past (ep_data p) of
        None \<Rightarrow> ([], False)
      | Some imgs \<Rightarrow>
          (case stream_frames pictures frame_of (past @ [ep_data p]) ps of (frames, complete) \<Rightarrow>
             (map (\<lambda>img. frame_of img (ep_pts_ns p)) imgs @ frames, complete)))"

definition vp9_frame_of :: "codec_image \<Rightarrow> i64 \<Rightarrow> status + decoded_frame" where
  "vp9_frame_of img pts =
     (if ci_format img \<noteq> ImageI420 \<or> odd_or_empty img
      then Inl (MKVC_ERROR_NOT_SUPPORTED, ''decoder produced an unsupported pixel format or dimension'')
      else Inr (image_frame False img pts))"

definition av1_frame_of :: "(image_format \<Rightarrow> int) \<Rightarrow> codec_image \<Rightarrow> i64 \<Rightarrow> status + decoded_frame" where
  "av1_frame_of format_code img pts =
     (if (ci_format img = ImageI420 \<or> ci_format img = ImageI42016 \<and> ci_bit_depth img = 8) \<and> \<not> odd_or_empty img
      then Inr (image_frame (ci_format img \<noteq> ImageI420) img pts)
      else Inl (MKVC_ERROR_NOT_SUPPORTED, av1_format_error format_code img))"

text \<open>Successive calls of a read function.\<close>

fun repeat_reads :: "('d \<Rightarrow> ('r \<times> 'd) option) \<Rightarrow> nat \<Rightarrow> 'd \<Rightarrow> 'r list option" where
  "repeat_reads rd 0 d = Some []"
| "repeat_reads rd (Suc n) d =
     (case rd d of None \<Rightarrow> None | Some (res, d') \<Rightarrow> map_option (Cons res) (repeat_reads rd n d'))"

definition sound_pictures :: "(bytes list \<Rightarrow> bytes \<Rightarrow> codec_image list option) \<Rightarrow> bool" where
  "sound_pictures pictures \<longleftrightarrow>
     (\<forall>past data imgs. pictures past data = Some imgs \<longrightarrow>
        (\<forall>img \<in> set imgs. sound_image (ci_format img \<noteq> ImageI420) img))"

lemma vp9_copy_image_frame:
  "sound_image (ci_format img \<noteq> ImageI420) img \<Longrightarrow> vp9_copy_image img pts = Some (vp9_frame_of img pts)"
  by (auto simp: vp9_copy_image_def vp9_frame_of_def copy_image_pixels_frame)

lemma av1_copy_image_frame:
  "sound_image (ci_format img \<noteq> ImageI420) img \<Longrightarrow> av1_copy_image f img pts = Some (av1_frame_of f img pts)"
  by (auto simp: av1_copy_image_def av1_frame_of_def copy_image_pixels_frame Let_def)

lemma frame_of_marked [simp]:
  "vp9_frame_of (img\<lparr>ci_user_priv := n\<rparr>) pts = vp9_frame_of img pts"
  "av1_frame_of f (img\<lparr>ci_user_priv := n\<rparr>) pts = av1_frame_of f img pts"
  "sound_image wide (img\<lparr>ci_user_priv := n\<rparr>) = sound_image wide img"
  by (simp_all add: vp9_frame_of_def av1_frame_of_def odd_or_empty_def image_frame_def sound_image_def
      av1_format_error_def)

lemma decodes_like_init:
  "decodes_like ops history available pictures \<Longrightarrow> co_init ops threads = Inr c \<Longrightarrow>
     history c = [] \<and> available c None = []"
  by (simp add: decodes_like_def)

lemma decodes_like_decode:
  "decodes_like ops history available pictures \<Longrightarrow> co_decode ops c (Some (data, node)) = (accepted, c') \<Longrightarrow>
     (case pictures (history c) data of
        None \<Rightarrow> \<not> accepted
      | Some imgs \<Rightarrow> accepted \<and> history c' = history c @ [data] \<and>
          available c' None = map (\<lambda>img. img\<lparr>ci_user_priv := Some node\<rparr>) imgs)"
  unfolding decodes_like_def
  by (drule conjunct2, drule conjunct1, drule spec [of _ c], drule spec [of _ data], drule spec [of _ node]) simp

lemma decodes_like_get:
  "decodes_like ops history available pictures \<Longrightarrow> co_get_frame ops c i = (found, i', c') \<Longrightarrow>
     history c' = history c \<and> (case available c i of
        [] \<Rightarrow> found = None \<and> available c' i' = []
      | img # imgs \<Rightarrow> found = Some img \<and> available c' i' = imgs)"
  unfolding decodes_like_def
  by (drule conjunct2, drule conjunct2, drule spec [of _ c], drule spec [of _ i]) simp

text \<open>A reader whose calls follow a list of results up to its end.\<close>

lemma repeat_reads_follow:
  assumes "good d rs"
    and step: "\<And>d r rs. good d (r # rs) \<Longrightarrow> \<exists>d'. rd d = Some (r, d') \<and> good d' rs"
  shows "\<exists>d'. good d' [] \<and> (\<forall>n. repeat_reads rd (length rs + n) d = map_option ((@) rs) (repeat_reads rd n d'))"
  using assms(1)
proof (induction rs arbitrary: d)
  case Nil
  then show ?case by (intro exI [of _ d]) (simp add: option.map_ident)
next
  case (Cons r rs)
  from step [OF Cons.prems] obtain d1 where d1: "rd d = Some (r, d1)" "good d1 rs" by auto
  from Cons.IH [OF d1(2)] obtain d' where d': "good d' []"
      "\<And>n. repeat_reads rd (length rs + n) d1 = map_option ((@) rs) (repeat_reads rd n d')" by auto
  show ?case
    by (intro exI [of _ d']) (use d1 d' in \<open>simp add: option.map_comp comp_def\<close>)
qed

lemma repeat_reads_final:
  assumes "good d" and "\<And>d. good d \<Longrightarrow> \<exists>d'. rd d = Some (final, d') \<and> good d'"
  shows "repeat_reads rd n d = Some (replicate n final)"
  using assms(1)
proof (induction n arbitrary: d)
  case 0
  then show ?case by simp
next
  case (Suc n)
  from assms(2) [OF Suc.prems] obtain d' where "rd d = Some (final, d')" "good d'" by auto
  with Suc.IH [of d'] show ?case by simp
qed

section \<open>The VP9 decoder follows its stream\<close>

definition vp9_follows ::
    "('c \<Rightarrow> bytes list) \<Rightarrow> ('c \<Rightarrow> nat option \<Rightarrow> codec_image list) \<Rightarrow>
     (bytes list \<Rightarrow> bytes \<Rightarrow> codec_image list option) \<Rightarrow> bool \<Rightarrow> 'c vp9_decoder \<Rightarrow>
     (status + decoded_frame) list \<Rightarrow> bool" where
  "vp9_follows history available pictures complete d rs \<longleftrightarrow> \<not> vd_closed d \<and>
     (\<exists>c r. vd_codec d = Some c \<and> vd_packet_reader d = Some r \<and> sound_reader r \<and>
        (\<forall>q \<in> set (vd_submitted_packets d). fst q < vd_next_node d) \<and>
        (vd_demux_eos d \<longrightarrow> ahead r = []) \<and>
        (\<exists>frames. stream_frames pictures vp9_frame_of (history c) (ahead r) = (frames, complete) \<and>
           (case available c None of
              [] \<Rightarrow> rs = frames
            | [img] \<Rightarrow> sound_image (ci_format img \<noteq> ImageI420) img \<and>
                (\<exists>n p. ci_user_priv img = Some n \<and> map_of (vd_submitted_packets d) n = Some p \<and>
                   rs = vp9_frame_of img (ep_pts_ns p) # frames)
            | _ \<Rightarrow> False)))"

lemma map_of_fresh: "\<forall>q \<in> set ps. fst q < (m :: nat) \<Longrightarrow> map_of ps m = None"
  by (induction ps) auto

lemma set_erase_packet: "set (erase_packet n ps) \<subseteq> set ps"
  by (induction ps) auto

lemma vp9_picture_read:
  assumes contract: "decodes_like ops history available pictures" "single_picture_codec ops available pictures"
    and follows: "vp9_follows history available pictures complete d rs"
    and held: "vd_codec d = Some c" "available c None \<noteq> []"
  shows "\<exists>r rs' d'. rs = r # rs' \<and> vp9_read_frame ops d = Some (r, d') \<and>
    vp9_follows history available pictures complete d' rs'"
proof -
  obtain found i c' where get: "co_get_frame ops c (vd_iterator d) = (found, i, c')"
    by (cases "co_get_frame ops c (vd_iterator d)")
  have any: "available x j = available x None" for x j
    using contract(2) by (simp add: single_picture_codec_def)
  obtain img where img: "available c None = [img]"
    using follows held by (cases "available c None" rule: remdups_adj.cases) (auto simp: vp9_follows_def)
  then obtain r n p frames where d: "vd_packet_reader d = Some r" "sound_reader r" "\<not> vd_closed d"
      "\<forall>q \<in> set (vd_submitted_packets d). fst q < vd_next_node d" "vd_demux_eos d \<longrightarrow> ahead r = []"
      "stream_frames pictures vp9_frame_of (history c) (ahead r) = (frames, complete)"
      "sound_image (ci_format img \<noteq> ImageI420) img" "ci_user_priv img = Some n"
      "map_of (vd_submitted_packets d) n = Some p" "rs = vp9_frame_of img (ep_pts_ns p) # frames"
    using follows held by (auto simp: vp9_follows_def)
  have c': "history c' = history c" "found = Some img" "available c' None = []"
    using decodes_like_get [OF contract(1) get] img any [of c "vd_iterator d"] any [of c' i] by auto
  define d' where "d' = d\<lparr>vd_codec := Some c', vd_iterator := i,
    vd_submitted_packets := erase_packet n (vd_submitted_packets d)\<rparr>"
  have "vp9_read_frame ops d = Some (vp9_frame_of img (ep_pts_ns p), d')"
    by (subst vp9_read_frame.simps)
      (use held d c' get in \<open>simp add: Let_def d'_def vp9_copy_image_frame\<close>)
  moreover have "vp9_follows history available pictures complete d' frames"
    unfolding vp9_follows_def d'_def
    using d c' set_erase_packet [of n "vd_submitted_packets d"] by auto
  ultimately show ?thesis using d by blast
qed


lemma vp9_get_none:
  assumes "decodes_like ops history available pictures" "single_picture_codec ops available pictures"
    and "available c None = []"
  obtains i c' where "co_get_frame ops c (vd_iterator d) = (None, i, c')" "history c' = history c" "available c' None = []"
proof -
  obtain found i c' where get: "co_get_frame ops c (vd_iterator d) = (found, i, c')"
    by (cases "co_get_frame ops c (vd_iterator d)")
  have "available x j = available x None" for x j
    using assms(2) by (simp add: single_picture_codec_def)
  then have "available c (vd_iterator d) = []" "available c' i = available c' None" using assms(3) by metis+
  then have "history c' = history c" "found = None" "available c' None = []"
    using decodes_like_get [OF assms(1) get] by simp_all
  with get that show thesis by blast
qed

lemma vp9_read_end:
  assumes contract: "decodes_like ops history available pictures" "single_picture_codec ops available pictures"
    and d: "vd_codec d = Some c" "available c None = []" "vd_packet_reader d = Some r" "vd_demux_eos d"
  shows "\<exists>c' i. vp9_read_frame ops d = Some (Inl (MKVC_END_OF_STREAM, []),
      d\<lparr>vd_codec := Some c', vd_iterator := i, vd_drained := True\<rparr>) \<and> available c' None = []"
proof -
  have drained: "\<exists>c' i. vp9_read_frame ops e = Some (Inl (MKVC_END_OF_STREAM, []), e\<lparr>vd_codec := Some c', vd_iterator := i\<rparr>) \<and>
      available c' None = []"
    if e: "vd_codec e = Some c" "available c None = []" "vd_packet_reader e = Some r" "vd_demux_eos e" "vd_drained e" for e c
  proof -
    obtain i c' where "co_get_frame ops c (vd_iterator e) = (None, i, c')" "available c' None = []"
      using vp9_get_none [OF contract e(2), of e] by metis
    then show ?thesis using e
      by (intro exI [of _ c'] exI [of _ i]) (subst vp9_read_frame.simps, simp add: Let_def)
  qed
  obtain i c' where get: "co_get_frame ops c (vd_iterator d) = (None, i, c')" "available c' None = []"
    using vp9_get_none [OF contract d(2), of d] by metis
  show ?thesis
  proof (cases "vd_drained d")
    case True
    then have "d\<lparr>vd_codec := x, vd_iterator := y, vd_drained := True\<rparr> = d\<lparr>vd_codec := x, vd_iterator := y\<rparr>" for x y
      by (cases d) simp
    then show ?thesis using drained [OF d True] by simp
  next
    case False
    obtain accepted c'' where flush: "co_decode ops c' None = (accepted, c'')"
      by (cases "co_decode ops c' None")
    have fl: "accepted" "available c'' None = []"
      using contract(2) get(2) flush unfolding single_picture_codec_def by (metis fst_conv snd_conv)+
    let ?e = "d\<lparr>vd_iterator := i, vd_codec := Some c'', vd_drained := True\<rparr>"
    have "vp9_read_frame ops d = vp9_read_frame ops ?e"
      by (subst vp9_read_frame.simps) (use d False get flush fl in \<open>simp add: Let_def\<close>)
    moreover from drained [of ?e c''] obtain c3 i3 where
      "vp9_read_frame ops ?e = Some (Inl (MKVC_END_OF_STREAM, []), ?e\<lparr>vd_codec := Some c3, vd_iterator := i3\<rparr>)"
      "available c3 None = []" using fl d by auto
    ultimately show ?thesis by (intro exI [of _ c3] exI [of _ i3]) (cases d, simp)
  qed
qed

text \<open>What a call returns when \<open>rs\<close> are the results to come.\<close>

definition vp9_answers ::
    "'c codec_ops \<Rightarrow> ('c \<Rightarrow> bytes list) \<Rightarrow> ('c \<Rightarrow> nat option \<Rightarrow> codec_image list) \<Rightarrow>
     (bytes list \<Rightarrow> bytes \<Rightarrow> codec_image list option) \<Rightarrow> bool \<Rightarrow> 'c vp9_decoder \<Rightarrow>
     (status + decoded_frame) list \<Rightarrow> bool" where
  "vp9_answers ops history available pictures complete d rs \<longleftrightarrow>
     (case rs of
        r # rs' \<Rightarrow> \<exists>d'. vp9_read_frame ops d = Some (r, d') \<and> vp9_follows history available pictures complete d' rs'
      | [] \<Rightarrow>
          if complete
          then \<exists>d'. vp9_read_frame ops d = Some (Inl (MKVC_END_OF_STREAM, []), d') \<and>
                 vp9_follows history available pictures complete d' []
          else \<exists>e d'. vp9_read_frame ops d = Some (Inl (MKVC_ERROR_CODEC, e), d'))"

lemma vp9_answers_cong:
  "vp9_read_frame ops d = vp9_read_frame ops d' \<Longrightarrow> vp9_answers ops history available pictures complete d' rs \<Longrightarrow>
   vp9_answers ops history available pictures complete d rs"
  by (cases rs; cases complete) (simp_all add: vp9_answers_def)

lemma vp9_step:
  assumes contract: "decodes_like ops history available pictures" "single_picture_codec ops available pictures"
      "sound_pictures pictures"
    and "vp9_follows history available pictures complete d rs"
  shows "vp9_answers ops history available pictures complete d rs"
  using assms(4)
proof (induction "reader_left (the (vd_packet_reader d))" arbitrary: d rule: less_induct)
  case less
  from less.prems obtain c r where d: "vd_codec d = Some c" "vd_packet_reader d = Some r" "sound_reader r" "\<not> vd_closed d"
      "\<forall>q \<in> set (vd_submitted_packets d). fst q < vd_next_node d" "vd_demux_eos d \<longrightarrow> ahead r = []"
    by (auto simp: vp9_follows_def)
  show ?case
  proof (cases "available c None = []")
    case False
    from vp9_picture_read [OF contract(1,2) less.prems d(1) False] show ?thesis
      by (auto simp: vp9_answers_def)
  next
    case idle: True
    then have frames: "stream_frames pictures vp9_frame_of (history c) (ahead r) = (rs, complete)"
      using less.prems d by (auto simp: vp9_follows_def)
    obtain i c' where get: "co_get_frame ops c (vd_iterator d) = (None, i, c')" "history c' = history c" "available c' None = []"
      using vp9_get_none [OF contract(1,2) idle, of d] .
    obtain res r' where read: "read_packet r = (res, r')" by (cases "read_packet r")
    note sound = read_packet_sound [OF d(3), unfolded read prod.case]
    show ?thesis
    proof (cases "ahead r")
      case Nil
      then have rs: "rs = []" complete using frames by simp_all
      have r': "res = Inl (MKVC_END_OF_STREAM, [])" "ahead r' = []" "sound_reader r'" using sound Nil by simp_all
      let ?e = "if vd_demux_eos d then d
        else d\<lparr>vd_codec := Some c', vd_iterator := i, vd_packet_reader := Some r', vd_demux_eos := True\<rparr>"
      have same: "vp9_read_frame ops d = vp9_read_frame ops ?e"
        by (cases "vd_demux_eos d"; simp)
          (subst vp9_read_frame.simps, use d get read r' in \<open>simp add: Let_def\<close>)
      define ce re where "ce = (if vd_demux_eos d then c else c')" and "re = (if vd_demux_eos d then r else r')"
      have e: "vd_codec ?e = Some ce" "available ce None = []" "vd_packet_reader ?e = Some re" "vd_demux_eos ?e"
        using d idle get by (simp_all add: ce_def re_def)
      obtain c2 j where last_read: "vp9_read_frame ops ?e = Some (Inl (MKVC_END_OF_STREAM, []),
          ?e\<lparr>vd_codec := Some c2, vd_iterator := j, vd_drained := True\<rparr>)" "available c2 None = []"
        using vp9_read_end [OF contract(1,2) e] by blast
      have "vp9_follows history available pictures complete
          (?e\<lparr>vd_codec := Some c2, vd_iterator := j, vd_drained := True\<rparr>) []"
        using d r' Nil rs last_read(2) by (simp add: vp9_follows_def)
      then show ?thesis using rs last_read same by (simp add: vp9_answers_def)
    next
      case (Cons p ps)
      have r': "res = Inr p" "ahead r' = ps" "sound_reader r'" using sound Cons by simp_all
      have not_eos: "\<not> vd_demux_eos d" using d Cons by auto
      obtain accepted c2 where decode: "co_decode ops c' (Some (ep_data p, vd_next_node d)) = (accepted, c2)"
        by (cases "co_decode ops c' (Some (ep_data p, vd_next_node d))")
      note dec = decodes_like_decode [OF contract(1) decode, unfolded get(2)]
      let ?e = "d\<lparr>vd_iterator := i, vd_packet_reader := Some r', vd_next_node := Suc (vd_next_node d),
        vd_submitted_packets := vd_submitted_packets d @ [(vd_next_node d, p)], vd_codec := Some c2\<rparr>"
      show ?thesis
      proof (cases "pictures (history c) (ep_data p)")
        case None
        then have "rs = []" "\<not> complete" "\<not> accepted" using frames Cons dec by simp_all
        moreover have "vp9_read_frame ops d = Some (Inl (MKVC_ERROR_CODEC, codec_message ops c2), ?e)"
          by (subst vp9_read_frame.simps)
            (use d get read r' not_eos decode \<open>\<not> accepted\<close> in \<open>simp add: Let_def\<close>)
        ultimately show ?thesis by (simp add: vp9_answers_def)
      next
        case (Some imgs)
        with dec have c2: "accepted" "history c2 = history c @ [ep_data p]"
            "available c2 None = map (\<lambda>img. img\<lparr>ci_user_priv := Some (vd_next_node d)\<rparr>) imgs" by simp_all
        obtain frames where fs: "stream_frames pictures vp9_frame_of (history c @ [ep_data p]) ps = (frames, complete)"
            "rs = map (\<lambda>img. vp9_frame_of img (ep_pts_ns p)) imgs @ frames"
          using frames Cons Some by (auto split: prod.splits)
        have same: "vp9_read_frame ops d = vp9_read_frame ops ?e"
          by (subst vp9_read_frame.simps) (use d get read r' not_eos decode c2 in \<open>simp add: Let_def\<close>)
        have node: "map_of (vd_submitted_packets d @ [(vd_next_node d, p)]) (vd_next_node d) = Some p"
          using map_of_fresh [OF d(5)] by (simp add: map_add_def)
        have "length imgs \<le> 1" "\<forall>img \<in> set imgs. sound_image (ci_format img \<noteq> ImageI420) img"
          using contract(2,3) Some unfolding single_picture_codec_def sound_pictures_def by blast+
        then have "vp9_follows history available pictures complete ?e rs"
          using d(4,5) not_eos r' fs c2 node by (cases imgs) (auto simp: vp9_follows_def)
        moreover have "reader_left r' < reader_left r" using read r' by (simp add: read_packet_left)
        ultimately have "vp9_answers ops history available pictures complete ?e rs"
          using d by (intro less.hyps) simp_all
        with same show ?thesis by (rule vp9_answers_cong)
      qed
    qed
  qed
qed


section \<open>The AV1 decoder follows its stream\<close>

text \<open>While a packet's pictures are handed out it is the only one held; between packets none is.\<close>

definition av1_follows ::
    "(image_format \<Rightarrow> int) \<Rightarrow> ('c \<Rightarrow> bytes list) \<Rightarrow> ('c \<Rightarrow> nat option \<Rightarrow> codec_image list) \<Rightarrow>
     (bytes list \<Rightarrow> bytes \<Rightarrow> codec_image list option) \<Rightarrow> bool \<Rightarrow> 'c av1_decoder \<Rightarrow>
     (status + decoded_frame) list \<Rightarrow> bool" where
  "av1_follows format_code history available pictures complete d rs \<longleftrightarrow> \<not> ad_closed d \<and>
     (\<exists>c r. ad_codec d = Some c \<and> ad_packet_reader d = Some r \<and> sound_reader r \<and>
        (ad_demux_eos d \<longrightarrow> ahead r = []) \<and>
        (\<exists>frames. stream_frames pictures (av1_frame_of format_code) (history c) (ahead r) = (frames, complete) \<and>
           (if ad_output_pending d
            then \<exists>n p. ad_active_pts d = Some n \<and> ad_submitted_packets d = [(n, p)] \<and>
                   (\<forall>img \<in> set (available c (ad_iterator d)).
                      sound_image (ci_format img \<noteq> ImageI420) img \<and> ci_user_priv img = Some n) \<and>
                   rs = map (\<lambda>img. av1_frame_of format_code img (ep_pts_ns p)) (available c (ad_iterator d)) @ frames
            else ad_submitted_packets d = [] \<and> rs = frames)))"

definition av1_answers ::
    "'c codec_ops \<Rightarrow> (image_format \<Rightarrow> int) \<Rightarrow> ('c \<Rightarrow> bytes list) \<Rightarrow> ('c \<Rightarrow> nat option \<Rightarrow> codec_image list) \<Rightarrow>
     (bytes list \<Rightarrow> bytes \<Rightarrow> codec_image list option) \<Rightarrow> bool \<Rightarrow> 'c av1_decoder \<Rightarrow>
     (status + decoded_frame) list \<Rightarrow> bool" where
  "av1_answers ops format_code history available pictures complete d rs \<longleftrightarrow>
     (case rs of
        r # rs' \<Rightarrow> \<exists>d'. av1_read_frame ops format_code d = Some (r, d') \<and>
                     av1_follows format_code history available pictures complete d' rs'
      | [] \<Rightarrow>
          if complete
          then \<exists>d'. av1_read_frame ops format_code d = Some (Inl (MKVC_END_OF_STREAM, []), d') \<and>
                 av1_follows format_code history available pictures complete d' []
          else \<exists>e d'. av1_read_frame ops format_code d = Some (Inl (MKVC_ERROR_CODEC, e), d'))"

lemma av1_answers_cong:
  "av1_read_frame ops f d = av1_read_frame ops f d' \<Longrightarrow> av1_answers ops f history available pictures complete d' rs \<Longrightarrow>
   av1_answers ops f history available pictures complete d rs"
  by (cases rs; cases complete) (simp_all add: av1_answers_def)

lemma av1_read_end:
  assumes "ad_codec d = Some c" "ad_packet_reader d = Some r" "\<not> ad_output_pending d" "ad_demux_eos d"
  shows "av1_read_frame ops f d = Some (Inl (MKVC_END_OF_STREAM, []), d)"
  by (subst av1_read_frame.simps) (use assms in \<open>simp add: av1_poll_def\<close>)

text \<open>Asking for output hands out the next picture or leaves nothing held.\<close>

lemma av1_poll_cases:
  assumes contract: "decodes_like ops history available pictures"
    and follows: "av1_follows f history available pictures complete d rs" and c: "ad_codec d = Some c"
  obtains (picture) img d' p n rs' where "av1_poll ops c d = (Some img, d')" "ci_user_priv img = Some n"
      "map_of (ad_submitted_packets d') n = Some p" "sound_image (ci_format img \<noteq> ImageI420) img"
      "rs = av1_frame_of f img (ep_pts_ns p) # rs'"
      "av1_follows f history available pictures complete d' rs'"
    | (idle) e c' where "av1_poll ops c d = (None, e)" "ad_codec e = Some c'" "history c' = history c"
      "\<not> ad_output_pending e" "ad_submitted_packets e = []"
      "av1_follows f history available pictures complete e rs"
proof (cases "ad_output_pending d")
  case False
  then show thesis using follows c by (intro idle [of d c]) (auto simp: av1_poll_def av1_follows_def)
next
  case True
  obtain r frames n p where d: "ad_packet_reader d = Some r" "sound_reader r" "\<not> ad_closed d"
      "ad_demux_eos d \<longrightarrow> ahead r = []"
      "stream_frames pictures (av1_frame_of f) (history c) (ahead r) = (frames, complete)"
      "ad_active_pts d = Some n" "ad_submitted_packets d = [(n, p)]"
      "\<forall>img \<in> set (available c (ad_iterator d)). sound_image (ci_format img \<noteq> ImageI420) img \<and> ci_user_priv img = Some n"
      "rs = map (\<lambda>img. av1_frame_of f img (ep_pts_ns p)) (available c (ad_iterator d)) @ frames"
    using follows c True by (auto simp: av1_follows_def)
  obtain found i c' where get: "co_get_frame ops c (ad_iterator d) = (found, i, c')"
    by (cases "co_get_frame ops c (ad_iterator d)")
  note law = decodes_like_get [OF contract get]
  show thesis
  proof (cases "available c (ad_iterator d)")
    case Nil
    let ?e = "av1_output_done (d\<lparr>ad_codec := Some c', ad_iterator := i\<rparr>)"
    have none: "av1_poll ops c d = (None, ?e)" using True get law Nil by (simp add: av1_poll_def)
    have "ad_submitted_packets ?e = []" using d by (simp add: av1_output_done_def Let_def)
    moreover from this have "av1_follows f history available pictures complete ?e rs"
      using d law Nil by (simp add: av1_follows_def)
    ultimately show thesis using law by (intro idle [of ?e c', OF none]) simp_all
  next
    case (Cons img imgs)
    let ?d = "d\<lparr>ad_codec := Some c', ad_iterator := i\<rparr>"
    have some: "av1_poll ops c d = (Some img, ?d)" using True get law Cons by (simp add: av1_poll_def)
    have "av1_follows f history available pictures complete ?d
        (map (\<lambda>img. av1_frame_of f img (ep_pts_ns p)) imgs @ frames)"
      using d law Cons True by (simp add: av1_follows_def)
    then show thesis using d Cons by (intro picture [OF some]) simp_all
  qed
qed

lemma av1_step:
  assumes contract: "decodes_like ops history available pictures" "sound_pictures pictures"
    and "av1_follows f history available pictures complete d rs"
  shows "av1_answers ops f history available pictures complete d rs"
  using assms(3)
proof (induction "reader_left (the (ad_packet_reader d))" arbitrary: d rule: less_induct)
  case less
  from less.prems obtain c r where d: "ad_codec d = Some c" "ad_packet_reader d = Some r" "sound_reader r" "\<not> ad_closed d"
      "ad_demux_eos d \<longrightarrow> ahead r = []"
    by (auto simp: av1_follows_def)
  from contract(1) less.prems d(1) show ?case
  proof (cases rule: av1_poll_cases)
    case (picture img d' p n rs')
    have "av1_read_frame ops f d = Some (av1_frame_of f img (ep_pts_ns p), d')"
      by (subst av1_read_frame.simps) (use d picture in \<open>simp add: av1_copy_image_frame\<close>)
    then show ?thesis using picture by (simp add: av1_answers_def)
  next
    case (idle e c')
    note same = av1_poll_keeps [OF idle(1)]
    have frames: "stream_frames pictures (av1_frame_of f) (history c) (ahead r) = (rs, complete)"
      using idle d same by (auto simp: av1_follows_def)
    obtain res r' where read: "read_packet r = (res, r')" by (cases "read_packet r")
    note sound = read_packet_sound [OF d(3), unfolded read prod.case]
    show ?thesis
    proof (cases "ahead r")
      case Nil
      then have rs: "rs = []" complete using frames by simp_all
      have r': "res = Inl (MKVC_END_OF_STREAM, [])" "ahead r' = []" "sound_reader r'" using sound Nil by simp_all
      let ?e = "if ad_demux_eos d then e else e\<lparr>ad_packet_reader := Some r', ad_demux_eos := True\<rparr>"
      have "av1_read_frame ops f d = Some (Inl (MKVC_END_OF_STREAM, []), ?e)"
        by (subst av1_read_frame.simps)
          (use d idle read r' in \<open>simp add: av1_read_end [where c = c' and r = r']\<close>)
      moreover have "av1_follows f history available pictures complete ?e []"
        using idle rs r' same d Nil by (simp add: av1_follows_def)
      ultimately show ?thesis using rs by (simp add: av1_answers_def)
    next
      case (Cons p ps)
      have r': "res = Inr p" "ahead r' = ps" "sound_reader r'" using sound Cons by simp_all
      have not_eos: "\<not> ad_demux_eos d" using d Cons by auto
      obtain accepted c2 where decode: "co_decode ops c' (Some (ep_data p, ad_next_node e)) = (accepted, c2)"
        by (cases "co_decode ops c' (Some (ep_data p, ad_next_node e))")
      note dec = decodes_like_decode [OF contract(1) decode, unfolded idle(3)]
      show ?thesis
      proof (cases "pictures (history c) (ep_data p)")
        case None
        then have "rs = []" "\<not> complete" "\<not> accepted" using frames Cons dec by simp_all
        moreover have "\<exists>m d'. av1_read_frame ops f d = Some (Inl (MKVC_ERROR_CODEC, m), d')"
          by (subst av1_read_frame.simps)
            (use d idle read r' not_eos decode \<open>\<not> accepted\<close> in \<open>simp add: Let_def\<close>)
        ultimately show ?thesis by (simp add: av1_answers_def)
      next
        case (Some imgs)
        with dec have c2: "accepted" "history c2 = history c @ [ep_data p]"
            "available c2 None = map (\<lambda>img. img\<lparr>ci_user_priv := Some (ad_next_node e)\<rparr>) imgs" by simp_all
        obtain frames where fs: "stream_frames pictures (av1_frame_of f) (history c @ [ep_data p]) ps = (frames, complete)"
            "rs = map (\<lambda>img. av1_frame_of f img (ep_pts_ns p)) imgs @ frames"
          using frames Cons Some by (auto split: prod.splits)
        let ?e = "e\<lparr>ad_packet_reader := Some r', ad_next_node := Suc (ad_next_node e),
          ad_submitted_packets := ad_submitted_packets e @ [(ad_next_node e, p)], ad_codec := Some c2,
          ad_output_pending := True, ad_iterator := None, ad_active_pts := Some (ad_next_node e)\<rparr>"
        have next_read: "av1_read_frame ops f d = av1_read_frame ops f ?e"
          by (subst av1_read_frame.simps) (use d idle read r' not_eos decode c2 in \<open>simp add: Let_def\<close>)
        have "\<forall>img \<in> set imgs. sound_image (ci_format img \<noteq> ImageI420) img"
          using contract(2) Some unfolding sound_pictures_def by blast
        then have "av1_follows f history available pictures complete ?e rs"
          using d(4) same not_eos r' fs c2 idle by (auto simp: av1_follows_def)
        moreover have "reader_left r' < reader_left r" using read r' by (simp add: read_packet_left)
        ultimately have "av1_answers ops f history available pictures complete ?e rs"
          using d by (intro less.hyps) simp_all
        with next_read show ?thesis by (rule av1_answers_cong)
      qed
    qed
  qed
qed


section \<open>From a file to its frames\<close>

lemma vp9_create_cases:
  assumes "vp9_create ops hardware_threads open_reader_of config = Inr d"
  obtains r c where "open_reader_of (dc_input_path config) MKVC_CODEC_VP9 = Inr r"
    and "co_init ops (resolve_thread_count (dc_threads config) hardware_threads) = Inr c"
    and "d = new_vp9_decoder\<lparr>vd_packet_reader := Some r, vd_codec := Some c\<rparr>"
  using assms unfolding vp9_create_def vp9_initialize_def by (auto simp: Let_def split: sum.splits)

lemma av1_create_cases:
  assumes "av1_create ops open_reader_of config = Inr d"
  obtains r c where "open_reader_of (dc_input_path config) MKVC_CODEC_AV1 = Inr r"
    and "co_init ops (dc_threads config) = Inr c"
    and "d = new_av1_decoder\<lparr>ad_packet_reader := Some r, ad_codec := Some c\<rparr>"
  using assms unfolding av1_create_def av1_initialize_def by (auto simp: Let_def split: sum.splits)

lemma vp9_follows_open:
  "vp9_follows history available pictures complete d rs \<Longrightarrow> vp9_read ops d = vp9_read_frame ops d"
  by (simp add: vp9_read_def vp9_follows_def)

lemma av1_follows_open:
  "av1_follows f history available pictures complete d rs \<Longrightarrow> av1_read ops f d = av1_read_frame ops f d"
  by (simp add: av1_read_def av1_follows_def)

text \<open>C34. The VP9 decoder delivers the stream: opened on a file whose VP9 track has no defect, its
  successive reads return, for every picture the codec makes of the track's packets in file order,
  a frame with the picture's exact samples and the timestamp of the packet it came from (or the
  report that its format is not supported), and then the end of the stream however often it is
  asked; if the codec refuses a packet, everything before it is delivered and a codec error follows.\<close>

theorem vp9_decoder_stream:
  assumes "decodes_like ops history available pictures" "single_picture_codec ops available pictures"
    and "sound_pictures pictures"
    and "vp9_create ops hardware_threads (open_reader opens disk parse) config = Inr d"
    and "vd_packet_reader d = Some r" "list_all (sound_cluster (rd_track r)) (rd_clusters r)"
    and "stream_frames pictures vp9_frame_of [] (track_packets (rd_track r) (rd_clusters r)) = (frames, complete)"
  shows "if complete
    then repeat_reads (vp9_read ops) (length frames + n) d = Some (frames @ replicate n (Inl (MKVC_END_OF_STREAM, [])))
    else \<exists>e. repeat_reads (vp9_read ops) (length frames + 1) d = Some (frames @ [Inl (MKVC_ERROR_CODEC, e)])"
proof -
  let ?good = "vp9_follows history available pictures complete"
  obtain r' c where c: "open_reader opens disk parse (dc_input_path config) MKVC_CODEC_VP9 = Inr r'"
      "co_init ops (resolve_thread_count (dc_threads config) hardware_threads) = Inr c"
      "d = new_vp9_decoder\<lparr>vd_packet_reader := Some r', vd_codec := Some c\<rparr>"
    using vp9_create_cases [OF assms(4)] .
  have r: "r' = r" using assms(5) by (simp add: c(3))
  have start: "?good d frames"
    using fresh_reader [OF c(1)] decodes_like_init [OF assms(1) c(2)] assms(6,7)
    by (simp add: vp9_follows_def c(3) new_vp9_decoder_def r)
  have answers: "?good e rs \<Longrightarrow> vp9_answers ops history available pictures complete e rs" for e rs
    by (rule vp9_step [OF assms(1-3)])
  from repeat_reads_follow [where good = ?good and rd = "vp9_read ops", OF start]
  obtain d' where d': "?good d' []"
      "\<And>n. repeat_reads (vp9_read ops) (length frames + n) d = map_option ((@) frames) (repeat_reads (vp9_read ops) n d')"
    using answers by (fastforce simp: vp9_answers_def vp9_follows_open)
  show ?thesis
  proof (cases complete)
    case True
    have "repeat_reads (vp9_read ops) n d' = Some (replicate n (Inl (MKVC_END_OF_STREAM, [])))"
      using answers True
      by (intro repeat_reads_final [where good = "\<lambda>d. ?good d []", OF d'(1)])
        (fastforce simp: vp9_answers_def vp9_follows_open)
    then show ?thesis using True d'(2) by simp
  next
    case False
    then show ?thesis using answers [OF d'(1)] d'(2) [of 1] vp9_follows_open [OF d'(1)]
      by (auto simp: vp9_answers_def)
  qed
qed

text \<open>C35. The AV1 decoder delivers the stream: the same for AV1, where a packet may hold any number of
  pictures, all of which get the packet's timestamp and are delivered before the next packet is
  read, and where eight-bit pictures in 16-bit samples are narrowed.\<close>

theorem av1_decoder_stream:
  assumes "decodes_like ops history available pictures" and "sound_pictures pictures"
    and "av1_create ops (open_reader opens disk parse) config = Inr d"
    and "ad_packet_reader d = Some r" "list_all (sound_cluster (rd_track r)) (rd_clusters r)"
    and "stream_frames pictures (av1_frame_of format_code) [] (track_packets (rd_track r) (rd_clusters r)) = (frames, complete)"
  shows "if complete
    then repeat_reads (av1_read ops format_code) (length frames + n) d = Some (frames @ replicate n (Inl (MKVC_END_OF_STREAM, [])))
    else \<exists>e. repeat_reads (av1_read ops format_code) (length frames + 1) d = Some (frames @ [Inl (MKVC_ERROR_CODEC, e)])"
proof -
  let ?good = "av1_follows format_code history available pictures complete" and ?rd = "av1_read ops format_code"
  obtain r' c where c': "open_reader opens disk parse (dc_input_path config) MKVC_CODEC_AV1 = Inr r'"
      "co_init ops (dc_threads config) = Inr c"
      "d = new_av1_decoder\<lparr>ad_packet_reader := Some r', ad_codec := Some c\<rparr>"
    using av1_create_cases [OF assms(3)] .
  have r: "r' = r" using assms(4) by (simp add: c'(3))
  have start: "?good d frames"
    using fresh_reader [OF c'(1)] decodes_like_init [OF assms(1) c'(2)] assms(5,6)
    by (simp add: av1_follows_def c'(3) new_av1_decoder_def r)
  have answers: "?good e rs \<Longrightarrow> av1_answers ops format_code history available pictures complete e rs" for e rs
    by (rule av1_step [OF assms(1,2)])
  from repeat_reads_follow [where good = ?good and rd = ?rd, OF start]
  obtain d' where d': "?good d' []"
      "\<And>n. repeat_reads ?rd (length frames + n) d = map_option ((@) frames) (repeat_reads ?rd n d')"
    using answers by (fastforce simp: av1_answers_def av1_follows_open)
  show ?thesis
  proof (cases complete)
    case True
    have "repeat_reads ?rd n d' = Some (replicate n (Inl (MKVC_END_OF_STREAM, [])))"
      using answers True
      by (intro repeat_reads_final [where good = "\<lambda>d. ?good d []", OF d'(1)])
        (fastforce simp: av1_answers_def av1_follows_open)
    then show ?thesis using True d'(2) by simp
  next
    case False
    then show ?thesis using answers [OF d'(1)] d'(2) [of 1] av1_follows_open [OF d'(1)]
      by (auto simp: av1_answers_def)
  qed
qed


section \<open>Witnesses\<close>

text \<open>A codec that shows a picture for a packet of one byte, refuses empty packets, and makes of a
  packet of two bytes no picture or two. The first forgets a picture once it is handed out, the
  second counts with the iterator.\<close>

definition tiny_image :: "u8 \<Rightarrow> codec_image" where
  "tiny_image x = \<lparr>ci_format = ImageI420, ci_bit_depth = 8, ci_d_w = 2, ci_d_h = 2,
     ci_planes = (\<lambda>k. if k = 0 then [x, x + 1, 99, x + 2, x + 3] else [x]),
     ci_strides = (\<lambda>k. if k = 0 then 3 else 1), ci_user_priv = None\<rparr>"

definition tiny_pictures :: "bool \<Rightarrow> bytes list \<Rightarrow> bytes \<Rightarrow> codec_image list option" where
  "tiny_pictures both past data =
     (case data of [] \<Rightarrow> None | [x] \<Rightarrow> Some [tiny_image x]
      | x # y # _ \<Rightarrow> Some (if both then [tiny_image x, tiny_image y] else []))"

definition tiny_decode :: "bool \<Rightarrow> bytes list \<times> codec_image list \<Rightarrow> (bytes \<times> nat) option \<Rightarrow> bool \<times> bytes list \<times> codec_image list" where
  "tiny_decode both c packet = (case packet of
     None \<Rightarrow> (True, c)
   | Some (data, node) \<Rightarrow>
       (case tiny_pictures both (fst c) data of
          None \<Rightarrow> (False, c)
        | Some imgs \<Rightarrow> (True, fst c @ [data], map (\<lambda>img. img\<lparr>ci_user_priv := Some node\<rparr>) imgs)))"

definition tiny_vp9 :: "(bytes list \<times> codec_image list) codec_ops" where
  "tiny_vp9 = \<lparr>co_init = (\<lambda>_. Inr ([], [])), co_decode = tiny_decode False,
     co_get_frame = (\<lambda>c i. case snd c of [] \<Rightarrow> (None, i, c) | img # imgs \<Rightarrow> (Some img, i, (fst c, imgs))),
     co_error = (\<lambda>_. ''bad''), co_error_detail = (\<lambda>_. None)\<rparr>"

definition tiny_index :: "nat option \<Rightarrow> nat" where
  "tiny_index i = (case i of None \<Rightarrow> 0 | Some k \<Rightarrow> k)"

definition tiny_av1 :: "(bytes list \<times> codec_image list) codec_ops" where
  "tiny_av1 = \<lparr>co_init = (\<lambda>_. Inr ([], [])), co_decode = tiny_decode True,
     co_get_frame = (\<lambda>c i. if tiny_index i < length (snd c) then (Some (snd c ! tiny_index i), Some (Suc (tiny_index i)), c)
                          else (None, i, c)),
     co_error = (\<lambda>_. ''bad''), co_error_detail = (\<lambda>_. None)\<rparr>"

lemma tiny_vp9_contract:
  "decodes_like tiny_vp9 fst (\<lambda>c i. snd c) (tiny_pictures False)"
  "single_picture_codec tiny_vp9 (\<lambda>c i. snd c) (tiny_pictures False)"
  by (simp_all add: decodes_like_def single_picture_codec_def tiny_vp9_def tiny_decode_def tiny_pictures_def
      split: option.splits list.splits)

lemma tiny_av1_contract:
  "decodes_like tiny_av1 fst (\<lambda>c i. drop (tiny_index i) (snd c)) (tiny_pictures True)"
  unfolding decodes_like_def
proof (intro conjI allI impI)
  fix c :: "bytes list \<times> codec_image list" and data node i
  show "case co_decode tiny_av1 c (Some (data, node)) of (accepted, c') \<Rightarrow>
     (case tiny_pictures True (fst c) data of
        None \<Rightarrow> \<not> accepted
      | Some imgs \<Rightarrow> accepted \<and> fst c' = fst c @ [data] \<and>
          drop (tiny_index None) (snd c') = map (\<lambda>img. img\<lparr>ci_user_priv := Some node\<rparr>) imgs)"
    by (simp add: tiny_av1_def tiny_decode_def tiny_index_def split: option.splits)
  show "case co_get_frame tiny_av1 c i of (found, i', c') \<Rightarrow> fst c' = fst c \<and>
     (case drop (tiny_index i) (snd c) of
        [] \<Rightarrow> found = None \<and> drop (tiny_index i') (snd c') = []
      | img # imgs \<Rightarrow> found = Some img \<and> drop (tiny_index i') (snd c') = imgs)"
  proof (cases "tiny_index i < length (snd c)")
    case True
    then have "drop (tiny_index i) (snd c) = snd c ! tiny_index i # drop (Suc (tiny_index i)) (snd c)"
      by (simp add: Cons_nth_drop_Suc)
    then show ?thesis using True by (simp add: tiny_av1_def tiny_index_def)
  next
    case False
    then show ?thesis by (simp add: tiny_av1_def)
  qed
qed (auto simp: tiny_av1_def)

lemma tiny_image_sound: "sound_image (ci_format (tiny_image x) \<noteq> ImageI420) (tiny_image x)"
  by (simp add: sound_image_def sound_plane_def tiny_image_def)

lemma tiny_pictures_sound: "sound_pictures (tiny_pictures both)"
  by (auto simp: sound_pictures_def tiny_pictures_def tiny_image_sound split: list.splits if_splits)

text \<open>What a tiny picture becomes.\<close>

definition tiny_frame :: "u8 \<Rightarrow> i64 \<Rightarrow> decoded_frame" where
  "tiny_frame x pts = \<lparr>df_width = 2, df_height = 2, df_pts_ns = pts,
     df_pixels = [x, x + 1, x + 2, x + 3, x, x], df_offsets = [0, 4, 5], df_strides = [2, 1, 1]\<rparr>"

lemma tiny_image_frame: "image_frame wide (tiny_image x) pts = tiny_frame x pts" if "\<not> wide"
proof -
  have "[0..<2] = [0, Suc 0]" "unat (2 :: u32) = 2" "(2 :: u32) div 2 = 1" "unat (3 :: u32) = 3"
    by (simp_all add: upt_rec)
  then show ?thesis using that
    by (simp add: image_frame_def tiny_image_def tiny_frame_def plane_samples_def sample_row_def Let_def
        numeral_2_eq_2 numeral_3_eq_3)
qed

lemma tiny_frames:
  "vp9_frame_of (tiny_image x) pts = Inr (tiny_frame x pts)"
  "av1_frame_of f (tiny_image x) pts = Inr (tiny_frame x pts)"
proof -
  have "\<not> odd_or_empty (tiny_image x)" by (simp add: odd_or_empty_def tiny_image_def)
  moreover have "ci_format (tiny_image x) = ImageI420" by (simp add: tiny_image_def)
  ultimately show "vp9_frame_of (tiny_image x) pts = Inr (tiny_frame x pts)"
    "av1_frame_of f (tiny_image x) pts = Inr (tiny_frame x pts)"
    by (simp_all add: vp9_frame_of_def av1_frame_of_def tiny_image_frame)
qed

definition tiny_config :: decoder_config where
  "tiny_config = \<lparr>dc_struct_size = 40, dc_struct_version = 1, dc_input_path = Some ''a.webm'',
     dc_codec = 0, dc_backend = 1, dc_threads = 0, dc_prefetch = 2\<rparr>"

theorem vp9_decoder_stream_witness:
  "repeat_reads (vp9_read tiny_vp9) 3
     (new_vp9_decoder\<lparr>vd_packet_reader := Some example_reader, vd_codec := Some ([], [])\<rparr>) =
   Some [Inr (tiny_frame 1 0), Inr (tiny_frame 4 80000000), Inl (MKVC_END_OF_STREAM, [])]"
proof -
  have created: "vp9_create tiny_vp9 8 (open_reader True example_disk (\<lambda>_. example_file)) tiny_config =
      Inr (new_vp9_decoder\<lparr>vd_packet_reader := Some example_reader, vd_codec := Some ([], [])\<rparr>)"
    by (simp add: vp9_create_def vp9_initialize_def tiny_config_def example_open tiny_vp9_def Let_def)
  have frames: "stream_frames (tiny_pictures False) vp9_frame_of []
      (track_packets (rd_track example_reader) (rd_clusters example_reader)) =
      ([Inr (tiny_frame 1 0), Inr (tiny_frame 4 80000000)], True)"
    unfolding example_packets by (simp add: tiny_pictures_def tiny_frames)
  have "length [Inr (tiny_frame 1 0) :: status + decoded_frame, Inr (tiny_frame 4 80000000)] + 1 = 3" by simp
  with vp9_decoder_stream [OF tiny_vp9_contract tiny_pictures_sound created _ example_sound frames, of 1]
  show ?thesis by (simp add: eval_nat_numeral del: repeat_reads.simps)
qed

definition av1_file :: webm_file where
  "av1_file = example_file\<lparr>wf_tracks := Some [Some (example_track\<lparr>wt_codec_id := Some ''V_AV1''\<rparr>)]\<rparr>"

lemma av1_open:
  "open_reader True example_disk (\<lambda>_. av1_file) (Some ''a.webm'') MKVC_CODEC_AV1 = Inr example_reader"
  by (simp add: open_reader_def example_checked example_reader_def load_tracks_def kMaxTracks_def av1_file_def
      valid_dimensions_def kMaxDimension_def kMaxPixels_def codec_track_id_def example_file_def example_track_def)

theorem av1_decoder_stream_witness:
  "repeat_reads (av1_read tiny_av1 (\<lambda>_. 0)) 5
     (new_av1_decoder\<lparr>ad_packet_reader := Some example_reader, ad_codec := Some ([], [])\<rparr>) =
   Some [Inr (tiny_frame 1 0), Inr (tiny_frame 2 0), Inr (tiny_frame 3 0), Inr (tiny_frame 4 80000000),
         Inl (MKVC_END_OF_STREAM, [])]"
proof -
  have created: "av1_create tiny_av1 (open_reader True example_disk (\<lambda>_. av1_file)) tiny_config =
      Inr (new_av1_decoder\<lparr>ad_packet_reader := Some example_reader, ad_codec := Some ([], [])\<rparr>)"
    by (simp add: av1_create_def av1_initialize_def tiny_config_def av1_open tiny_av1_def Let_def)
  have frames: "stream_frames (tiny_pictures True) (av1_frame_of (\<lambda>_. 0)) []
      (track_packets (rd_track example_reader) (rd_clusters example_reader)) =
      ([Inr (tiny_frame 1 0), Inr (tiny_frame 2 0), Inr (tiny_frame 3 0), Inr (tiny_frame 4 80000000)], True)"
    unfolding example_packets by (simp add: tiny_pictures_def tiny_frames)
  have "length [Inr (tiny_frame 1 0) :: status + decoded_frame, Inr (tiny_frame 2 0), Inr (tiny_frame 3 0), Inr (tiny_frame 4 80000000)] + 1 = 5" by simp
  with av1_decoder_stream [OF tiny_av1_contract tiny_pictures_sound created _ example_sound frames, of 1]
  show ?thesis by (simp add: eval_nat_numeral del: repeat_reads.simps)
qed

end
