(* ===== verification/FrameTiming.thy ===== *)
theory FrameTiming
  imports Prelude
begin

text \<open>
  Presentation timestamps at a fixed frame rate, src/encoder/frame_timing.cpp: the choice
  between the caller's PTS and the next fallback, and the conversion of a frame index into
  nanoseconds in 64-bit unsigned arithmetic. A frame index is a 64-bit word read as signed;
  \<open>accepted_pts + 1\<close> wraps at the largest index, where C++ leaves it undefined, and the
  facts below stay under it. They show that fallback timestamps never run backwards and that
  the conversion is the exact rounded-down quotient as long as the product fits 64 bits.
\<close>

record frame_timing =
  fps_num :: u32
  fps_den :: u32
  next_pts :: i64

definition initial_timing :: frame_timing where
  "initial_timing = \<lparr>fps_num = 1, fps_den = 1, next_pts = 0\<rparr>"

definition configure :: "u32 \<Rightarrow> u32 \<Rightarrow> frame_timing \<Rightarrow> frame_timing" where
  "configure num den t = t\<lparr>fps_num := num, fps_den := den, next_pts := 0\<rparr>"

definition select_pts :: "i64 \<Rightarrow> frame_timing \<Rightarrow> i64" where
  "select_pts requested_pts t = (if 0 \<le>s requested_pts then requested_pts else next_pts t)"

definition commit_pts :: "i64 \<Rightarrow> frame_timing \<Rightarrow> frame_timing" where
  "commit_pts accepted_pts t =
     t\<lparr>next_pts := (if next_pts t <s accepted_pts + 1 then accepted_pts + 1 else next_pts t)\<rparr>"

definition to_nanoseconds :: "i64 \<Rightarrow> frame_timing \<Rightarrow> u64" where
  "to_nanoseconds pts t = pts * ucast (fps_den t) * 1000000000 div ucast (fps_num t)"

definition duration_nanoseconds :: "frame_timing \<Rightarrow> u64" where
  "duration_nanoseconds t = ucast (fps_den t) * 1000000000 div ucast (fps_num t)"

text \<open>The indices a codec is given for a run of frames, each accepted in turn.\<close>

fun assign_pts :: "i64 list \<Rightarrow> frame_timing \<Rightarrow> i64 list" where
  "assign_pts [] t = []"
| "assign_pts (r # rs) t = select_pts r t # assign_pts rs (commit_pts (select_pts r t) t)"

section \<open>Signed readings\<close>

lemma sint_add_one:
  assumes "0 \<le> sint (p :: i64)" "sint p < 9223372036854775807"
  shows "sint (p + 1) = sint p + 1"
  using assms by (simp add: sint_word_ariths signed_take_bit_int_eq_self)

lemma sint_next_pts_commit:
  assumes "0 \<le> sint p" "sint p < 9223372036854775807"
  shows "sint (next_pts (commit_pts p t)) = max (sint (next_pts t)) (sint p + 1)"
  using sint_add_one [OF assms] by (auto simp: commit_pts_def word_sless_alt max_def)

lemma sint_select_pts:
  "sint (select_pts r t) = (if 0 \<le> sint r then sint r else sint (next_pts t))"
  by (simp add: select_pts_def word_sle_eq)

lemma length_assign_pts [simp]: "length (assign_pts rs t) = length rs"
  by (induction rs arbitrary: t) simp_all

text \<open>Every index is non-negative, and a fallback is at least the next index at the start.\<close>

lemma assign_pts_bounds:
  assumes "0 \<le> sint (next_pts t)" "sint (next_pts t) + int (length rs) \<le> bound"
    and "\<forall>r \<in> set rs. sint r + int (length rs) \<le> bound" "bound < 9223372036854775807"
    and "j < length rs"
  shows "0 \<le> sint (assign_pts rs t ! j)
    \<and> (sint (rs ! j) < 0 \<longrightarrow> sint (next_pts t) \<le> sint (assign_pts rs t ! j))"
  using assms
proof (induction rs arbitrary: t j)
  case Nil
  then show ?case by simp
next
  case (Cons r rs)
  have sel: "0 \<le> sint (select_pts r t)" "sint (select_pts r t) + int (length (r # rs)) \<le> bound"
    using Cons.prems(1,2) Cons.prems(3) by (auto simp: sint_select_pts)
  then have nxt: "sint (next_pts (commit_pts (select_pts r t) t)) =
      max (sint (next_pts t)) (sint (select_pts r t) + 1)"
    using Cons.prems(4) by (intro sint_next_pts_commit) auto
  show ?case
  proof (cases j)
    case 0
    then show ?thesis using sel by (simp add: sint_select_pts)
  next
    case (Suc i)
    have "0 \<le> sint (assign_pts rs (commit_pts (select_pts r t) t) ! i) \<and>
       (sint (rs ! i) < 0 \<longrightarrow> sint (next_pts (commit_pts (select_pts r t) t))
          \<le> sint (assign_pts rs (commit_pts (select_pts r t) t) ! i))"
      using Cons.prems sel Suc by (intro Cons.IH) (auto simp: nxt)
    then show ?thesis using Suc by (auto simp: nxt)
  qed
qed

lemma assign_pts_increasing:
  assumes "0 \<le> sint (next_pts t)" "sint (next_pts t) + int (length rs) \<le> bound"
    and "\<forall>r \<in> set rs. sint r + int (length rs) \<le> bound" "bound < 9223372036854775807"
    and "i < j" "j < length rs" "sint (rs ! j) < 0"
  shows "sint (assign_pts rs t ! i) < sint (assign_pts rs t ! j)"
  using assms
proof (induction rs arbitrary: t i j)
  case Nil
  then show ?case by simp
next
  case (Cons r rs)
  have sel: "0 \<le> sint (select_pts r t)" "sint (select_pts r t) + int (length (r # rs)) \<le> bound"
    using Cons.prems(1-3) by (auto simp: sint_select_pts)
  then have nxt: "sint (next_pts (commit_pts (select_pts r t) t)) =
      max (sint (next_pts t)) (sint (select_pts r t) + 1)"
    using Cons.prems(4) by (intro sint_next_pts_commit) auto
  obtain j' where j: "j = Suc j'" using Cons.prems(5) by (cases j) auto
  show ?case
  proof (cases i)
    case 0
    have "0 \<le> sint (assign_pts rs (commit_pts (select_pts r t) t) ! j') \<and>
       (sint (rs ! j') < 0 \<longrightarrow> sint (next_pts (commit_pts (select_pts r t) t))
          \<le> sint (assign_pts rs (commit_pts (select_pts r t) t) ! j'))"
      using Cons.prems sel j by (intro assign_pts_bounds [where bound = bound]) (auto simp: nxt)
    then show ?thesis using Cons.prems 0 j by (auto simp: nxt)
  next
    case (Suc i')
    have "sint (assign_pts rs (commit_pts (select_pts r t) t) ! i')
        < sint (assign_pts rs (commit_pts (select_pts r t) t) ! j')"
      using Cons.prems sel j Suc by (intro Cons.IH) (auto simp: nxt)
    then show ?thesis using j Suc by simp
  qed
qed

section \<open>Nanoseconds\<close>

lemma unat_ucast_u64: "unat (ucast (x :: u32) :: u64) = unat x"
  using u32_less [of x] by (simp add: unsigned_ucast_eq take_bit_nat_eq_self)

lemma unat_to_nanoseconds:
  assumes "unat p * unat (fps_den t) * 1000000000 < 2 ^ 64"
  shows "unat (to_nanoseconds p t) = unat p * unat (fps_den t) * 1000000000 div unat (fps_num t)"
proof -
  have d: "unat (ucast (fps_den t) :: u64) = unat (fps_den t)"
    "unat (ucast (fps_num t) :: u64) = unat (fps_num t)"
    by (simp_all add: unat_ucast_u64)
  have "unat (p * ucast (fps_den t)) = unat p * unat (fps_den t)"
    using assms d by (subst unat_mult_lem [THEN iffD1]) auto
  then have "unat (p * ucast (fps_den t) * 1000000000 :: u64) = unat p * unat (fps_den t) * 1000000000"
    using assms by (subst unat_mult_lem [THEN iffD1]) auto
  then show ?thesis by (simp add: to_nanoseconds_def unat_div d)
qed

lemma unat_duration:
  "unat (duration_nanoseconds t) = unat (fps_den t) * 1000000000 div unat (fps_num t)"
proof -
  have d: "unat (ucast (fps_den t) :: u64) = unat (fps_den t)"
    "unat (ucast (fps_num t) :: u64) = unat (fps_num t)"
    by (simp_all add: unat_ucast_u64)
  have "unat (ucast (fps_den t) * 1000000000 :: u64) = unat (fps_den t) * 1000000000"
    using d u32_less [of "fps_den t"] by (subst unat_mult_lem [THEN iffD1]) auto
  then show ?thesis by (simp add: duration_nanoseconds_def unat_div d)
qed

lemma div_add_le_Suc: "(a + b) div n \<le> a div n + b div n + (1 :: nat)"
proof (cases "n = 0")
  case True
  then show ?thesis by simp
next
  case False
  have "(a mod n + b mod n) div n < 2"
    using False mod_less_divisor [of n a] mod_less_divisor [of n b]
    by (intro less_mult_imp_div_less) linarith
  then show ?thesis using div_add1_eq [of a b n] by simp
qed

text \<open>Consecutive frames are one duration apart, give or take the rounding.\<close>

lemma frame_spacing:
  assumes "(unat p + 1) * unat (fps_den t) * 1000000000 < 2 ^ 64" "unat (p + 1) = unat p + 1"
  shows "unat (to_nanoseconds p t) + unat (duration_nanoseconds t) \<le> unat (to_nanoseconds (p + 1) t)
    \<and> unat (to_nanoseconds (p + 1) t) \<le> unat (to_nanoseconds p t) + unat (duration_nanoseconds t) + 1"
proof -
  let ?d = "unat (fps_den t) * 1000000000" and ?n = "unat (fps_num t)"
  have "unat p * unat (fps_den t) * 1000000000 \<le> (unat p + 1) * unat (fps_den t) * 1000000000"
    by (intro mult_le_mono) auto
  with assms(1) have lt: "unat p * unat (fps_den t) * 1000000000 < 2 ^ 64" by (rule le_less_trans [rotated])
  have sum: "(unat p + 1) * unat (fps_den t) * 1000000000 = unat p * unat (fps_den t) * 1000000000 + ?d"
    by (simp add: algebra_simps)
  have "unat (to_nanoseconds (p + 1) t) = (unat p * unat (fps_den t) * 1000000000 + ?d) div ?n"
    using unat_to_nanoseconds [of "p + 1" t] assms unfolding assms(2) sum by simp
  moreover have "unat (to_nanoseconds p t) = unat p * unat (fps_den t) * 1000000000 div ?n"
    by (rule unat_to_nanoseconds [OF lt])
  ultimately show ?thesis
    using div_add_le_Suc [of "unat p * unat (fps_den t) * 1000000000" ?d ?n]
      div_add1_eq [of "unat p * unat (fps_den t) * 1000000000" ?d ?n]
    by (simp add: unat_duration)
qed

section \<open>Properties\<close>

text \<open>C6. A frame submitted without a PTS gets an index above that of every frame
  accepted before it, whatever explicit indices came in between.\<close>

theorem fallback_pts_increase:
  assumes "0 \<le> sint (next_pts t)" "sint (next_pts t) + int (length rs) \<le> bound"
    and "\<forall>r \<in> set rs. sint r + int (length rs) \<le> bound" "bound < 9223372036854775807"
    and "i < j" "j < length rs" "sint (rs ! j) < 0"
  shows "sint (assign_pts rs t ! i) < sint (assign_pts rs t ! j)"
  by (rule assign_pts_increasing [OF assms])

theorem fallback_pts_increase_witness:
  "sint (assign_pts [- 1, 40, 7, - 1] (configure 30 1 initial_timing) ! 1) <
   sint (assign_pts [- 1, 40, 7, - 1] (configure 30 1 initial_timing) ! 3)"
  by (rule fallback_pts_increase [where bound = 1000])
    (simp_all add: configure_def initial_timing_def)

end
