(* ===== verification/CpuEncoders.thy ===== *)
theory CpuEncoders
  imports WebmIO CpuFrame FrameTiming
begin

text \<open>
  The software encoders: src/cpu_vp9_encoder.cpp and src/cpu_av1_encoder.cpp with their runtimes.
  libvpx, SVT-AV1 and libwebm are not part of the sources: a codec is a record of operations over a
  state of its own, libwebm's answers are functions of the muxer. A call that would go through a
  null codec handle, or that copies outside a plane, has no value. What the encoders write is the
  subject of CpuEncoderFiles.
\<close>

section \<open>Muxing\<close>

record mux_answers =
  ma_copied :: "webm_muxer \<Rightarrow> bool"
  ma_added :: "webm_muxer \<Rightarrow> bool"
  ma_finalizes :: "webm_muxer \<Rightarrow> bool"

definition mux_packet ::
    "mux_answers \<Rightarrow> frame_timing \<Rightarrow> bytes \<Rightarrow> i64 \<Rightarrow> bool \<Rightarrow> webm_muxer \<Rightarrow> status \<times> webm_muxer" where
  "mux_packet ans timing data pts key m =
     add_frame (ma_copied ans m) (ma_added ans m) (Some data) (to_nanoseconds pts timing)
       (duration_nanoseconds timing) key m"

text \<open>The staging buffer of an encoder, sized in 64 bits.\<close>

definition staging_size :: "u32 \<Rightarrow> u32 \<Rightarrow> u64" where
  "staging_size width height =
     ucast width * ucast height + 2 * (ucast (width div 2) * ucast (height div 2))"

section \<open>The VP9 encoder\<close>

record vpx_config =
  xg_w :: u32
  xg_h :: u32
  xg_timebase_num :: i32
  xg_timebase_den :: i32
  xg_threads :: u32
  xg_lag_in_frames :: u32
  xg_kf_max_dist :: u32
  xg_rc_target_bitrate :: u32

datatype vpx_control = SetCpuUsed int | SetCqLevel int | SetRowMt int

record vpx_packet =
  xp_is_frame :: bool
  xp_data :: bytes
  xp_pts :: i64
  xp_key :: bool

record 'c vpx_encoder =
  xe_default_config :: bool
  xe_init :: "vpx_config \<Rightarrow> string + 'c"
  xe_control :: "'c \<Rightarrow> vpx_control \<Rightarrow> bool \<times> 'c"
  xe_wraps :: "u32 \<Rightarrow> u32 \<Rightarrow> bool"
  xe_encode :: "'c \<Rightarrow> (bytes \<times> i64) option \<Rightarrow> bool \<times> 'c" \<comment> \<open>\<open>None\<close> flushes\<close>
  xe_cx_data :: "'c \<Rightarrow> vpx_packet list" \<comment> \<open>from a null iterator on, until the next call\<close>
  xe_error :: "'c \<Rightarrow> string"
  xe_error_detail :: "'c \<Rightarrow> string option"

record 'c vp9_encoder =
  ve_codec :: 'c
  ve_codec_initialized :: bool
  ve_muxer :: webm_muxer
  ve_width :: u32
  ve_height :: u32
  ve_timing :: frame_timing
  ve_closed :: bool
  ve_image :: bytes

text \<open>All 32-bit products wrap; the key mode and the rate control mode are constants.\<close>

definition vp9_codec_config :: "u32 \<Rightarrow> encoder_config \<Rightarrow> vpx_config" where
  "vp9_codec_config hardware_threads config = \<lparr>xg_w = ec_width config, xg_h = ec_height config,
     xg_timebase_num = ec_fps_den config, xg_timebase_den = ec_fps_num config,
     xg_threads = (if ec_threads config = 0 then max 1 hardware_threads else ec_threads config),
     xg_lag_in_frames = 0,
     xg_kf_max_dist = (if ec_keyframe_interval_frames config = 0
       then ec_fps_num config * 4 div ec_fps_den config else ec_keyframe_interval_frames config),
     xg_rc_target_bitrate = max 1 (ec_width config * ec_height config * ec_fps_num config div
       ec_fps_den config div 1000)\<rparr>"

definition vp9_initialize_codec :: "'c vpx_encoder \<Rightarrow> u32 \<Rightarrow> encoder_config \<Rightarrow> status + 'c" where
  "vp9_initialize_codec vpx hardware_threads config =
     (if \<not> xe_default_config vpx
      then Inl (MKVC_ERROR_CODEC, ''libvpx has no default VP9 encoder configuration'')
      else (case xe_init vpx (vp9_codec_config hardware_threads config) of
              Inl e \<Rightarrow> Inl (MKVC_ERROR_CODEC, e)
            | Inr c0 \<Rightarrow>
                let rejected = Inl (MKVC_ERROR_CODEC, ''libvpx rejected the balanced VP9 controls'')
                in (case xe_control vpx c0 (SetCpuUsed 6) of (used, c1) \<Rightarrow>
                      if \<not> used then rejected else
                      (case xe_control vpx c1 (SetCqLevel (sint (ec_quality config))) of (level, c2) \<Rightarrow>
                        if \<not> level then rejected else
                        (case xe_control vpx c2 (SetRowMt 1) of (row_mt, c3) \<Rightarrow>
                           if \<not> row_mt then rejected else Inr c3)))))"

definition vp9_create_encoder ::
    "'c vpx_encoder \<Rightarrow> u32 \<Rightarrow> muxer_setup \<Rightarrow> encoder_config \<Rightarrow> string + 'c vp9_encoder" where
  "vp9_create_encoder vpx hardware_threads setup config =
     (case vp9_initialize_codec vpx hardware_threads config of
        Inl (r, e) \<Rightarrow> Inl e
      | Inr c \<Rightarrow>
          (case create_muxer setup (ec_output_path config) MKVC_CODEC_VP9 (ec_fps_num config) (ec_fps_den config) of
             Inl e \<Rightarrow> Inl e
           | Inr m \<Rightarrow>
               Inr \<lparr>ve_codec = c, ve_codec_initialized = True, ve_muxer = m, ve_width = ec_width config,
                 ve_height = ec_height config,
                 ve_timing = configure (ec_fps_num config) (ec_fps_den config) initial_timing,
                 ve_closed = False,
                 ve_image = replicate (unat (staging_size (ec_width config) (ec_height config))) 0\<rparr>))"

fun vp9_collect_packets :: "mux_answers \<Rightarrow> vpx_packet list \<Rightarrow> 'c vp9_encoder \<Rightarrow> status \<times> 'c vp9_encoder" where
  "vp9_collect_packets ans [] e = (ok, e)"
| "vp9_collect_packets ans (p # ps) e =
     (if \<not> xp_is_frame p then vp9_collect_packets ans ps e
      else (case mux_packet ans (ve_timing e) (xp_data p) (xp_pts p) (xp_key p) (ve_muxer e) of
              (st, m) \<Rightarrow>
                if fst st \<noteq> MKVC_OK then (st, e\<lparr>ve_muxer := m\<rparr>)
                else vp9_collect_packets ans ps (e\<lparr>ve_muxer := m\<rparr>)))"

definition vp9_codec_error :: "'c vpx_encoder \<Rightarrow> 'c \<Rightarrow> status" where
  "vp9_codec_error vpx c =
     (MKVC_ERROR_CODEC, case xe_error_detail vpx c of Some e \<Rightarrow> e | None \<Rightarrow> xe_error vpx c)"

definition vp9_encode_frame ::
    "'c vpx_encoder \<Rightarrow> mux_answers \<Rightarrow> i64 \<Rightarrow> 'c vp9_encoder \<Rightarrow> status \<times> 'c vp9_encoder" where
  "vp9_encode_frame vpx ans requested_pts e =
     (if \<not> xe_wraps vpx (ve_width e) (ve_height e)
      then ((MKVC_ERROR_CODEC, ''libvpx failed to wrap the copied I420 frame''), e)
      else let pts = select_pts requested_pts (ve_timing e)
           in (case xe_encode vpx (ve_codec e) (Some (ve_image e, pts)) of (accepted, c) \<Rightarrow>
                 let e = e\<lparr>ve_codec := c\<rparr>
                 in if \<not> accepted then (vp9_codec_error vpx c, e)
                    else vp9_collect_packets ans (xe_cx_data vpx c) (e\<lparr>ve_timing := commit_pts pts (ve_timing e)\<rparr>)))"

definition vp9_flush_codec ::
    "'c vpx_encoder \<Rightarrow> mux_answers \<Rightarrow> 'c vp9_encoder \<Rightarrow> status \<times> 'c vp9_encoder" where
  "vp9_flush_codec vpx ans e =
     (case xe_encode vpx (ve_codec e) None of (accepted, c) \<Rightarrow>
        let e = e\<lparr>ve_codec := c\<rparr>
        in if \<not> accepted then (vp9_codec_error vpx c, e)
           else vp9_collect_packets ans (xe_cx_data vpx c) e)"

definition vp9_write ::
    "'c vpx_encoder \<Rightarrow> mux_answers \<Rightarrow> libyuv \<Rightarrow> frame_view \<Rightarrow> 'c vp9_encoder \<Rightarrow> (status \<times> 'c vp9_encoder) option" where
  "vp9_write vpx ans yuv frame e =
     (if ve_closed e then Some ((MKVC_ERROR_INVALID_STATE, ''encoder is closed''), e)
      else if fv_width frame \<noteq> ve_width e \<or> fv_height frame \<noteq> ve_height e
      then Some ((MKVC_ERROR_INVALID_ARGUMENT, ''frame dimensions do not match encoder configuration''), e)
      else (case convert_cpu_frame_to_i420 yuv frame (ve_width e) (ve_height e) (ve_image e) (Some ''VP9'') of
              None \<Rightarrow> None
            | Some (conversion, buffer) \<Rightarrow>
                let e = e\<lparr>ve_image := buffer\<rparr>
                in if fst conversion \<noteq> MKVC_OK then Some (conversion, e)
                   else Some (vp9_encode_frame vpx ans (fv_pts frame) e)))"

definition vp9_flush :: "'c vpx_encoder \<Rightarrow> mux_answers \<Rightarrow> 'c vp9_encoder \<Rightarrow> status \<times> 'c vp9_encoder" where
  "vp9_flush vpx ans e = (if ve_closed e then (ok, e) else vp9_flush_codec vpx ans e)"

definition vp9_destroy_codec :: "'c vp9_encoder \<Rightarrow> 'c vp9_encoder" where
  "vp9_destroy_codec e = e\<lparr>ve_codec_initialized := False\<rparr>"

definition vp9_close_encoder ::
    "'c vpx_encoder \<Rightarrow> mux_answers \<Rightarrow> io_faults \<Rightarrow> disk \<Rightarrow> 'c vp9_encoder \<Rightarrow> status \<times> disk \<times> 'c vp9_encoder" where
  "vp9_close_encoder vpx ans io d e =
     (if ve_closed e then (ok, d, e)
      else let (flushed, e) = (if ve_codec_initialized e then vp9_flush vpx ans e else (ok, e));
               (st, d, m) = (if fst flushed = MKVC_OK
                 then finalize_muxer (ma_finalizes ans (ve_muxer e)) io d (ve_muxer e)
                 else (flushed, d, ve_muxer e))
           in (st, d, (vp9_destroy_codec (e\<lparr>ve_muxer := m\<rparr>))\<lparr>ve_closed := True\<rparr>))"

section \<open>The AV1 encoder\<close>

record svt_config =
  sc_source_width :: u32
  sc_source_height :: u32
  sc_frame_rate_numerator :: u32
  sc_frame_rate_denominator :: u32
  sc_encoder_bit_depth :: u32
  sc_level :: u32
  sc_rate_control_mode :: u32
  sc_qp :: u32
  sc_enc_mode :: i32
  sc_intra_period_length :: i32

record svt_input =
  si_image :: bytes
  si_cb_offset :: nat
  si_cr_offset :: nat
  si_strides :: "u32 list" \<comment> \<open>of Y, Cb, Cr\<close>
  si_filled_len :: u32
  si_pts :: i64

datatype svt_picture = KeyPicture | IntraOnlyPicture | OtherPicture

record svt_packet =
  sp_data :: bytes
  sp_pts :: i64
  sp_picture :: svt_picture
  sp_eos :: bool

datatype svt_answer = EmptyQueue | PacketError | GotPacket svt_packet

record 'c svt_encoder =
  sv_init_handle :: "'c option"
  sv_set_parameter :: "'c \<Rightarrow> svt_config \<Rightarrow> bool \<times> 'c"
  sv_init :: "'c \<Rightarrow> bool \<times> 'c"
  sv_send_picture :: "'c \<Rightarrow> svt_input option \<Rightarrow> bool \<times> 'c" \<comment> \<open>\<open>None\<close> ends the stream\<close>
  sv_get_packet :: "'c \<Rightarrow> bool \<Rightarrow> svt_answer \<times> 'c"

record 'c av1_encoder =
  ae_codec :: "'c option"
  ae_codec_initialized :: bool
  ae_muxer :: "webm_muxer option"
  ae_width :: u32
  ae_height :: u32
  ae_timing :: frame_timing
  ae_quality :: u32
  ae_keyframe_interval_frames :: u32
  ae_frames_in_sequence :: u64
  ae_eos_sent :: bool
  ae_closed :: bool
  ae_image :: bytes

definition av1_codec_config :: "'c av1_encoder \<Rightarrow> svt_config" where
  "av1_codec_config e = \<lparr>sc_source_width = ae_width e, sc_source_height = ae_height e,
     sc_frame_rate_numerator = fps_num (ae_timing e), sc_frame_rate_denominator = fps_den (ae_timing e),
     sc_encoder_bit_depth = 8, sc_level = 63, sc_rate_control_mode = 0, sc_qp = ae_quality e, sc_enc_mode = 8,
     sc_intra_period_length = (if ae_keyframe_interval_frames e = 0
       then fps_num (ae_timing e) * 4 div fps_den (ae_timing e) - 1 else ae_keyframe_interval_frames e - 1)\<rparr>"

definition av1_initialize_codec :: "'c svt_encoder \<Rightarrow> 'c av1_encoder \<Rightarrow> status \<times> 'c av1_encoder" where
  "av1_initialize_codec svt e =
     (case sv_init_handle svt of
        None \<Rightarrow> ((MKVC_ERROR_CODEC, ''SVT-AV1 failed to create an encoder handle''), e)
      | Some c0 \<Rightarrow>
          let rejected = (MKVC_ERROR_CODEC, ''SVT-AV1 rejected the encoder configuration'')
          in (case sv_set_parameter svt c0 (av1_codec_config e) of (accepted, c1) \<Rightarrow>
                if \<not> accepted then (rejected, e\<lparr>ae_codec := Some c1\<rparr>)
                else (case sv_init svt c1 of (started, c2) \<Rightarrow>
                        if \<not> started then (rejected, e\<lparr>ae_codec := Some c2\<rparr>)
                        else (ok, e\<lparr>ae_codec := Some c2, ae_codec_initialized := True,
                                ae_eos_sent := False, ae_frames_in_sequence := 0\<rparr>))))"

definition new_av1_encoder :: "encoder_config \<Rightarrow> 'c av1_encoder" where
  "new_av1_encoder config = \<lparr>ae_codec = None, ae_codec_initialized = False, ae_muxer = None,
     ae_width = ec_width config, ae_height = ec_height config,
     ae_timing = configure (ec_fps_num config) (ec_fps_den config) initial_timing,
     ae_quality = ec_quality config, ae_keyframe_interval_frames = ec_keyframe_interval_frames config,
     ae_frames_in_sequence = 0, ae_eos_sent = False, ae_closed = False, ae_image = []\<rparr>"

definition av1_create_encoder ::
    "'c svt_encoder \<Rightarrow> muxer_setup \<Rightarrow> encoder_config \<Rightarrow> string + 'c av1_encoder" where
  "av1_create_encoder svt setup config =
     (case av1_initialize_codec svt (new_av1_encoder config) of (st, e) \<Rightarrow>
        if fst st \<noteq> MKVC_OK then Inl (snd st)
        else (case create_muxer setup (ec_output_path config) MKVC_CODEC_AV1 (ec_fps_num config) (ec_fps_den config) of
                Inl error \<Rightarrow> Inl error
              | Inr m \<Rightarrow> Inr (e\<lparr>ae_muxer := Some m,
                  ae_image := replicate (unat (staging_size (ec_width config) (ec_height config))) 0\<rparr>)))"

text \<open>The loop ends with the queue empty or, while draining, with the packet that ends the stream;
  nothing else bounds it.\<close>

partial_function (option) av1_collect_packets ::
    "'c svt_encoder \<Rightarrow> mux_answers \<Rightarrow> bool \<Rightarrow> 'c av1_encoder \<Rightarrow> (status \<times> 'c av1_encoder) option" where
  "av1_collect_packets svt ans drain e =
     (case ae_codec e of None \<Rightarrow> None | Some c \<Rightarrow>
       (case sv_get_packet svt c drain of (answer, c') \<Rightarrow>
         (case answer of
            EmptyQueue \<Rightarrow> Some (ok, e\<lparr>ae_codec := Some c'\<rparr>)
          | PacketError \<Rightarrow>
              Some ((MKVC_ERROR_CODEC, ''SVT-AV1 failed to return an encoded packet''), e\<lparr>ae_codec := Some c'\<rparr>)
          | GotPacket p \<Rightarrow>
              if sp_data p = [] then
                (if sp_eos p then Some (ok, e\<lparr>ae_codec := Some c'\<rparr>)
                 else av1_collect_packets svt ans drain (e\<lparr>ae_codec := Some c'\<rparr>))
              else (case ae_muxer e of None \<Rightarrow> None | Some m \<Rightarrow>
                (case mux_packet ans (ae_timing e) (sp_data p) (sp_pts p)
                        (sp_picture p = KeyPicture \<or> sp_picture p = IntraOnlyPicture) m of (st, m') \<Rightarrow>
                   if fst st \<noteq> MKVC_OK then Some (st, e\<lparr>ae_codec := Some c', ae_muxer := Some m'\<rparr>)
                   else if sp_eos p then Some (ok, e\<lparr>ae_codec := Some c', ae_muxer := Some m'\<rparr>)
                   else av1_collect_packets svt ans drain (e\<lparr>ae_codec := Some c', ae_muxer := Some m'\<rparr>))))))"

definition av1_input :: "'c av1_encoder \<Rightarrow> i64 \<Rightarrow> svt_input" where
  "av1_input e pts =
     (let w = ae_width e; h = ae_height e; y_size = unat w * unat h; uv_size = unat (w div 2) * unat (h div 2)
      in \<lparr>si_image = ae_image e, si_cb_offset = y_size, si_cr_offset = y_size + uv_size,
          si_strides = [w, w div 2, w div 2], si_filled_len = w * h * 3 div 2, si_pts = pts\<rparr>)"

definition av1_encode_frame ::
    "'c svt_encoder \<Rightarrow> mux_answers \<Rightarrow> i64 \<Rightarrow> 'c av1_encoder \<Rightarrow> (status \<times> 'c av1_encoder) option" where
  "av1_encode_frame svt ans requested_pts e =
     (let pts = select_pts requested_pts (ae_timing e)
      in case ae_codec e of None \<Rightarrow> None | Some c \<Rightarrow>
           (case sv_send_picture svt c (Some (av1_input e pts)) of (accepted, c') \<Rightarrow>
              if \<not> accepted
              then Some ((MKVC_ERROR_CODEC, ''SVT-AV1 rejected an input frame''), e\<lparr>ae_codec := Some c'\<rparr>)
              else av1_collect_packets svt ans False
                     (e\<lparr>ae_codec := Some c', ae_timing := commit_pts pts (ae_timing e),
                        ae_frames_in_sequence := ae_frames_in_sequence e + 1\<rparr>)))"

definition av1_end_sequence ::
    "'c svt_encoder \<Rightarrow> mux_answers \<Rightarrow> 'c av1_encoder \<Rightarrow> (status \<times> 'c av1_encoder) option" where
  "av1_end_sequence svt ans e =
     (if \<not> ae_codec_initialized e \<or> ae_frames_in_sequence e = 0 then Some (ok, e)
      else case ae_codec e of None \<Rightarrow> None | Some c \<Rightarrow>
           (case sv_send_picture svt c None of (accepted, c') \<Rightarrow>
              if \<not> accepted
              then Some ((MKVC_ERROR_CODEC, ''SVT-AV1 rejected end-of-stream''), e\<lparr>ae_codec := Some c'\<rparr>)
              else av1_collect_packets svt ans True (e\<lparr>ae_codec := Some c', ae_eos_sent := True\<rparr>)))"

definition av1_destroy_codec :: "'c av1_encoder \<Rightarrow> 'c av1_encoder" where
  "av1_destroy_codec e = e\<lparr>ae_codec := None, ae_codec_initialized := False, ae_eos_sent := False,
     ae_frames_in_sequence := 0\<rparr>"

definition av1_write ::
    "'c svt_encoder \<Rightarrow> mux_answers \<Rightarrow> libyuv \<Rightarrow> frame_view \<Rightarrow> 'c av1_encoder \<Rightarrow> (status \<times> 'c av1_encoder) option" where
  "av1_write svt ans yuv frame e =
     (if ae_closed e \<or> ae_eos_sent e
      then Some ((MKVC_ERROR_INVALID_STATE, ''encoder is closed or draining''), e)
      else if fv_width frame \<noteq> ae_width e \<or> fv_height frame \<noteq> ae_height e
      then Some ((MKVC_ERROR_INVALID_ARGUMENT, ''frame dimensions do not match AV1 encoder configuration''), e)
      else (case convert_cpu_frame_to_i420 yuv frame (ae_width e) (ae_height e) (ae_image e) (Some ''AV1'') of
              None \<Rightarrow> None
            | Some (conversion, buffer) \<Rightarrow>
                let e = e\<lparr>ae_image := buffer\<rparr>
                in if fst conversion \<noteq> MKVC_OK then Some (conversion, e)
                   else av1_encode_frame svt ans (fv_pts frame) e))"

definition av1_flush ::
    "'c svt_encoder \<Rightarrow> mux_answers \<Rightarrow> 'c av1_encoder \<Rightarrow> (status \<times> 'c av1_encoder) option" where
  "av1_flush svt ans e =
     (if ae_closed e then Some (ok, e)
      else if ae_frames_in_sequence e = 0 then Some (ok, e)
      else (case av1_end_sequence svt ans e of
              None \<Rightarrow> None
            | Some (st, e') \<Rightarrow>
                if fst st \<noteq> MKVC_OK then Some (st, av1_destroy_codec e')
                else Some (av1_initialize_codec svt (av1_destroy_codec e'))))"

definition av1_close_encoder ::
    "'c svt_encoder \<Rightarrow> mux_answers \<Rightarrow> io_faults \<Rightarrow> disk \<Rightarrow> 'c av1_encoder \<Rightarrow>
     (status \<times> disk \<times> 'c av1_encoder) option" where
  "av1_close_encoder svt ans io d e =
     (if ae_closed e then Some (ok, d, e)
      else (case (if ae_codec_initialized e \<and> \<not> ae_eos_sent e then av1_end_sequence svt ans e else Some (ok, e)) of
              None \<Rightarrow> None
            | Some (ended, e) \<Rightarrow>
                let (st, d, m) = (case ae_muxer e of
                      None \<Rightarrow> (ended, d, None)
                    | Some m \<Rightarrow> if fst ended \<noteq> MKVC_OK then (ended, d, Some m)
                        else (case finalize_muxer (ma_finalizes ans m) io d m of (st, d, m) \<Rightarrow> (st, d, Some m)))
                in Some (st, d, (av1_destroy_codec (e\<lparr>ae_muxer := m\<rparr>))\<lparr>ae_closed := True\<rparr>)))"

end
