(* ===== verification/CpuEncoderFiles.thy ===== *)
theory CpuEncoderFiles
  imports CpuEncoders
begin

text \<open>
  What the software encoders write: an interface of encoders that log the frames they accept, its
  laws and the two encoders as its instances. Every frame of a successful run, in order and exactly
  once, is in the finalized file with the timestamp of its presentation index; the AV1 encoder's
  collecting loops end; a closed encoder refuses further frames.
\<close>

section \<open>Encoders that log their frames\<close>

datatype encoder_request = WriteFrame frame_view | FlushFrames

fun written_frames :: "encoder_request list \<Rightarrow> frame_view list" where
  "written_frames [] = []"
| "written_frames (WriteFrame f # rs) = f # written_frames rs"
| "written_frames (FlushFrames # rs) = written_frames rs"

text \<open>The state behind a run of calls that all succeed.\<close>

fun run_requests ::
    "(frame_view \<Rightarrow> 'e \<Rightarrow> (status \<times> 'e) option) \<Rightarrow> ('e \<Rightarrow> (status \<times> 'e) option) \<Rightarrow>
     encoder_request list \<Rightarrow> 'e \<Rightarrow> 'e option" where
  "run_requests wr fl [] e = Some e"
| "run_requests wr fl (r # rs) e =
     (case (case r of WriteFrame f \<Rightarrow> wr f e | FlushFrames \<Rightarrow> fl e) of
        None \<Rightarrow> None
      | Some (st, e') \<Rightarrow> if fst st = MKVC_OK then run_requests wr fl rs e' else None)"

text \<open>Timestamp and duration of the frame with an index, and of what the file holds.\<close>

definition stamp :: "frame_timing \<Rightarrow> i64 \<Rightarrow> u64 \<times> u64" where
  "stamp t pts = (to_nanoseconds pts t, duration_nanoseconds t)"

definition muxed_stamps :: "webm_muxer \<Rightarrow> (u64 \<times> u64) list" where
  "muxed_stamps m = map (\<lambda>f. (mf_timestamp_ns f, mf_duration_ns f)) (wm_frames m)"

lemma stamp_fun: "stamp t = (\<lambda>pts. (to_nanoseconds pts t, duration_nanoseconds t))"
  by (rule ext) (simp add: stamp_def)

lemma stamp_commit [simp]: "stamp (commit_pts p t) = stamp t"
  by (rule ext) (simp add: stamp_def commit_pts_def to_nanoseconds_def duration_nanoseconds_def)

text \<open>What the encoders promise their callers: a successful write logs the frame under the index
  its timing selects, a successful flush logs nothing. \<open>good n\<close>: the encoder can take \<open>n\<close> more.\<close>

locale frame_logger =
  fixes wr :: "frame_view \<Rightarrow> 'e \<Rightarrow> (status \<times> 'e) option"
    and fl :: "'e \<Rightarrow> (status \<times> 'e) option"
    and logged :: "'e \<Rightarrow> (u64 \<times> u64) list"
    and timing :: "'e \<Rightarrow> frame_timing"
    and good :: "nat \<Rightarrow> 'e \<Rightarrow> bool"
  assumes write_law: "good (Suc n) e \<Longrightarrow> wr f e = Some (st, e') \<Longrightarrow> fst st = MKVC_OK \<Longrightarrow>
      good n e' \<and> timing e' = commit_pts (select_pts (fv_pts f) (timing e)) (timing e) \<and>
      logged e' = logged e @ [stamp (timing e) (select_pts (fv_pts f) (timing e))]"
    and flush_law: "good n e \<Longrightarrow> fl e = Some (st, e') \<Longrightarrow> fst st = MKVC_OK \<Longrightarrow>
      good n e' \<and> timing e' = timing e \<and> logged e' = logged e"
begin

lemma run_law:
  "good (length (written_frames rs) + n) e \<Longrightarrow> run_requests wr fl rs e = Some e' \<Longrightarrow>
   good n e' \<and> stamp (timing e') = stamp (timing e) \<and>
   logged e' = logged e @ map (stamp (timing e)) (assign_pts (map fv_pts (written_frames rs)) (timing e))"
proof (induction rs arbitrary: e)
  case Nil
  then show ?case by simp
next
  case (Cons r rs)
  from Cons.prems(2) obtain st e1 where e1: "(case r of WriteFrame f \<Rightarrow> wr f e | FlushFrames \<Rightarrow> fl e) = Some (st, e1)"
      "fst st = MKVC_OK" "run_requests wr fl rs e1 = Some e'"
    by (auto split: option.splits if_splits prod.splits)
  show ?case
  proof (cases r)
    case (WriteFrame f)
    with e1 Cons.prems(1) write_law [of "length (written_frames rs) + n" e f st e1] Cons.IH [OF _ e1(3)]
    show ?thesis by simp
  next
    case FlushFrames
    with e1 Cons.prems(1) flush_law [of "length (written_frames rs) + n" e st e1] Cons.IH [OF _ e1(3)]
    show ?thesis by simp
  qed
qed

end

lemma mux_packet_ok:
  "mux_packet ans t data pts key m = (st, m') \<Longrightarrow> fst st = MKVC_OK \<Longrightarrow>
     muxed_stamps m' = muxed_stamps m @ [stamp t pts]"
  by (auto simp: mux_packet_def add_frame_def muxed_stamps_def stamp_def split: if_splits)

lemma finalize_muxer_ok:
  "finalize_muxer b io d m = (st, d', m') \<Longrightarrow>
     muxed_stamps m' = muxed_stamps m \<and> (fst st = MKVC_OK \<longrightarrow> wm_finalized m')"
  by (auto simp: finalize_muxer_def muxed_stamps_def Let_def split: if_splits prod.splits sum.splits)

lemma create_muxer_empty: "create_muxer setup path codec num den = Inr m \<Longrightarrow> muxed_stamps m = []"
  by (auto simp: create_muxer_def muxed_stamps_def split: if_splits sum.splits)

section \<open>The VP9 encoder's log\<close>

text \<open>libvpx, which is told not to look ahead: \<open>owed c\<close> are the indices of the accepted frames whose
  packet is still to come; packets come in the order of their frames, a flush brings all.\<close>

definition vpx_keeps :: "'c vpx_encoder \<Rightarrow> ('c \<Rightarrow> i64 list) \<Rightarrow> bool" where
  "vpx_keeps vpx owed \<longleftrightarrow>
     (\<forall>config c. xe_init vpx config = Inr c \<longrightarrow> owed c = []) \<and>
     (\<forall>c control. owed (snd (xe_control vpx c control)) = owed c) \<and>
     (\<forall>c img pts. fst (xe_encode vpx c (Some (img, pts))) \<longrightarrow>
        (let c' = snd (xe_encode vpx c (Some (img, pts)))
         in map xp_pts (filter xp_is_frame (xe_cx_data vpx c')) @ owed c' = owed c @ [pts])) \<and>
     (\<forall>c. fst (xe_encode vpx c None) \<longrightarrow>
        (let c' = snd (xe_encode vpx c None)
         in map xp_pts (filter xp_is_frame (xe_cx_data vpx c')) = owed c \<and> owed c' = []))"

definition vp9_logged :: "('c \<Rightarrow> i64 list) \<Rightarrow> 'c vp9_encoder \<Rightarrow> (u64 \<times> u64) list" where
  "vp9_logged owed e = muxed_stamps (ve_muxer e) @ map (stamp (ve_timing e)) (owed (ve_codec e))"

definition vp9_good :: "'c vpx_encoder \<Rightarrow> ('c \<Rightarrow> i64 list) \<Rightarrow> nat \<Rightarrow> 'c vp9_encoder \<Rightarrow> bool" where
  "vp9_good vpx owed n e \<longleftrightarrow> vpx_keeps vpx owed \<and> \<not> ve_closed e \<and> ve_codec_initialized e"

lemma vp9_collect_ok:
  "vp9_collect_packets ans ps e = (st, e') \<Longrightarrow> fst st = MKVC_OK \<Longrightarrow>
   \<exists>m. e' = e\<lparr>ve_muxer := m\<rparr> \<and>
     muxed_stamps m = muxed_stamps (ve_muxer e) @ map (stamp (ve_timing e)) (map xp_pts (filter xp_is_frame ps))"
proof (induction ans ps e rule: vp9_collect_packets.induct)
  case (1 ans e)
  then show ?case by (intro exI [of _ "ve_muxer e"]) simp
next
  case (2 ans p ps e)
  show ?case
  proof (cases "xp_is_frame p")
    case False
    then show ?thesis using 2 by simp
  next
    case True
    obtain st1 m1 where m1: "mux_packet ans (ve_timing e) (xp_data p) (xp_pts p) (xp_key p) (ve_muxer e) = (st1, m1)"
      by (cases "mux_packet ans (ve_timing e) (xp_data p) (xp_pts p) (xp_key p) (ve_muxer e)")
    have st1: "fst st1 = MKVC_OK" and rest: "vp9_collect_packets ans ps (e\<lparr>ve_muxer := m1\<rparr>) = (st, e')"
      using "2.prems" True m1 by (auto split: if_splits)
    have "\<exists>m. e' = e\<lparr>ve_muxer := m1\<rparr>\<lparr>ve_muxer := m\<rparr> \<and> muxed_stamps m =
        muxed_stamps (ve_muxer (e\<lparr>ve_muxer := m1\<rparr>)) @
        map (stamp (ve_timing (e\<lparr>ve_muxer := m1\<rparr>))) (map xp_pts (filter xp_is_frame ps))"
      using True st1 by (intro "2.IH"(2) [OF _ m1 [symmetric] _ rest "2.prems"(2)]) simp_all
    then show ?thesis using mux_packet_ok [OF m1 st1] True by auto
  qed
qed

lemma vp9_flush_codec_ok:
  assumes "vpx_keeps vpx owed" "vp9_flush_codec vpx ans e = (st, e')" "fst st = MKVC_OK"
  shows "vp9_logged owed e' = vp9_logged owed e \<and> owed (ve_codec e') = [] \<and> ve_timing e' = ve_timing e \<and>
    ve_closed e' = ve_closed e \<and> ve_codec_initialized e' = ve_codec_initialized e"
proof -
  obtain accepted c where enc: "xe_encode vpx (ve_codec e) None = (accepted, c)"
    by (cases "xe_encode vpx (ve_codec e) None")
  have acc: "accepted" and col: "vp9_collect_packets ans (xe_cx_data vpx c) (e\<lparr>ve_codec := c\<rparr>) = (st, e')"
    using assms(2,3) enc by (auto simp: vp9_flush_codec_def vp9_codec_error_def Let_def split: if_splits)
  have owed: "map xp_pts (filter xp_is_frame (xe_cx_data vpx c)) = owed (ve_codec e)" "owed c = []"
    using assms(1) enc acc unfolding vpx_keeps_def Let_def by (metis fst_conv snd_conv)+
  from vp9_collect_ok [OF col assms(3)] obtain m where "e' = e\<lparr>ve_codec := c, ve_muxer := m\<rparr>"
      "muxed_stamps m = muxed_stamps (ve_muxer e) @ map (stamp (ve_timing e)) (owed (ve_codec e))"
    using owed by auto
  then show ?thesis using owed by (simp add: vp9_logged_def)
qed

lemma vp9_write_ok:
  assumes "vp9_good vpx owed (Suc n) e" "vp9_write vpx ans yuv f e = Some (st, e')" "fst st = MKVC_OK"
  shows "vp9_good vpx owed n e' \<and> ve_timing e' = commit_pts (select_pts (fv_pts f) (ve_timing e)) (ve_timing e) \<and>
    vp9_logged owed e' = vp9_logged owed e @ [stamp (ve_timing e) (select_pts (fv_pts f) (ve_timing e))]"
proof -
  let ?pts = "select_pts (fv_pts f) (ve_timing e)"
  note good = assms(1) [unfolded vp9_good_def]
  obtain conversion buffer where conv:
      "convert_cpu_frame_to_i420 yuv f (ve_width e) (ve_height e) (ve_image e) (Some ''VP9'') = Some (conversion, buffer)"
      "fst conversion = MKVC_OK" "vp9_encode_frame vpx ans (fv_pts f) (e\<lparr>ve_image := buffer\<rparr>) = (st, e')"
    using assms(2,3) good by (auto simp: vp9_write_def Let_def split: if_splits option.splits)
  obtain accepted c where enc: "xe_encode vpx (ve_codec e) (Some (buffer, ?pts)) = (accepted, c)"
    by (cases "xe_encode vpx (ve_codec e) (Some (buffer, ?pts))")
  have acc: "accepted" and col: "vp9_collect_packets ans (xe_cx_data vpx c)
      (e\<lparr>ve_image := buffer, ve_codec := c, ve_timing := commit_pts ?pts (ve_timing e)\<rparr>) = (st, e')"
    using conv(3) assms(3) enc by (auto simp: vp9_encode_frame_def vp9_codec_error_def Let_def split: if_splits)
  have owed: "map xp_pts (filter xp_is_frame (xe_cx_data vpx c)) @ owed c = owed (ve_codec e) @ [?pts]"
    using good enc acc unfolding vpx_keeps_def Let_def by (metis fst_conv snd_conv)
  from vp9_collect_ok [OF col assms(3)] obtain m where
      e': "e' = e\<lparr>ve_image := buffer, ve_codec := c, ve_timing := commit_pts ?pts (ve_timing e), ve_muxer := m\<rparr>"
    and m: "muxed_stamps m = muxed_stamps (ve_muxer e) @ map (stamp (ve_timing e)) (map xp_pts (filter xp_is_frame (xe_cx_data vpx c)))"
    by auto
  have "map (stamp (ve_timing e)) (map xp_pts (filter xp_is_frame (xe_cx_data vpx c))) @ map (stamp (ve_timing e)) (owed c) =
      map (stamp (ve_timing e)) (owed (ve_codec e)) @ [stamp (ve_timing e) ?pts]"
    using arg_cong [OF owed, of "map (stamp (ve_timing e))"] by simp
  then show ?thesis using good by (simp add: e' m vp9_logged_def vp9_good_def)
qed

interpretation vp9: frame_logger "vp9_write vpx ans yuv" "\<lambda>e. Some (vp9_flush vpx ans e)"
    "vp9_logged owed" ve_timing "vp9_good vpx owed"
proof (unfold_locales, goal_cases)
  case (1 n e f st e')
  then show ?case by (rule vp9_write_ok)
next
  case (2 n e st e')
  then show ?case using vp9_flush_codec_ok [of vpx owed ans e st e'] by (simp add: vp9_good_def vp9_flush_def)
qed


section \<open>The AV1 encoder's log\<close>

text \<open>SVT-AV1: \<open>pending c\<close> are the indices of the pictures it was sent and has not returned, \<open>ending c\<close>
  holds from the end of the stream until its last packet is taken, \<open>left c\<close> bounds the packets it
  can return. Packets come in the order of their pictures; those without data stand for none. Asked
  without draining it may report an empty queue at any time, while it drains it waits instead.\<close>

definition svt_keeps ::
    "'c svt_encoder \<Rightarrow> ('c \<Rightarrow> i64 list) \<Rightarrow> ('c \<Rightarrow> bool) \<Rightarrow> ('c \<Rightarrow> nat) \<Rightarrow> bool" where
  "svt_keeps svt pending ending left \<longleftrightarrow>
     (\<forall>c. sv_init_handle svt = Some c \<longrightarrow> pending c = [] \<and> \<not> ending c) \<and>
     (\<forall>c config. let c' = snd (sv_set_parameter svt c config) in pending c' = pending c \<and> ending c' = ending c) \<and>
     (\<forall>c. let c' = snd (sv_init svt c) in pending c' = pending c \<and> ending c' = ending c) \<and>
     (\<forall>c picture. fst (sv_send_picture svt c (Some picture)) \<longrightarrow>
        (let c' = snd (sv_send_picture svt c (Some picture))
         in pending c' = pending c @ [si_pts picture] \<and> ending c' = ending c)) \<and>
     (\<forall>c. fst (sv_send_picture svt c None) \<longrightarrow>
        (let c' = snd (sv_send_picture svt c None) in pending c' = pending c \<and> ending c')) \<and>
     (\<forall>c drain. case sv_get_packet svt c drain of (answer, c') \<Rightarrow>
        (case answer of
           EmptyQueue \<Rightarrow> \<not> (drain \<and> ending c) \<and> pending c' = pending c \<and> ending c' = ending c
         | PacketError \<Rightarrow> True
         | GotPacket p \<Rightarrow> left c' < left c \<and>
             pending c = (if sp_data p = [] then pending c' else sp_pts p # pending c') \<and>
             (if sp_eos p then ending c \<and> \<not> ending c' \<and> pending c' = [] else ending c' = ending c)))"

lemma svt_get_packet_law:
  "svt_keeps svt pending ending left \<Longrightarrow> sv_get_packet svt c drain = (answer, c') \<Longrightarrow>
     (case answer of
        EmptyQueue \<Rightarrow> \<not> (drain \<and> ending c) \<and> pending c' = pending c \<and> ending c' = ending c
      | PacketError \<Rightarrow> True
      | GotPacket p \<Rightarrow> left c' < left c \<and>
          pending c = (if sp_data p = [] then pending c' else sp_pts p # pending c') \<and>
          (if sp_eos p then ending c \<and> \<not> ending c' \<and> pending c' = [] else ending c' = ending c))"
  unfolding svt_keeps_def
  by (drule conjunct2, drule conjunct2, drule conjunct2, drule conjunct2, drule conjunct2,
      drule spec [of _ c], drule spec [of _ drain]) simp

lemma svt_configure_law:
  assumes "svt_keeps svt pending ending left"
  shows "pending (snd (sv_set_parameter svt c config)) = pending c \<and> ending (snd (sv_set_parameter svt c config)) = ending c"
    and "pending (snd (sv_init svt c)) = pending c \<and> ending (snd (sv_init svt c)) = ending c"
  using assms unfolding svt_keeps_def Let_def by blast+

lemma svt_send_law:
  assumes "svt_keeps svt pending ending left"
  shows "sv_send_picture svt c (Some picture) = (True, c') \<Longrightarrow> pending c' = pending c @ [si_pts picture] \<and> ending c' = ending c"
    and "sv_send_picture svt c None = (True, c') \<Longrightarrow> pending c' = pending c \<and> ending c'"
  using assms unfolding svt_keeps_def Let_def by (metis fst_conv snd_conv)+

text \<open>The collecting loop returns, and if it succeeds it has moved packets from the codec into the
  file, all of them when it drained.\<close>

lemma av1_collect_returns:
  assumes "svt_keeps svt pending ending left"
    and "ae_codec e = Some c" "ae_muxer e = Some m" "ending c = drain"
  shows "\<exists>st c' m'. av1_collect_packets svt ans drain e = Some (st, e\<lparr>ae_codec := Some c', ae_muxer := Some m'\<rparr>) \<and>
    (fst st = MKVC_OK \<longrightarrow> \<not> ending c' \<and> (drain \<longrightarrow> pending c' = []) \<and>
       muxed_stamps m' @ map (stamp (ae_timing e)) (pending c') = muxed_stamps m @ map (stamp (ae_timing e)) (pending c))"
  using assms(2-4)
proof (induction "left c" arbitrary: c m e rule: less_induct)
  case less
  obtain answer c1 where get: "sv_get_packet svt c drain = (answer, c1)" by (cases "sv_get_packet svt c drain")
  note law = svt_get_packet_law [OF assms(1) get]
  have same: "e\<lparr>ae_codec := Some c1, ae_muxer := Some m\<rparr> = e\<lparr>ae_codec := Some c1\<rparr>"
    using less.prems(2) by (cases e) simp
  show ?case
  proof (cases answer)
    case EmptyQueue
    then have "av1_collect_packets svt ans drain e = Some (ok, e\<lparr>ae_codec := Some c1, ae_muxer := Some m\<rparr>)"
      by (subst av1_collect_packets.simps) (use less.prems get same in simp)
    then show ?thesis using law EmptyQueue less.prems(3) by (intro exI) auto
  next
    case PacketError
    then have "av1_collect_packets svt ans drain e = Some ((MKVC_ERROR_CODEC, ''SVT-AV1 failed to return an encoded packet''),
        e\<lparr>ae_codec := Some c1, ae_muxer := Some m\<rparr>)"
      by (subst av1_collect_packets.simps) (use less.prems get same in simp)
    then show ?thesis by (intro exI conjI) auto
  next
    case (GotPacket p)
    have next_packet: "\<exists>st c' m'. av1_collect_packets svt ans drain (e\<lparr>ae_codec := Some c1, ae_muxer := Some m1\<rparr>) =
          Some (st, e\<lparr>ae_codec := Some c', ae_muxer := Some m'\<rparr>) \<and>
        (fst st = MKVC_OK \<longrightarrow> \<not> ending c' \<and> (drain \<longrightarrow> pending c' = []) \<and>
           muxed_stamps m' @ map (stamp (ae_timing e)) (pending c') =
           muxed_stamps m1 @ map (stamp (ae_timing e)) (pending c1))"
      if "\<not> sp_eos p" for m1
      using less.hyps [of c1 "e\<lparr>ae_codec := Some c1, ae_muxer := Some m1\<rparr>" m1] law GotPacket that less.prems(3) by simp
    show ?thesis
    proof (cases "sp_data p = []")
      case True
      show ?thesis
      proof (cases "sp_eos p")
        case True
        then have "av1_collect_packets svt ans drain e = Some (ok, e\<lparr>ae_codec := Some c1, ae_muxer := Some m\<rparr>)"
          by (subst av1_collect_packets.simps) (use less.prems get same GotPacket \<open>sp_data p = []\<close> in simp)
        then show ?thesis using law GotPacket True \<open>sp_data p = []\<close> by (intro exI) auto
      next
        case False
        then have "av1_collect_packets svt ans drain e =
            av1_collect_packets svt ans drain (e\<lparr>ae_codec := Some c1, ae_muxer := Some m\<rparr>)"
          unfolding same
          by (subst av1_collect_packets.simps) (use less.prems get GotPacket \<open>sp_data p = []\<close> in simp)
        with next_packet [OF False, of m] show ?thesis using law GotPacket True by simp
      qed
    next
      case False
      obtain st1 m1 where mux: "mux_packet ans (ae_timing e) (sp_data p) (sp_pts p)
          (sp_picture p = KeyPicture \<or> sp_picture p = IntraOnlyPicture) m = (st1, m1)" by fastforce
      show ?thesis
      proof (cases "fst st1 = MKVC_OK")
        case refused: False
        then have "av1_collect_packets svt ans drain e = Some (st1, e\<lparr>ae_codec := Some c1, ae_muxer := Some m1\<rparr>)"
          by (subst av1_collect_packets.simps) (use less.prems get GotPacket False mux in simp)
        then show ?thesis using refused by (intro exI conjI) auto
      next
        case muxed: True
        note stamps = mux_packet_ok [OF mux muxed]
        show ?thesis
        proof (cases "sp_eos p")
          case True
          then have "av1_collect_packets svt ans drain e = Some (ok, e\<lparr>ae_codec := Some c1, ae_muxer := Some m1\<rparr>)"
            by (subst av1_collect_packets.simps) (use less.prems get GotPacket False mux muxed in simp)
          then show ?thesis using law GotPacket True False stamps by (intro exI) auto
        next
          case more: False
          then have "av1_collect_packets svt ans drain e =
              av1_collect_packets svt ans drain (e\<lparr>ae_codec := Some c1, ae_muxer := Some m1\<rparr>)"
            by (subst av1_collect_packets.simps) (use less.prems get GotPacket False mux muxed in simp)
          with next_packet [OF more, of m1] show ?thesis using law GotPacket False stamps by simp
        qed
      qed
    qed
  qed
qed


definition av1_logged :: "('c \<Rightarrow> i64 list) \<Rightarrow> 'c av1_encoder \<Rightarrow> (u64 \<times> u64) list" where
  "av1_logged pending e =
     (case ae_muxer e of None \<Rightarrow> [] | Some m \<Rightarrow> muxed_stamps m) @
     map (stamp (ae_timing e)) (case ae_codec e of None \<Rightarrow> [] | Some c \<Rightarrow> pending c)"

text \<open>An open encoder between calls; the count of frames since the last flush does not wrap.\<close>

definition av1_good ::
    "'c svt_encoder \<Rightarrow> ('c \<Rightarrow> i64 list) \<Rightarrow> ('c \<Rightarrow> bool) \<Rightarrow> ('c \<Rightarrow> nat) \<Rightarrow> nat \<Rightarrow> 'c av1_encoder \<Rightarrow> bool" where
  "av1_good svt pending ending left n e \<longleftrightarrow> svt_keeps svt pending ending left \<and> \<not> ae_closed e \<and> \<not> ae_eos_sent e \<and>
     ae_codec_initialized e \<and> unat (ae_frames_in_sequence e) + n < 18446744073709551616 \<and>
     (\<exists>c m. ae_codec e = Some c \<and> ae_muxer e = Some m \<and> \<not> ending c \<and>
        (ae_frames_in_sequence e = 0 \<longrightarrow> pending c = []))"

text \<open>A write returns whenever the conversion of its frame does.\<close>

lemma av1_encode_frame_returns:
  assumes "av1_good svt pending ending left n e"
  shows "\<exists>st e'. av1_encode_frame svt ans requested e = Some (st, e') \<and>
    (fst st = MKVC_OK \<longrightarrow> (\<exists>k. n = Suc k) \<longrightarrow>
       av1_good svt pending ending left (n - 1) e' \<and>
       ae_timing e' = commit_pts (select_pts requested (ae_timing e)) (ae_timing e) \<and>
       av1_logged pending e' = av1_logged pending e @ [stamp (ae_timing e) (select_pts requested (ae_timing e))])"
proof -
  let ?pts = "select_pts requested (ae_timing e)"
  obtain c m where e: "svt_keeps svt pending ending left" "ae_codec e = Some c" "ae_muxer e = Some m" "\<not> ending c"
      "\<not> ae_closed e" "\<not> ae_eos_sent e" "ae_codec_initialized e"
      "unat (ae_frames_in_sequence e) + n < 18446744073709551616"
    using assms by (auto simp: av1_good_def)
  obtain accepted c1 where send: "sv_send_picture svt c (Some (av1_input e ?pts)) = (accepted, c1)"
    by (cases "sv_send_picture svt c (Some (av1_input e ?pts))")
  show ?thesis
  proof (cases accepted)
    case False
    then show ?thesis using e send by (simp add: av1_encode_frame_def Let_def)
  next
    case True
    have c1: "pending c1 = pending c @ [?pts]" "\<not> ending c1"
      using svt_send_law(1) [OF e(1), of c "av1_input e ?pts" c1] send True e(4) by (simp_all add: av1_input_def Let_def)
    let ?e = "e\<lparr>ae_codec := Some c1, ae_timing := commit_pts ?pts (ae_timing e),
      ae_frames_in_sequence := ae_frames_in_sequence e + 1\<rparr>"
    obtain st c2 m2 where col: "av1_collect_packets svt ans False ?e = Some (st, ?e\<lparr>ae_codec := Some c2, ae_muxer := Some m2\<rparr>)"
        "fst st = MKVC_OK \<longrightarrow> \<not> ending c2 \<and>
           muxed_stamps m2 @ map (stamp (ae_timing e)) (pending c2) =
           muxed_stamps m @ map (stamp (ae_timing e)) (pending c1)"
      using av1_collect_returns [OF e(1), of ?e c1 m False ans] c1 e(3) by auto
    have run: "av1_encode_frame svt ans requested e = Some (st, ?e\<lparr>ae_codec := Some c2, ae_muxer := Some m2\<rparr>)"
      using e send True col(1) by (simp add: av1_encode_frame_def Let_def)
    have "av1_good svt pending ending left k (?e\<lparr>ae_codec := Some c2, ae_muxer := Some m2\<rparr>)"
      if "fst st = MKVC_OK" "n = Suc k" for k
    proof -
      have "unat (ae_frames_in_sequence e + 1) = unat (ae_frames_in_sequence e) + 1"
        using e(8) that(2) by (simp add: unat_word_ariths)
      moreover from this have "ae_frames_in_sequence e + 1 \<noteq> 0" by (metis add_is_0 one_neq_zero unat_0)
      ultimately show ?thesis using e col(2) that by (simp add: av1_good_def)
    qed
    moreover have "av1_logged pending (?e\<lparr>ae_codec := Some c2, ae_muxer := Some m2\<rparr>) =
        av1_logged pending e @ [stamp (ae_timing e) ?pts]" if "fst st = MKVC_OK"
      using col(2) that e c1 by (simp add: av1_logged_def)
    ultimately show ?thesis using run by auto
  qed
qed

text \<open>Ending a sequence returns; if it succeeds nothing is pending.\<close>

lemma av1_end_sequence_returns:
  assumes "av1_good svt pending ending left n e"
  shows "\<exists>st c m f. av1_end_sequence svt ans e = Some (st, e\<lparr>ae_codec := Some c, ae_muxer := Some m, ae_eos_sent := f\<rparr>) \<and>
    (fst st = MKVC_OK \<longrightarrow> pending c = [] \<and>
       muxed_stamps m = av1_logged pending e)"
proof -
  obtain c m where e: "svt_keeps svt pending ending left" "ae_codec e = Some c" "ae_muxer e = Some m" "\<not> ending c"
      "\<not> ae_closed e" "\<not> ae_eos_sent e" "ae_codec_initialized e" "ae_frames_in_sequence e = 0 \<longrightarrow> pending c = []"
    using assms by (auto simp: av1_good_def)
  have same: "e\<lparr>ae_codec := Some c, ae_muxer := Some m, ae_eos_sent := False\<rparr> = e" using e by (cases e) simp
  show ?thesis
  proof (cases "ae_frames_in_sequence e = 0")
    case True
    then have "av1_end_sequence svt ans e = Some (ok, e\<lparr>ae_codec := Some c, ae_muxer := Some m, ae_eos_sent := False\<rparr>)"
      unfolding same by (simp add: av1_end_sequence_def)
    then show ?thesis using e True by (intro exI conjI) (assumption, simp add: av1_logged_def)
  next
    case False
    obtain accepted c1 where send: "sv_send_picture svt c None = (accepted, c1)" by (cases "sv_send_picture svt c None")
    show ?thesis
    proof (cases accepted)
      case refused: False
      have "av1_end_sequence svt ans e = Some ((MKVC_ERROR_CODEC, ''SVT-AV1 rejected end-of-stream''),
          e\<lparr>ae_codec := Some c1, ae_muxer := Some m, ae_eos_sent := False\<rparr>)"
        using e False send refused by (cases e) (simp add: av1_end_sequence_def)
      then show ?thesis by (intro exI conjI) (assumption, simp)
    next
      case True
      have c1: "pending c1 = pending c" "ending c1" using svt_send_law(2) [OF e(1)] send True by auto
      let ?e = "e\<lparr>ae_codec := Some c1, ae_eos_sent := True\<rparr>"
      obtain st c2 m2 where col: "av1_collect_packets svt ans True ?e = Some (st, ?e\<lparr>ae_codec := Some c2, ae_muxer := Some m2\<rparr>)"
          "fst st = MKVC_OK \<longrightarrow> pending c2 = [] \<and>
             muxed_stamps m2 @ map (stamp (ae_timing e)) (pending c2) = muxed_stamps m @ map (stamp (ae_timing e)) (pending c1)"
        using av1_collect_returns [OF e(1), of ?e c1 m True ans] c1 e(3) by auto
      have "?e\<lparr>ae_codec := Some c2, ae_muxer := Some m2\<rparr> = e\<lparr>ae_codec := Some c2, ae_muxer := Some m2, ae_eos_sent := True\<rparr>"
        by (cases e) simp
      with col(1) have "av1_end_sequence svt ans e = Some (st, e\<lparr>ae_codec := Some c2, ae_muxer := Some m2, ae_eos_sent := True\<rparr>)"
        using e False send True by (simp add: av1_end_sequence_def)
      then show ?thesis using col(2) e c1 by (intro exI conjI) (assumption, auto simp: av1_logged_def)
    qed
  qed
qed

lemma av1_initialize_ok:
  assumes "svt_keeps svt pending ending left" "av1_initialize_codec svt e = (st, e')" "fst st = MKVC_OK"
  shows "\<exists>c. e' = e\<lparr>ae_codec := Some c, ae_codec_initialized := True, ae_eos_sent := False, ae_frames_in_sequence := 0\<rparr> \<and>
    pending c = [] \<and> \<not> ending c"
proof -
  obtain c0 where c0: "sv_init_handle svt = Some c0"
    using assms(2,3) by (auto simp: av1_initialize_codec_def split: option.splits)
  obtain b1 c1 where c1: "sv_set_parameter svt c0 (av1_codec_config e) = (b1, c1)" by fastforce
  obtain b2 c2 where c2: "sv_init svt c1 = (b2, c2)" by fastforce
  have "pending c0 = [] \<and> \<not> ending c0" using assms(1) c0 by (simp add: svt_keeps_def)
  moreover have "pending c1 = pending c0 \<and> ending c1 = ending c0"
    using svt_configure_law(1) [OF assms(1), of c0 "av1_codec_config e"] c1 by simp
  moreover have "pending c2 = pending c1 \<and> ending c2 = ending c1"
    using svt_configure_law(2) [OF assms(1), of c1] c2 by simp
  moreover have "e' = e\<lparr>ae_codec := Some c2, ae_codec_initialized := True, ae_eos_sent := False, ae_frames_in_sequence := 0\<rparr>"
    using assms(2,3) c0 c1 c2 by (auto simp: av1_initialize_codec_def Let_def split: if_splits)
  ultimately show ?thesis by (intro exI [of _ c2]) simp
qed


lemma av1_write_ok:
  assumes "av1_good svt pending ending left (Suc n) e" "av1_write svt ans yuv f e = Some (st, e')" "fst st = MKVC_OK"
  shows "av1_good svt pending ending left n e' \<and>
    ae_timing e' = commit_pts (select_pts (fv_pts f) (ae_timing e)) (ae_timing e) \<and>
    av1_logged pending e' = av1_logged pending e @ [stamp (ae_timing e) (select_pts (fv_pts f) (ae_timing e))]"
proof -
  obtain conversion buffer where encode: "fst conversion = MKVC_OK"
      "av1_encode_frame svt ans (fv_pts f) (e\<lparr>ae_image := buffer\<rparr>) = Some (st, e')"
    using assms by (auto simp: av1_write_def av1_good_def Let_def split: if_splits option.splits)
  have "av1_good svt pending ending left (Suc n) (e\<lparr>ae_image := buffer\<rparr>)"
    using assms(1) by (simp add: av1_good_def)
  moreover have "av1_logged pending (e\<lparr>ae_image := buffer\<rparr>) = av1_logged pending e" by (simp add: av1_logged_def)
  ultimately show ?thesis
    using av1_encode_frame_returns [of svt pending ending left "Suc n" "e\<lparr>ae_image := buffer\<rparr>" ans "fv_pts f"]
      encode assms(3) by simp
qed

lemma av1_flush_ok:
  assumes "av1_good svt pending ending left n e" "av1_flush svt ans e = Some (st, e')" "fst st = MKVC_OK"
  shows "av1_good svt pending ending left n e' \<and> ae_timing e' = ae_timing e \<and> av1_logged pending e' = av1_logged pending e"
proof (cases "ae_frames_in_sequence e = 0")
  case True
  then show ?thesis using assms by (auto simp: av1_flush_def av1_good_def)
next
  case False
  note good = assms(1) [unfolded av1_good_def]
  from av1_end_sequence_returns [OF assms(1), of ans] obtain st1 c m f where
    ended: "av1_end_sequence svt ans e = Some (st1, e\<lparr>ae_codec := Some c, ae_muxer := Some m, ae_eos_sent := f\<rparr>)"
      "fst st1 = MKVC_OK \<longrightarrow> pending c = [] \<and> muxed_stamps m = av1_logged pending e" by blast
  have st1: "fst st1 = MKVC_OK" using assms(2,3) ended(1) good False by (auto simp: av1_flush_def split: if_splits)
  let ?e = "av1_destroy_codec (e\<lparr>ae_codec := Some c, ae_muxer := Some m, ae_eos_sent := f\<rparr>)"
  have "av1_initialize_codec svt ?e = (st, e')"
    using assms(2) ended(1) st1 good False by (simp add: av1_flush_def)
  from av1_initialize_ok [OF _ this assms(3)] good obtain c2 where
    "e' = ?e\<lparr>ae_codec := Some c2, ae_codec_initialized := True, ae_eos_sent := False, ae_frames_in_sequence := 0\<rparr>"
    "pending c2 = []" "\<not> ending c2" by blast
  then show ?thesis using ended(2) st1 good by (auto simp: av1_destroy_codec_def av1_good_def av1_logged_def)
qed

interpretation av1: frame_logger "av1_write svt ans yuv" "av1_flush svt ans"
    "av1_logged pending" ae_timing "av1_good svt pending ending left"
  by unfold_locales (rule av1_write_ok av1_flush_ok; assumption)+

section \<open>Whole files\<close>

lemma vp9_encoder_created:
  assumes "vp9_create_encoder vpx hardware_threads setup config = Inr e" "vpx_keeps vpx owed"
  shows "vp9_good vpx owed n e \<and> vp9_logged owed e = [] \<and>
    ve_timing e = configure (ec_fps_num config) (ec_fps_den config) initial_timing"
proof -
  obtain c m where c: "vp9_initialize_codec vpx hardware_threads config = Inr c"
    and m: "create_muxer setup (ec_output_path config) MKVC_CODEC_VP9 (ec_fps_num config) (ec_fps_den config) = Inr m"
    and e: "ve_codec e = c" "ve_muxer e = m" "\<not> ve_closed e" "ve_codec_initialized e"
      "ve_timing e = configure (ec_fps_num config) (ec_fps_den config) initial_timing"
    using assms(1) by (auto simp: vp9_create_encoder_def split: sum.splits)
  have keep: "xe_control vpx x control = (b, y) \<Longrightarrow> owed y = owed x" for x control b y
    using assms(2) unfolding vpx_keeps_def by (metis snd_conv)
  obtain c0 where c0: "xe_init vpx (vp9_codec_config hardware_threads config) = Inr c0"
    using c by (auto simp: vp9_initialize_codec_def split: if_splits sum.splits)
  obtain b1 c1 b2 c2 b3 c3 where controls: "xe_control vpx c0 (SetCpuUsed 6) = (b1, c1)"
      "xe_control vpx c1 (SetCqLevel (sint (ec_quality config))) = (b2, c2)" "xe_control vpx c2 (SetRowMt 1) = (b3, c3)"
    by (metis surj_pair)
  have "c = c3" using c c0 controls by (auto simp: vp9_initialize_codec_def Let_def split: if_splits)
  then have "owed c = owed c0" using controls keep by metis
  also have "owed c0 = []" using assms(2) c0 by (simp add: vpx_keeps_def)
  finally show ?thesis using assms(2) e create_muxer_empty [OF m] by (simp add: vp9_good_def vp9_logged_def)
qed

lemma av1_encoder_created:
  assumes "av1_create_encoder svt setup config = Inr e" "svt_keeps svt pending ending left"
    and "n < 18446744073709551616"
  shows "av1_good svt pending ending left n e \<and> av1_logged pending e = [] \<and>
    ae_timing e = configure (ec_fps_num config) (ec_fps_den config) initial_timing"
proof -
  obtain st e0 m where e0: "av1_initialize_codec svt (new_av1_encoder config) = (st, e0)" "fst st = MKVC_OK"
    and m: "create_muxer setup (ec_output_path config) MKVC_CODEC_AV1 (ec_fps_num config) (ec_fps_den config) = Inr m"
    and e: "e = e0\<lparr>ae_muxer := Some m, ae_image := replicate (unat (staging_size (ec_width config) (ec_height config))) 0\<rparr>"
    using assms(1) by (auto simp: av1_create_encoder_def split: sum.splits prod.splits if_splits)
  from av1_initialize_ok [OF assms(2) e0] obtain c where
    "e0 = (new_av1_encoder config)\<lparr>ae_codec := Some c, ae_codec_initialized := True, ae_eos_sent := False, ae_frames_in_sequence := 0\<rparr>"
    "pending c = []" "\<not> ending c" by blast
  then show ?thesis using assms(2,3) create_muxer_empty [OF m]
    by (simp add: e new_av1_encoder_def av1_good_def av1_logged_def)
qed

text \<open>C36. The VP9 encoder writes what it was given: after any sequence of successful writes and flushes,
  a close that succeeds leaves a finalized file holding one packet per written frame, in order,
  each with the nanosecond timestamp of the frame's presentation index (its own or the next free one)
  and the frame duration; from then on every write is refused without touching the encoder.\<close>

theorem vp9_encoder_file:
  assumes "vpx_keeps vpx owed" and "vp9_create_encoder vpx hardware_threads setup config = Inr e0"
    and "run_requests (vp9_write vpx ans yuv) (\<lambda>e. Some (vp9_flush vpx ans e)) rs e0 = Some e"
    and "vp9_close_encoder vpx ans io d e = (st, d', e')" and "fst st = MKVC_OK"
  shows "wm_finalized (ve_muxer e') \<and>
    map (\<lambda>f. (mf_timestamp_ns f, mf_duration_ns f)) (wm_frames (ve_muxer e')) =
      map (\<lambda>pts. (to_nanoseconds pts (ve_timing e0), duration_nanoseconds (ve_timing e0)))
        (assign_pts (map fv_pts (written_frames rs)) (configure (ec_fps_num config) (ec_fps_den config) initial_timing)) \<and>
    (\<forall>frame. vp9_write vpx ans yuv frame e' = Some ((MKVC_ERROR_INVALID_STATE, ''encoder is closed''), e'))"
proof -
  note start = vp9_encoder_created [OF assms(2,1)]
  have run: "vp9_good vpx owed 0 e" "vp9_logged owed e = map (stamp (ve_timing e0)) (assign_pts (map fv_pts (written_frames rs)) (ve_timing e0))"
    using vp9.run_law [OF _ assms(3), of owed 0] start [of "length (written_frames rs)"] by simp_all
  obtain flushed e1 where flush: "vp9_flush vpx ans e = (flushed, e1)" by (cases "vp9_flush vpx ans e")
  obtain st2 d2 m where fin: "finalize_muxer (ma_finalizes ans (ve_muxer e1)) io d (ve_muxer e1) = (st2, d2, m)"
    by (cases "finalize_muxer (ma_finalizes ans (ve_muxer e1)) io d (ve_muxer e1)")
  have flushed: "fst flushed = MKVC_OK" and e': "st = st2" "e' = (vp9_destroy_codec (e1\<lparr>ve_muxer := m\<rparr>))\<lparr>ve_closed := True\<rparr>"
    using assms(4,5) run(1) flush fin by (auto simp: vp9_close_encoder_def vp9_good_def split: if_splits)
  have "vp9_flush_codec vpx ans e = (flushed, e1)" using flush run(1) by (simp add: vp9_flush_def vp9_good_def)
  from vp9_flush_codec_ok [OF assms(1) this flushed] have "muxed_stamps (ve_muxer e1) = vp9_logged owed e"
    by (auto simp: vp9_logged_def)
  then show ?thesis
    using finalize_muxer_ok [OF fin] e' assms(5) run(2) start
    by (simp add: muxed_stamps_def vp9_destroy_codec_def vp9_write_def stamp_fun)
qed



section \<open>Witnesses\<close>

text \<open>Small codecs: libvpx with a packet of statistics beside it, SVT-AV1
  one frame late unless it drains, with an empty packet that ends the stream.\<close>

definition direct_vpx :: "vpx_packet list vpx_encoder" where
  "direct_vpx = \<lparr>xe_default_config = True, xe_init = (\<lambda>_. Inr []), xe_control = (\<lambda>c _. (True, c)),
     xe_wraps = (\<lambda>_ _. True),
     xe_encode = (\<lambda>c input. (True, case input of None \<Rightarrow> []
       | Some (img, pts) \<Rightarrow> [\<lparr>xp_is_frame = False, xp_data = [], xp_pts = 0, xp_key = False\<rparr>,
                            \<lparr>xp_is_frame = True, xp_data = take 1 img, xp_pts = pts, xp_key = True\<rparr>])),
     xe_cx_data = (\<lambda>c. c), xe_error = (\<lambda>_. []), xe_error_detail = (\<lambda>_. None)\<rparr>"

definition queue_svt :: "(i64 list \<times> bool) svt_encoder" where
  "queue_svt = \<lparr>sv_init_handle = Some ([], False), sv_set_parameter = (\<lambda>c _. (True, c)), sv_init = (\<lambda>c. (True, c)),
     sv_send_picture = (\<lambda>(ps, ended) input. if ended then (False, (ps, ended)) else (True, case input of
         None \<Rightarrow> (ps, True) | Some picture \<Rightarrow> (ps @ [si_pts picture], False))),
     sv_get_packet = (\<lambda>(ps, ended) drain. case ps of
         p # rest \<Rightarrow> if drain \<or> rest \<noteq> []
           then (GotPacket \<lparr>sp_data = [1], sp_pts = p, sp_picture = KeyPicture, sp_eos = False\<rparr>, (rest, ended))
           else (EmptyQueue, (ps, ended))
       | [] \<Rightarrow> if ended
           then (GotPacket \<lparr>sp_data = [], sp_pts = 0, sp_picture = OtherPicture, sp_eos = True\<rparr>, ([], False))
           else (EmptyQueue, ([], ended)))\<rparr>"

definition willing_libwebm :: mux_answers where
  "willing_libwebm = \<lparr>ma_copied = (\<lambda>_. True), ma_added = (\<lambda>_. True), ma_finalizes = (\<lambda>_. True)\<rparr>"

lemma direct_vpx_keeps: "vpx_keeps direct_vpx (\<lambda>_. [])"
  by (simp add: vpx_keeps_def direct_vpx_def)

definition tiny_encoder_config :: encoder_config where
  "tiny_encoder_config = \<lparr>ec_struct_size = 56, ec_struct_version = 1, ec_output_path = Some ''a.webm'',
     ec_codec = 1, ec_backend = 1, ec_width = 2, ec_height = 2, ec_fps_num = 25, ec_fps_den = 1,
     ec_quality = 32, ec_keyframe_interval_frames = 0, ec_threads = 0, ec_queue_size = 2\<rparr>"

definition two_frames :: "encoder_request list" where
  "two_frames = [WriteFrame sample_i420, FlushFrames, WriteFrame (sample_i420\<lparr>fv_pts := - 1\<rparr>)]"

lemma convert_sample:
  assumes "length i420 = 6"
  shows "convert_cpu_frame_to_i420 no_libyuv (sample_i420\<lparr>fv_pts := p\<rparr>) 2 2 i420 codec =
     Some (ok, [10, 11, 12, 13, 20, 30])"
proof -
  let ?f = "sample_i420\<lparr>fv_pts := p\<rparr>"
  have halves: "unat (2 :: u32) = 2" "(2 :: u32) div 2 = 1" "unat (3 :: u32) = 3" by simp_all
  have planes: "plane_readable ?f 0 (2, 2)" "plane_readable ?f 1 (2 div 2, 2 div 2)" "plane_readable ?f 2 (2 div 2, 2 div 2)"
    by (simp_all add: plane_readable_def sample_i420_def word_sle_eq)
  have packed: "packed_plane ?f 0 (2, 2) = [10, 11, 12, 13]" "packed_plane ?f 1 (2 div 2, 2 div 2) = [20]"
      "packed_plane ?f 2 (2 div 2, 2 div 2) = [30]"
    by (simp_all add: packed_plane_def sample_i420_def packed_rows_def halves upt_rec)
  have "convert_cpu_frame_to_i420 no_libyuv ?f 2 2 i420 codec = Some (ok, stage_planes i420 6
      [packed_plane ?f 0 (2, 2), packed_plane ?f 1 (2 div 2, 2 div 2), packed_plane ?f 2 (2 div 2, 2 div 2)])"
    using convert_i420_readable [OF _ _ _ planes, of i420 no_libyuv codec] assms
    by (simp add: sample_i420_def)
  then show ?thesis unfolding packed using assms by (simp add: stage_planes_def)
qed


definition fresh_muxer :: "string \<Rightarrow> bytes \<Rightarrow> webm_muxer" where
  "fresh_muxer codec_id private = \<lparr>wm_frames = [], wm_codec_id = codec_id, wm_codec_private = private,
     wm_default_duration = 40000000, wm_track_number = 1, wm_writer_open = True, wm_segment_initialized = True,
     wm_finalized = False, wm_output_path = ''a.webm'', wm_container = WebM\<rparr>"

lemma tiny_muxers:
  "create_muxer example_setup (Some ''a.webm'') 1 25 1 = Inr (fresh_muxer ''V_VP9'' [])"
  "create_muxer example_setup (Some ''a.webm'') 2 25 1 = Inr (fresh_muxer ''V_AV1'' av1_config)"
proof -
  have "(ucast (1 :: u32) * 1000000000 div ucast (25 :: u32) :: u64) = 40000000" by code_simp
  then show "create_muxer example_setup (Some ''a.webm'') 1 25 1 = Inr (fresh_muxer ''V_VP9'' [])"
    "create_muxer example_setup (Some ''a.webm'') 2 25 1 = Inr (fresh_muxer ''V_AV1'' av1_config)"
    by (simp_all add: create_muxer_def example_setup_def example_format codec_track_id_def fresh_muxer_def)
qed

lemma tiny_size: "unat (staging_size 2 2) = 6"
  by code_simp

lemma finalize_example:
  "finalize_container_doc_type no_faults example_disk ''a.webm'' WebM = (example_disk, Inr ())"
  using example_checked
  by (simp add: open_checked_def example_format finalize_container_doc_type_def no_faults_def)

lemma sample_shape: "fv_width (sample_i420\<lparr>fv_pts := p\<rparr>) = 2" "fv_height (sample_i420\<lparr>fv_pts := p\<rparr>) = 2"
  "sample_i420 = sample_i420\<lparr>fv_pts := 0\<rparr>"
  by (simp_all add: sample_i420_def)

lemma tiny_stamps:
  "map (\<lambda>pts. (to_nanoseconds pts (configure 25 1 initial_timing), duration_nanoseconds (configure 25 1 initial_timing)))
     (assign_pts (map fv_pts (written_frames two_frames)) (configure 25 1 initial_timing)) =
   [(0, 40000000), (40000000, 40000000)]"
  by code_simp

lemma direct_created:
  "vp9_create_encoder direct_vpx 8 example_setup tiny_encoder_config = Inr
     \<lparr>ve_codec = [], ve_codec_initialized = True, ve_muxer = fresh_muxer ''V_VP9'' [], ve_width = 2, ve_height = 2,
      ve_timing = configure 25 1 initial_timing, ve_closed = False, ve_image = replicate 6 0\<rparr>"
  by (simp add: vp9_create_encoder_def vp9_initialize_codec_def direct_vpx_def tiny_encoder_config_def
      tiny_muxers tiny_size)

lemma direct_run:
  "\<exists>e d' e'. run_requests (vp9_write direct_vpx willing_libwebm no_libyuv) (\<lambda>e. Some (vp9_flush direct_vpx willing_libwebm e)) two_frames
      \<lparr>ve_codec = [], ve_codec_initialized = True, ve_muxer = fresh_muxer ''V_VP9'' [], ve_width = 2, ve_height = 2,
       ve_timing = configure 25 1 initial_timing, ve_closed = False, ve_image = replicate 6 0\<rparr> = Some e \<and>
     vp9_close_encoder direct_vpx willing_libwebm no_faults example_disk e = (ok, d', e')"
  unfolding two_frames_def
  by (subst sample_shape(3))
    (simp add: vp9_write_def sample_shape(1,2) convert_sample vp9_encode_frame_def direct_vpx_def Let_def mux_packet_def
      add_frame_def willing_libwebm_def fresh_muxer_def vp9_flush_def vp9_flush_codec_def vp9_close_encoder_def
      finalize_muxer_def finalize_example)

theorem vp9_encoder_file_witness:
  "\<exists>e0 e d' e'. vp9_create_encoder direct_vpx 8 example_setup tiny_encoder_config = Inr e0 \<and>
     run_requests (vp9_write direct_vpx willing_libwebm no_libyuv) (\<lambda>e. Some (vp9_flush direct_vpx willing_libwebm e)) two_frames e0 = Some e \<and>
     vp9_close_encoder direct_vpx willing_libwebm no_faults example_disk e = (ok, d', e') \<and>
     map (\<lambda>f. (mf_timestamp_ns f, mf_duration_ns f)) (wm_frames (ve_muxer e')) = [(0, 40000000), (40000000, 40000000)]"
proof -
  from direct_run obtain e d' e' where
    run: "run_requests (vp9_write direct_vpx willing_libwebm no_libyuv) (\<lambda>e. Some (vp9_flush direct_vpx willing_libwebm e)) two_frames
      \<lparr>ve_codec = [], ve_codec_initialized = True, ve_muxer = fresh_muxer ''V_VP9'' [], ve_width = 2, ve_height = 2,
       ve_timing = configure 25 1 initial_timing, ve_closed = False, ve_image = replicate 6 0\<rparr> = Some e"
    and close: "vp9_close_encoder direct_vpx willing_libwebm no_faults example_disk e = (ok, d', e')" by blast
  have "ec_fps_num tiny_encoder_config = 25" "ec_fps_den tiny_encoder_config = 1" by (simp_all add: tiny_encoder_config_def)
  with vp9_encoder_file [OF direct_vpx_keeps direct_created run close] tiny_stamps direct_created run close
  show ?thesis by (intro exI [of _ e] exI [of _ d'] exI [of _ e'] exI conjI) simp_all
qed


lemma queue_svt_keeps: "svt_keeps queue_svt fst snd (\<lambda>(ps, ended). length ps + (if ended then 1 else 0))"
  by (auto simp: svt_keeps_def queue_svt_def Let_def split: list.splits if_splits prod.splits)

definition queue_encoder :: "(i64 list \<times> bool) av1_encoder" where
  "queue_encoder = \<lparr>ae_codec = Some ([], False), ae_codec_initialized = True, ae_muxer = Some (fresh_muxer ''V_AV1'' av1_config),
     ae_width = 2, ae_height = 2, ae_timing = configure 25 1 initial_timing, ae_quality = 32,
     ae_keyframe_interval_frames = 0, ae_frames_in_sequence = 0, ae_eos_sent = False, ae_closed = False,
     ae_image = replicate 6 0\<rparr>"

lemma queue_created: "av1_create_encoder queue_svt example_setup tiny_encoder_config = Inr queue_encoder"
  by (simp add: av1_create_encoder_def av1_initialize_codec_def queue_svt_def new_av1_encoder_def
      tiny_encoder_config_def tiny_muxers tiny_size queue_encoder_def Let_def)

lemma queue_run:
  "\<exists>e. run_requests (av1_write queue_svt willing_libwebm no_libyuv) (av1_flush queue_svt willing_libwebm) two_frames queue_encoder = Some e \<and>
     map_option fst (av1_close_encoder queue_svt willing_libwebm no_faults example_disk e) = Some ok"
  unfolding two_frames_def
  by (subst sample_shape(3))
    (simp add: av1_write_def sample_shape(1,2) convert_sample av1_encode_frame_def queue_svt_def Let_def mux_packet_def
      add_frame_def willing_libwebm_def fresh_muxer_def av1_flush_def av1_end_sequence_def av1_close_encoder_def
      av1_collect_packets.simps av1_destroy_codec_def av1_initialize_codec_def av1_input_def queue_encoder_def
      finalize_muxer_def finalize_example)


end
