(* ===== verification/EncoderInvariants.thy ===== *)
theory EncoderInvariants
  imports EncoderQueue
begin

text \<open>
  The invariants of the asynchronous encoder over every interleaving of EncoderQueue: the
  bounds of queue and frame pool, the order of the queue, the state of the backend as a
  sequential run, the flush barrier, the completion of submissions and the shutdown.
\<close>

section \<open>Moves of the system\<close>

lemma caller_moves_fields [simp]:
  "sy_session (caller_moves i c s' y) = s'"
  "sy_worker (caller_moves i c s' y) = sy_worker y"
  "sy_callers (caller_moves i c s' y) = (sy_callers y)[i := c]"
  "sy_taken (caller_moves i c s' y) = sy_taken y"
  "sy_done (caller_moves i c s' y) = sy_done y"
  by (simp_all add: caller_moves_def Let_def)

lemma caller_moves_same:
  assumes "es_queue s' = es_queue (sy_session y)"
  shows "sy_enqueued (caller_moves i c s' y) = sy_enqueued y"
    "sy_dropped (caller_moves i c s' y) = sy_dropped y"
  using assms by (simp_all add: caller_moves_def Let_def)

lemma caller_moves_push:
  assumes "es_queue s' = es_queue (sy_session y) @ [it]"
  shows "sy_enqueued (caller_moves i c s' y) = sy_enqueued y @ [it]"
    "sy_dropped (caller_moves i c s' y) = sy_dropped y"
  using assms by (simp_all add: caller_moves_def Let_def)

lemma caller_moves_clear:
  assumes "es_queue s' = []"
  shows "sy_enqueued (caller_moves i c s' y) = sy_enqueued y"
    "sy_dropped (caller_moves i c s' y) = sy_dropped y @ es_queue (sy_session y)"
  using assms by (simp_all add: caller_moves_def Let_def)

lemma worker_moves_fields [simp]:
  "sy_session (worker_moves w s' y) = s'"
  "sy_worker (worker_moves w s' y) = w"
  "sy_callers (worker_moves w s' y) = sy_callers y"
  "sy_enqueued (worker_moves w s' y) = sy_enqueued y"
  "sy_taken (worker_moves w s' y) = sy_taken y @ newly_taken (sy_worker y) w"
  "sy_done (worker_moves w s' y) = sy_done y @ newly_done (sy_worker y) w (sy_taken y)"
  "sy_dropped (worker_moves w s' y) = sy_dropped y @
     newly_dropped (sy_worker y) w (es_queue (sy_session y))"
  by (simp_all add: worker_moves_def)

text \<open>What a caller's step does to queue, history and flags, in three cases.\<close>

lemma caller_move_cases:
  assumes "caller_effect c0 (sy_session y) c s'"
  obtains (Same) "es_queue s' = es_queue (sy_session y)"
      "sy_enqueued (caller_moves i c s' y) = sy_enqueued y"
      "sy_dropped (caller_moves i c s' y) = sy_dropped y"
      "es_next_flush_token s' = es_next_flush_token (sy_session y)"
      "es_failed s' = es_failed (sy_session y)" "es_canceled s' = es_canceled (sy_session y)"
      "es_accepting s' \<longrightarrow> es_accepting (sy_session y)"
      "flush_token c = None \<or> flush_token c = flush_token c0"
      "es_submissions s' = es_submissions (sy_session y) \<or>
       (\<exists>i owner. i < length (es_submissions (sy_session y)) \<and>
          es_submissions s' = (es_submissions (sy_session y))
            [i := set_owner owner (es_submissions (sy_session y) ! i)])"
    | (Pushed) it where "pushes it (sy_session y) s'"
      "es_queue s' = es_queue (sy_session y) @ [it]"
      "sy_enqueued (caller_moves i c s' y) = sy_enqueued y @ [it]"
      "sy_dropped (caller_moves i c s' y) = sy_dropped y"
      "es_failed s' = es_failed (sy_session y)" "es_canceled s' = es_canceled (sy_session y)"
      "es_accepting s'" "es_accepting (sy_session y)" "flush_token c = item_token it"
    | (Cleared) "cancels (sy_session y) s'" "es_queue s' = []"
      "sy_enqueued (caller_moves i c s' y) = sy_enqueued y"
      "sy_dropped (caller_moves i c s' y) = sy_dropped y @ es_queue (sy_session y)"
      "es_next_flush_token s' = es_next_flush_token (sy_session y)"
      "es_failed s' = es_failed (sy_session y)" "es_canceled s'" "\<not> es_accepting s'"
      "flush_token c = None"
  using assms
proof (cases rule: caller_effect.cases)
  case Quiet
  note q = quiet_fields [OF Quiet(1)]
  show thesis by (rule Same) (use q Quiet(2) caller_moves_same [OF q(3)] in auto)
next
  case (Push it)
  note q = quiet_fields [OF Push(1) [unfolded pushes_def, THEN conjunct1]]
  have p: "es_queue s' = es_queue (sy_session y) @ [it]" using q by simp
  have "es_accepting (sy_session y)" using Push(1) by (simp add: pushes_def)
  then show thesis by (intro Pushed [OF Push(1) p]) (use q Push(2) caller_moves_push [OF p] in auto)
next
  case Cancelled
  note q = quiet_fields [OF Cancelled(1) [unfolded cancels_def, THEN conjunct1]]
  have p: "es_queue s' = []" using q by simp
  show thesis by (rule Cleared [OF Cancelled(1) p]) (use q Cancelled(2) caller_moves_clear [OF p] in auto)
next
  case CloseRequested
  note q = quiet_fields [OF CloseRequested(1)]
  have p: "es_queue s' = es_queue (sy_session y)" using q by simp
  show thesis by (rule Same [OF p]) (use q CloseRequested(2) caller_moves_same [OF p] in auto)
next
  case (OwnerSet j owner)
  note q = quiet_fields [OF OwnerSet(1)]
  have p: "es_queue s' = es_queue (sy_session y)" using q by simp
  show thesis by (rule Same [OF p]) (use q OwnerSet caller_moves_same [OF p] in auto)
qed

lemma caller_effect_constant:
  assumes "caller_effect c s c' s'"
  shows "es_backend s' = es_backend s" "es_capacity s' = es_capacity s"
    "es_completed_flush_token s' = es_completed_flush_token s"
    "es_closed s' = es_closed s"
  using assms by (cases rule: caller_effect.cases;
      force simp: pushes_def cancels_def dest: quiet_fields)+

section \<open>Bounds\<close>

fun worker_held :: "worker \<Rightarrow> nat" where
  "worker_held (Holding it inject) = (if item_frame it = None then 0 else 1)"
| "worker_held (Executed it st format pending) = (if item_frame it = None then 0 else 1)"
| "worker_held _ = 0"

definition frames_inv :: "'b system \<Rightarrow> bool" where
  "frames_inv y \<longleftrightarrow> length (es_free_frames (sy_session y)) + owned_items (es_queue (sy_session y)) +
     sum_list (map held (sy_callers y)) + worker_held (sy_worker y) \<le> es_capacity (sy_session y)"

lemma sum_list_map_update:
  "i < length xs \<Longrightarrow> sum_list (map f (xs[i := x])) + f (xs ! i) = sum_list (map f xs) + (f x :: nat)"
proof (induction xs arbitrary: i)
  case (Cons a xs)
  then show ?case by (cases i) (simp_all add: algebra_simps)
qed simp

lemma frames_inv_caller:
  assumes "caller_effect (sy_callers y ! i) (sy_session y) c s'"
    and "frames_kept (sy_callers y ! i) (sy_session y) c s'"
    and "i < length (sy_callers y)" "frames_inv y"
  shows "frames_inv (caller_moves i c s' y)"
  using assms(2,4) sum_list_map_update [OF assms(3), of held c] caller_effect_constant(2) [OF assms(1)]
  by (simp add: frames_inv_def frames_kept_def)

lemma frames_inv_worker:
  assumes "worker_step ops address_of elapsed (sy_worker y) (sy_session y) = Passed (w, s')"
    and "frames_inv y"
  shows "frames_inv (worker_moves w s' y)"
  using assms(1)
  by (cases rule: worker_step_cases) (use assms(2) in \<open>auto simp: frames_inv_def split: option.splits\<close>)

section \<open>Order\<close>

definition fifo_inv :: "'b system \<Rightarrow> bool" where
  "fifo_inv y \<longleftrightarrow> sy_enqueued y = map fst (sy_taken y) @ sy_dropped y @ es_queue (sy_session y) \<and>
     (sy_dropped y \<noteq> [] \<longrightarrow> \<not> es_accepting (sy_session y) \<and> es_queue (sy_session y) = [] \<and>
        (es_failed (sy_session y) \<or> es_canceled (sy_session y)))"

lemma fifo_inv_caller:
  assumes "caller_effect c0 (sy_session y) c s'" "fifo_inv y"
  shows "fifo_inv (caller_moves i c s' y)"
  by (rule caller_move_cases [OF assms(1), of i]) (use assms(2) in \<open>auto simp: fifo_inv_def\<close>)

lemma fifo_inv_worker:
  assumes "worker_step ops address_of elapsed (sy_worker y) (sy_session y) = Passed (w, s')"
    and "fifo_inv y"
  shows "fifo_inv (worker_moves w s' y)"
  using assms(1)
  by (cases rule: worker_step_cases) (use assms(2) in \<open>auto simp: fifo_inv_def\<close>)

section \<open>The backend runs the queue sequentially\<close>

text \<open>The sequential reference: items one after the other, as long as each returns \<open>MKVC_OK\<close>.\<close>

fun run_items :: "'b backend \<Rightarrow> (nat \<Rightarrow> u64) \<Rightarrow> (item \<times> bool) list \<Rightarrow> 'b \<Rightarrow> 'b option" where
  "run_items ops address_of [] b = Some b"
| "run_items ops address_of ((it, inject) # items) b =
     (case execute_item ops address_of it inject b of
        ((Returns st, format), b') \<Rightarrow>
          if fst st = MKVC_OK then run_items ops address_of items b' else None
      | ((Throws what, format), b') \<Rightarrow> None)"

lemma run_items_append:
  "run_items ops address_of (xs @ ys) b =
     (case run_items ops address_of xs b of None \<Rightarrow> None | Some b' \<Rightarrow> run_items ops address_of ys b')"
  by (induction xs arbitrary: b) (auto split: call.splits prod.splits)

text \<open>What the worker has taken but not finished, and the backend then.\<close>

definition exec_inv :: "'b backend \<Rightarrow> (nat \<Rightarrow> u64) \<Rightarrow> 'b \<Rightarrow> 'b system \<Rightarrow> bool" where
  "exec_inv ops address_of b0 y \<longleftrightarrow>
     (\<exists>rest b. sy_taken y = sy_done y @ rest \<and> run_items ops address_of (sy_done y) b0 = Some b \<and>
       (case sy_worker y of
          Waiting \<Rightarrow> rest = [] \<and> es_backend (sy_session y) = b
        | Holding it inject \<Rightarrow> rest = [(it, inject)] \<and> es_backend (sy_session y) = b
        | Executed it st format pending \<Rightarrow> (\<exists>inject. rest = [(it, inject)] \<and>
            execute_item ops address_of it inject b = ((Returns st, format), es_backend (sy_session y)))
        | Closing active \<Rightarrow> (rest = [] \<and> es_backend (sy_session y) = b) \<or>
            length rest = 1 \<and> es_failed (sy_session y)
        | ClosedBackend st pending \<Rightarrow> rest = [] \<or> length rest = 1 \<and> es_failed (sy_session y)
        | Caught what active \<Rightarrow> rest = [] \<or> length rest = 1
        | Finished \<Rightarrow> rest = [] \<or> length rest = 1 \<and> es_failed (sy_session y)))"

lemma exec_inv_caller:
  assumes "caller_effect c0 (sy_session y) c s'" "exec_inv ops address_of b0 y"
  shows "exec_inv ops address_of b0 (caller_moves i c s' y)"
proof -
  have failed: "es_failed s' = es_failed (sy_session y)"
    by (rule caller_move_cases [OF assms(1), of i]) auto
  show ?thesis
    using assms(2)
    unfolding exec_inv_def caller_moves_fields caller_effect_constant(1) [OF assms(1)] failed .
qed

lemma exec_inv_worker:
  assumes "worker_step ops address_of elapsed (sy_worker y) (sy_session y) = Passed (w, s')"
    and "exec_inv ops address_of b0 y"
  shows "exec_inv ops address_of b0 (worker_moves w s' y)"
  using assms(1)
proof (cases rule: worker_step_cases)
  case (Flushed token st format pending)
  then show ?thesis using assms(2) by (auto simp: exec_inv_def run_items_append)
next
  case (Encoded it st format pending)
  then show ?thesis using assms(2) by (auto simp: exec_inv_def run_items_append)
qed (use assms(2) in \<open>auto simp: exec_inv_def\<close>)

section \<open>Flush barriers\<close>

definition tokens :: "item list \<Rightarrow> u64 list" where
  "tokens q = List.map_filter item_token q"

lemma tokens_simps [simp]:
  "tokens [] = []" "tokens (it # q) = (case item_token it of None \<Rightarrow> tokens q | Some t \<Rightarrow> t # tokens q)"
  by (simp_all add: tokens_def map_filter_simps split: option.split)

lemma tokens_append [simp]: "tokens (xs @ ys) = tokens xs @ tokens ys"
  by (induction xs) (simp_all split: option.split)

lemma item_token_frame: "item_token it = None \<longleftrightarrow> is_frame_item it"
  by (cases it) simp_all

text \<open>Tokens are handed out as 1, 2, 3, ..., and the completed one is that of the last
  finished barrier.\<close>

definition flush_inv :: "'b system \<Rightarrow> bool" where
  "flush_inv y \<longleftrightarrow>
     tokens (sy_enqueued y) = map of_nat [1..<Suc (length (tokens (sy_enqueued y)))] \<and>
     es_next_flush_token (sy_session y) = of_nat (length (tokens (sy_enqueued y))) \<and>
     es_completed_flush_token (sy_session y) = of_nat (length (tokens (map fst (sy_done y)))) \<and>
     (\<forall>c \<in> set (sy_callers y). \<forall>t. flush_token c = Some t \<longrightarrow>
        (\<exists>k. t = of_nat k \<and> 1 \<le> k \<and> k \<le> length (tokens (sy_enqueued y))))"

lemma flush_inv_caller:
  assumes "caller_effect (sy_callers y ! i) (sy_session y) c s'" "i < length (sy_callers y)"
    and "flush_inv y"
  shows "flush_inv (caller_moves i c s' y)"
  using assms(1)
proof (cases rule: caller_move_cases [where i = i])
  case Same
  have "\<forall>t. flush_token c = Some t \<longrightarrow>
      (\<exists>k. t = of_nat k \<and> 1 \<le> k \<and> k \<le> length (tokens (sy_enqueued y)))"
    using Same(8) nth_mem [OF assms(2)] assms(3) by (auto simp: flush_inv_def)
  then show ?thesis
    using Same(2,4) assms(3) caller_effect_constant(3) [OF assms(1)]
    unfolding flush_inv_def caller_moves_fields by (auto dest!: set_update_subset_insert [THEN subsetD])
next
  case (Pushed it)
  let ?n = "length (tokens (sy_enqueued y))"
  note q = quiet_fields [OF Pushed(1) [unfolded pushes_def, THEN conjunct1]]
  have nxt: "es_next_flush_token s' = es_next_flush_token (sy_session y) + (if is_frame_item it then 0 else 1)"
    using q(10) by simp
  have tok: "item_token it = Some t \<Longrightarrow> t = of_nat (Suc ?n)" for t
    using Pushed(1) assms(3) by (cases it) (auto simp: pushes_def flush_inv_def)
  have old: "\<exists>k. t = of_nat k \<and> 1 \<le> k \<and> k \<le> length (tokens (sy_enqueued y @ [it]))"
    if old_token: "c' \<in> set (sy_callers y)" "flush_token c' = Some t" for c' t
  proof -
    obtain k where "t = of_nat k" "1 \<le> k" "k \<le> ?n" using old_token assms(3) by (auto simp: flush_inv_def)
    then show ?thesis by (intro exI [of _ k]) (auto split: option.split)
  qed
  have "tokens (sy_enqueued y @ [it]) = map of_nat [1..<Suc (length (tokens (sy_enqueued y @ [it])))]"
    using assms(3) tok by (auto simp: flush_inv_def split: option.split)
  moreover have "es_next_flush_token s' = of_nat (length (tokens (sy_enqueued y @ [it])))"
    using nxt assms(3) item_token_frame [of it] by (auto simp: flush_inv_def split: option.split)
  moreover have "\<exists>k. t = of_nat k \<and> 1 \<le> k \<and> k \<le> length (tokens (sy_enqueued y @ [it]))"
    if "flush_token c = Some t" for t
    using that Pushed(9) tok by (intro exI [of _ "Suc ?n"]) auto
  ultimately show ?thesis
    using Pushed(3) assms(3) old caller_effect_constant(3) [OF assms(1)]
    unfolding flush_inv_def caller_moves_fields Pushed(3)
    by (auto simp del: tokens_append dest!: set_update_subset_insert [THEN subsetD])
next
  case Cleared
  then show ?thesis
    using assms(3) caller_effect_constant(3) [OF assms(1)]
    unfolding flush_inv_def caller_moves_fields
    by (auto dest!: set_update_subset_insert [THEN subsetD])
qed

lemma flush_inv_worker:
  assumes step: "worker_step ops address_of elapsed (sy_worker y) (sy_session y) = Passed (w, s')"
    and inv: "flush_inv y" "exec_inv ops address_of b0 y" "fifo_inv y"
  shows "flush_inv (worker_moves w s' y)"
  using step
proof (cases rule: worker_step_cases)
  case (Flushed token st format pending)
  obtain inject where taken: "sy_taken y = sy_done y @ [(FlushItem token, inject)]"
    using inv(2) Flushed(1) by (auto simp: exec_inv_def)
  let ?d = "tokens (map fst (sy_done y))"
  have enq: "tokens (sy_enqueued y) = ?d @ token #
      tokens (sy_dropped y @ es_queue (sy_session y))"
    using inv(3) taken by (simp add: fifo_inv_def)
  have len: "length ?d < length (tokens (sy_enqueued y))" by (simp add: enq)
  have "token = tokens (sy_enqueued y) ! length ?d" by (simp add: enq nth_append)
  also have "\<dots> = map of_nat [1..<Suc (length (tokens (sy_enqueued y)))] ! length ?d"
    using inv(1) by (simp add: flush_inv_def)
  also have "\<dots> = of_nat (Suc (length ?d))" using len by (simp add: nth_upt del: upt_Suc)
  finally have "token = of_nat (Suc (length ?d))" .
  then show ?thesis using inv(1) Flushed taken by (simp add: flush_inv_def)
next
  case (Encoded it st format pending)
  obtain inject where "sy_taken y = sy_done y @ [(it, inject)]"
    using inv(2) Encoded(1) by (auto simp: exec_inv_def)
  then show ?thesis
    using inv(1) Encoded item_token_frame [of it] by (simp add: flush_inv_def)
qed (use inv(1) in \<open>auto simp: flush_inv_def\<close>)

section \<open>Submissions\<close>

definition sub_ids :: "item list \<Rightarrow> nat set" where
  "sub_ids q = {i. \<exists>it \<in> set q. item_submission it = Some i}"

lemma sub_ids_simps [simp]:
  "sub_ids [] = {}"
  "sub_ids (it # q) = set_option (item_submission it) \<union> sub_ids q"
  "sub_ids (q @ q') = sub_ids q \<union> sub_ids q'"
  by (auto simp: sub_ids_def)

lemma complete_twice [simp]:
  "complete_submission r e (complete_submission r' e' s) = complete_submission r' e' s"
  by (simp add: complete_submission_def)

lemma length_complete [simp]:
  "length (complete_item r e it subs) = length subs"
  "length (fail_queued_submissions r e q subs) = length subs"
proof -
  show *: "length (complete_item r e it subs) = length subs" for it subs
    by (simp add: complete_item_def complete_at_def split: option.split)
  show "length (fail_queued_submissions r e q subs) = length subs"
    unfolding fail_queued_submissions_def by (induction q arbitrary: subs) (simp_all add: *)
qed

lemma nth_complete_item:
  "i < length subs \<Longrightarrow> complete_item r e it subs ! i =
     (if item_submission it = Some i then complete_submission r e (subs ! i) else subs ! i)"
  by (auto simp: complete_item_def complete_at_def nth_list_update split: option.split)

lemma nth_fail_queued:
  "i < length subs \<Longrightarrow> fail_queued_submissions r e q subs ! i =
     (if i \<in> sub_ids q then complete_submission r e (subs ! i) else subs ! i)"
proof (induction q arbitrary: subs)
  case Nil
  then show ?case by (simp add: fail_queued_submissions_def)
next
  case (Cons it q)
  have "fail_queued_submissions r e (it # q) subs =
      fail_queued_submissions r e q (complete_item r e it subs)"
    by (simp add: fail_queued_submissions_def)
  with Cons show ?case by (auto simp: nth_complete_item)
qed

lemma worker_catch_submissions:
  "length (es_submissions (worker_catch what active s)) = length (es_submissions s)"
  "i < length (es_submissions s) \<Longrightarrow> es_submissions (worker_catch what active s) ! i =
     (if i \<in> sub_ids (es_queue s) \<union> set_option active
      then complete_submission MKVC_ERROR_INTERNAL
        (case what of Some text \<Rightarrow> text | None \<Rightarrow> ''unknown asynchronous encoder failure'')
        (es_submissions s ! i)
      else es_submissions s ! i)"
proof -
  have at: "i < length subs \<Longrightarrow> complete_at j r e subs ! i =
      (if i = j then complete_submission r e (subs ! i) else subs ! i)" for j r e subs
    by (cases "j < length subs") (auto simp: complete_at_def nth_list_update)
  have len: "length (complete_at j r e subs) = length subs" for j r e subs
    by (simp add: complete_at_def)
  show "length (es_submissions (worker_catch what active s)) = length (es_submissions s)"
    by (simp add: worker_catch_def Let_def len split: option.split)
  assume "i < length (es_submissions s)"
  then show "es_submissions (worker_catch what active s) ! i =
     (if i \<in> sub_ids (es_queue s) \<union> set_option active
      then complete_submission MKVC_ERROR_INTERNAL
        (case what of Some text \<Rightarrow> text | None \<Rightarrow> ''unknown asynchronous encoder failure'')
        (es_submissions s ! i)
      else es_submissions s ! i)"
    by (cases active) (auto simp: worker_catch_def Let_def nth_fail_queued len at)
qed

fun worker_ids :: "worker \<Rightarrow> nat set" where
  "worker_ids (Holding it inject) = set_option (item_submission it)"
| "worker_ids (Executed it st format pending) = set_option (item_submission it)"
| "worker_ids (Caught what active) = set_option active"
| "worker_ids _ = {}"

definition subs_inv :: "'b system \<Rightarrow> bool" where
  "subs_inv y \<longleftrightarrow> (let subs = es_submissions (sy_session y) in
     sub_ids (sy_enqueued y) \<subseteq> {..<length subs} \<and>
     (\<forall>i < length subs. \<not> sub_terminal (subs ! i) \<longrightarrow>
        i \<in> sub_ids (es_queue (sy_session y)) \<union> worker_ids (sy_worker y)) \<and>
     (\<forall>i < length subs. sub_terminal (subs ! i) \<and> sub_result (subs ! i) = MKVC_OK \<longrightarrow>
        i \<in> sub_ids (map fst (sy_done y))))"

lemma set_owner_keeps [simp]:
  "sub_terminal (set_owner owner s) = sub_terminal s" "sub_result (set_owner owner s) = sub_result s"
  by (simp_all add: set_owner_def)

lemma complete_submission_ok:
  "sub_result (complete_submission r e s) = MKVC_OK \<Longrightarrow> r \<noteq> MKVC_OK \<Longrightarrow>
     sub_terminal s \<and> sub_result s = MKVC_OK"
  by (auto simp: complete_submission_def split: if_splits)

lemma subs_inv_caller:
  assumes "caller_effect c0 (sy_session y) c s'" "subs_inv y"
  shows "subs_inv (caller_moves i c s' y)"
  using assms(1)
proof (cases rule: caller_move_cases [where i = i])
  case Same
  from Same(9) show ?thesis
  proof (elim disjE exE conjE)
    assume "es_submissions s' = es_submissions (sy_session y)"
    then show ?thesis using assms(2) Same(1,2) by (simp add: subs_inv_def Let_def)
  next
    fix j owner
    assume "j < length (es_submissions (sy_session y))" "es_submissions s' =
      (es_submissions (sy_session y))[j := set_owner owner (es_submissions (sy_session y) ! j)]"
    then show ?thesis using assms(2) Same(1,2)
      by (auto simp: subs_inv_def Let_def nth_list_update)
  qed
next
  case (Pushed it)
  note q = quiet_fields [OF Pushed(1) [unfolded pushes_def, THEN conjunct1]]
  have subs: "es_submissions s' = es_submissions (sy_session y) @
      (if item_submission it = None then [] else [new_submission])" using q(12) by simp
  have new: "item_submission it = Some j \<Longrightarrow> j = length (es_submissions (sy_session y))" for j
    using Pushed(1) by (cases it) (auto simp: pushes_def)
  show ?thesis
    using assms(2) Pushed(2,3) subs new
    by (cases "item_submission it")
      (auto simp: subs_inv_def Let_def nth_append new_submission_def less_Suc_eq)
next
  case Cleared
  have subs: "es_submissions s' = fail_queued_submissions MKVC_ERROR_CANCELLED
      ''encoder submission was cancelled'' (es_queue (sy_session y)) (es_submissions (sy_session y))"
    using quiet_fields(12) [OF Cleared(1) [unfolded cancels_def, THEN conjunct1]] by simp
  show ?thesis
    using assms(2) Cleared(2,3)
    by (auto simp: subs_inv_def Let_def subs nth_fail_queued dest!: complete_submission_ok split: if_splits)
qed

lemma subs_inv_worker:
  assumes step: "worker_step ops address_of elapsed (sy_worker y) (sy_session y) = Passed (w, s')"
    and inv: "subs_inv y" "exec_inv ops address_of b0 y"
  shows "subs_inv (worker_moves w s' y)"
  using step
proof (cases rule: worker_step_cases)
  case (Fail it st format pending)
  then show ?thesis using inv(1)
    by (auto simp: subs_inv_def Let_def nth_fail_queued nth_complete_item
        dest!: complete_submission_ok split: if_splits)
next
  case (Flushed token st format pending)
  then show ?thesis using inv(1) by (auto simp: subs_inv_def Let_def)
next
  case (Encoded it st format pending)
  obtain inject where taken: "sy_taken y = sy_done y @ [(it, inject)]"
    using inv(2) Encoded(1) by (auto simp: exec_inv_def)
  then show ?thesis using inv(1) Encoded
    by (auto simp: subs_inv_def Let_def nth_complete_item split: if_splits)
next
  case (Catch what active)
  then show ?thesis using inv(1)
    by (auto simp: subs_inv_def Let_def worker_catch_submissions
        dest!: complete_submission_ok split: if_splits)
qed (use inv(1) in \<open>auto simp: subs_inv_def Let_def\<close>)

section \<open>Shutdown\<close>

definition stop_inv :: "'b system \<Rightarrow> bool" where
  "stop_inv y \<longleftrightarrow> (let s = sy_session y in
     (case sy_worker y of
        Closing active \<Rightarrow> es_queue s = [] \<and> \<not> es_accepting s
      | ClosedBackend st pending \<Rightarrow> es_queue s = [] \<and> \<not> es_accepting s
      | Finished \<Rightarrow> (es_failed s \<or> es_queue s = []) \<and> \<not> es_accepting s \<and>
          (\<forall>i < length (es_submissions s). sub_terminal (es_submissions s ! i))
      | _ \<Rightarrow> True))"

lemma stop_inv_caller:
  assumes "caller_effect c0 (sy_session y) c s'" "stop_inv y"
  shows "stop_inv (caller_moves i c s' y)"
  using assms(1)
proof (cases rule: caller_move_cases [where i = i])
  case Same
  have "(\<forall>i < length (es_submissions (sy_session y)). sub_terminal (es_submissions (sy_session y) ! i)) \<longrightarrow>
      (\<forall>i < length (es_submissions s'). sub_terminal (es_submissions s' ! i))"
    using Same(9) by (auto simp: nth_list_update)
  then show ?thesis
    using assms(2) Same(1,5,7)
    by (cases "sy_worker y") (simp_all add: stop_inv_def Let_def)
next
  case (Pushed it)
  then show ?thesis using assms(2)
    by (cases "sy_worker y") (simp_all add: stop_inv_def Let_def)
next
  case Cleared
  have subs: "es_submissions s' = fail_queued_submissions MKVC_ERROR_CANCELLED
      ''encoder submission was cancelled'' (es_queue (sy_session y)) (es_submissions (sy_session y))"
    using quiet_fields(12) [OF Cleared(1) [unfolded cancels_def, THEN conjunct1]] by simp
  show ?thesis using assms(2) Cleared(2,8)
    by (cases "sy_worker y") (simp_all add: stop_inv_def Let_def subs nth_fail_queued)
qed

lemma stop_inv_worker:
  assumes step: "worker_step ops address_of elapsed (sy_worker y) (sy_session y) = Passed (w, s')"
    and inv: "stop_inv y" "subs_inv y" "flags_inv (sy_session y)"
  shows "stop_inv (worker_moves w s' y)"
  using step
proof (cases rule: worker_step_cases)
  case Stop
  then show ?thesis using inv(3) by (simp add: stop_inv_def flags_inv_def)
next
  case (CloseFinish st pending)
  then have "\<forall>i < length (es_submissions (sy_session y)). sub_terminal (es_submissions (sy_session y) ! i)"
    using inv(1,2) by (auto simp: stop_inv_def subs_inv_def Let_def)
  then show ?thesis using inv(1) CloseFinish by (simp add: stop_inv_def Let_def)
next
  case (Catch what active)
  then have "\<forall>i < length (es_submissions (sy_session y)). sub_terminal (es_submissions s' ! i)"
    using inv(2) by (auto simp: subs_inv_def Let_def worker_catch_submissions)
  then show ?thesis using Catch by (simp add: stop_inv_def Let_def worker_catch_submissions(1))
qed (use inv(1) in \<open>auto simp: stop_inv_def Let_def\<close>)

section \<open>All invariants of a reachable system\<close>

definition terminal_inv :: "'b session \<Rightarrow> bool" where
  "terminal_inv s \<longleftrightarrow> (es_failed s \<longrightarrow> fst (es_terminal s) \<noteq> MKVC_OK)"

lemma terminal_inv_caller:
  assumes "caller_effect c s c' s'" "terminal_inv s"
  shows "terminal_inv s'"
proof -
  have "es_failed s' = es_failed s \<and> es_terminal s' = es_terminal s"
    using assms(1)
  proof (cases rule: caller_effect.cases)
    case (Push it)
    from quiet_fields [OF this(1) [unfolded pushes_def, THEN conjunct1]] show ?thesis by simp
  next
    case Cancelled
    from quiet_fields [OF this(1) [unfolded cancels_def, THEN conjunct1]] show ?thesis by simp
  qed (auto dest: quiet_fields)
  then show ?thesis using assms(2) by (simp add: terminal_inv_def)
qed

lemma terminal_inv_worker:
  assumes "worker_step ops address_of elapsed w s = Passed (w', s')" "terminal_inv s"
  shows "terminal_inv s'"
  using assms(1)
proof (cases rule: worker_step_cases)
  case (Encoded it st format pending)
  have "es_terminal s' = es_terminal s"
    by (simp add: Encoded(5) complete_frame_def add_encode_edges_def add_edge_def
        observe_copy_path_def account_item_def observe_pending_def return_frame_def Let_def
        split: option.split)
  then show ?thesis using assms(2) Encoded by (simp add: terminal_inv_def)
next
  case (Flushed token st format pending)
  then show ?thesis using assms(2)
    by (simp add: terminal_inv_def account_item_def observe_pending_def Let_def)
qed (use assms(2) in \<open>auto simp: terminal_inv_def fail_session_def worker_catch_def
      worker_close_finish_def observe_pending_def Let_def\<close>)

definition system_inv :: "'b backend \<Rightarrow> (nat \<Rightarrow> u64) \<Rightarrow> 'b \<Rightarrow> nat \<Rightarrow> 'b system \<Rightarrow> bool" where
  "system_inv ops address_of b0 capacity y \<longleftrightarrow>
     es_capacity (sy_session y) = capacity \<and> flags_inv (sy_session y) \<and>
     terminal_inv (sy_session y) \<and> frames_inv y \<and> fifo_inv y \<and> exec_inv ops address_of b0 y \<and>
     flush_inv y \<and> subs_inv y \<and> stop_inv y"

lemma system_inv_initial:
  "system_inv ops address_of b (unat (ec_queue_size config)) (initial_system b config fail_after n)"
proof -
  have "sum_list (map held (replicate n Idle)) = 0" by (induction n) simp_all
  then show ?thesis
    by (auto simp: system_inv_def initial_system_def new_session_def flags_inv_def terminal_inv_def
        frames_inv_def fifo_inv_def exec_inv_def flush_inv_def subs_inv_def stop_inv_def
        stages_split_count(1) Let_def)
qed

lemma system_inv_caller:
  assumes "caller_effect (sy_callers y ! i) (sy_session y) c s'"
    and "frames_kept (sy_callers y ! i) (sy_session y) c s'"
    and "i < length (sy_callers y)" "system_inv ops address_of b0 n y"
  shows "system_inv ops address_of b0 n (caller_moves i c s' y)"
  using assms(4) caller_effect_constant(2) [OF assms(1)] flags_inv_caller [OF assms(1)]
    terminal_inv_caller [OF assms(1)] frames_inv_caller [OF assms(1-3)]
    fifo_inv_caller [OF assms(1)] exec_inv_caller [OF assms(1)] flush_inv_caller [OF assms(1,3)]
    subs_inv_caller [OF assms(1)] stop_inv_caller [OF assms(1)]
  by (simp add: system_inv_def)

lemma worker_step_capacity:
  assumes "worker_step ops address_of elapsed w s = Passed (w', s')"
  shows "es_capacity s' = es_capacity s"
  using assms by (cases rule: worker_step_cases) simp_all

lemma system_inv_step:
  assumes "system_step ops address_of y y'" "system_inv ops address_of b0 n y"
  shows "system_inv ops address_of b0 n y'"
  using assms(1)
proof cases
  case (Call i req c s')
  note e = start_request_effect [OF Call(4) Call(3)]
  show ?thesis unfolding Call(1) by (rule system_inv_caller [OF e Call(2) assms(2)])
next
  case (Caller i elapsed c s')
  note e = caller_step_effect [OF Caller(3)]
  show ?thesis unfolding Caller(1) by (rule system_inv_caller [OF e Caller(2) assms(2)])
next
  case (Worker elapsed w s')
  note st = Worker(2)
  show ?thesis
    unfolding Worker(1) system_inv_def
    using assms(2) worker_step_capacity [OF st] flags_inv_worker [OF st] terminal_inv_worker [OF st]
      frames_inv_worker [OF st] fifo_inv_worker [OF st] exec_inv_worker [OF st]
      flush_inv_worker [OF st, where ?b0.0 = b0] subs_inv_worker [OF st, where ?b0.0 = b0]
      stop_inv_worker [OF st]
    by (simp add: system_inv_def)
qed

lemma system_inv_reachable:
  assumes "reachable_system ops address_of (initial_system b config fail_after n) y"
  shows "system_inv ops address_of b (unat (ec_queue_size config)) y"
  using assms
proof induction
  case Start
  show ?case by (rule system_inv_initial)
next
  case (Step y y')
  then show ?case by (blast intro: system_inv_step)
qed

section \<open>Executable schedules\<close>

datatype choice = DoCall nat request | DoCaller nat u64 | DoWorker u64

fun schedule_step :: "'b backend \<Rightarrow> (nat \<Rightarrow> u64) \<Rightarrow> choice \<Rightarrow> 'b system \<Rightarrow> 'b system option" where
  "schedule_step ops address_of (DoCall i req) y =
     (if i < length (sy_callers y) \<and> at_rest (sy_callers y ! i)
      then let (c, s') = start_request req (sy_session y) in Some (caller_moves i c s' y)
      else None)"
| "schedule_step ops address_of (DoCaller i elapsed) y =
     (if i < length (sy_callers y)
      then (case caller_step elapsed (joinable (sy_worker y)) (sy_callers y ! i) (sy_session y) of
              Blocked \<Rightarrow> None | Passed (c, s') \<Rightarrow> Some (caller_moves i c s' y))
      else None)"
| "schedule_step ops address_of (DoWorker elapsed) y =
     (case worker_step ops address_of elapsed (sy_worker y) (sy_session y) of
        Blocked \<Rightarrow> None | Passed (w, s') \<Rightarrow> Some (worker_moves w s' y))"

fun run_schedule :: "'b backend \<Rightarrow> (nat \<Rightarrow> u64) \<Rightarrow> choice list \<Rightarrow> 'b system \<Rightarrow> 'b system option" where
  "run_schedule ops address_of [] y = Some y"
| "run_schedule ops address_of (ch # chs) y =
     (case schedule_step ops address_of ch y of
        None \<Rightarrow> None | Some y' \<Rightarrow> run_schedule ops address_of chs y')"

lemma schedule_step_sound:
  "schedule_step ops address_of ch y = Some y' \<Longrightarrow> system_step ops address_of y y'"
  by (cases ch) (auto intro: system_step.intros split: if_splits section_outcome.splits prod.splits)

lemma run_schedule_reachable:
  "run_schedule ops address_of chs y = Some y' \<Longrightarrow> reachable_system ops address_of y0 y \<Longrightarrow>
     reachable_system ops address_of y0 y'"
proof (induction chs arbitrary: y)
  case (Cons ch chs)
  then obtain z where z: "schedule_step ops address_of ch y = Some z"
      "run_schedule ops address_of chs z = Some y'"
    by (auto split: option.splits)
  have "reachable_system ops address_of y0 z"
    using Cons.prems(2) schedule_step_sound [OF z(1)] by (rule reachable_system.Step)
  with z(2) show ?case by (rule Cons.IH)
qed simp

section \<open>Draining\<close>

text \<open>A bound on the worker's remaining steps once closing has been requested.\<close>

fun worker_rank :: "worker \<Rightarrow> nat \<Rightarrow> nat" where
  "worker_rank Waiting n = 3 * n + 3"
| "worker_rank (Holding it inject) n = 3 * n + 5"
| "worker_rank (Executed it st format pending) n = 3 * n + 4"
| "worker_rank (Closing active) n = 2"
| "worker_rank (ClosedBackend st pending) n = 1"
| "worker_rank (Caught what active) n = 1"
| "worker_rank Finished n = 0"

lemma worker_step_progress:
  assumes "es_close_requested s" "w \<noteq> Finished"
  obtains w' s' where "worker_step ops address_of elapsed w s = Passed (w', s')"
proof (cases w)
  case Waiting
  with assms(1) that show thesis by (cases "es_queue s") (auto simp: worker_take_def)
next
  case (Holding it inject)
  with that show thesis by (cases "worker_execute ops address_of it inject s") auto
next
  case (Executed it st format pending)
  with that show thesis by (cases "worker_finish elapsed it st format pending s") auto
next
  case (Closing active)
  with that show thesis by (cases "worker_close ops active s") auto
qed (use assms that in auto)

lemma worker_step_rank:
  assumes "worker_step ops address_of elapsed w s = Passed (w', s')"
  shows "worker_rank w' (length (es_queue s')) < worker_rank w (length (es_queue s)) \<and>
    (es_close_requested s \<and> w' \<noteq> Finished \<longrightarrow> es_close_requested s')"
  using assms by (cases rule: worker_step_cases) auto

text \<open>The worker alone, for at most \<open>n\<close> steps.\<close>

fun worker_run :: "'b backend \<Rightarrow> (nat \<Rightarrow> u64) \<Rightarrow> u64 \<Rightarrow> nat \<Rightarrow> worker \<Rightarrow> 'b session \<Rightarrow> worker \<times> 'b session" where
  "worker_run ops address_of elapsed 0 w s = (w, s)"
| "worker_run ops address_of elapsed (Suc n) w s =
     (case worker_step ops address_of elapsed w s of
        Blocked \<Rightarrow> (w, s)
      | Passed (w', s') \<Rightarrow> worker_run ops address_of elapsed n w' s')"

lemma worker_run_finishes:
  "worker_rank w (length (es_queue s)) \<le> n \<Longrightarrow> es_close_requested s \<or> w = Finished \<Longrightarrow>
   fst (worker_run ops address_of elapsed n w s) = Finished"
proof (induction n arbitrary: w s)
  case 0
  then show ?case by (cases w) auto
next
  case (Suc n)
  show ?case
  proof (cases "w = Finished")
    case True
    then show ?thesis by simp
  next
    case False
    with Suc.prems have "es_close_requested s" by simp
    then obtain w' s' where st: "worker_step ops address_of elapsed w s = Passed (w', s')"
      using False by (rule worker_step_progress)
    note r = worker_step_rank [OF st]
    have "worker_rank w' (length (es_queue s')) \<le> n" using r Suc.prems(1) by simp
    moreover have "es_close_requested s' \<or> w' = Finished" using r \<open>es_close_requested s\<close> by auto
    ultimately show ?thesis using st Suc.IH by simp
  qed
qed

lemma close_request_requested: "es_close_requested (close_request s)"
  by (simp add: close_request_def)

lemma close_request_queue: "es_queue (close_request s) = es_queue s"
  by (simp add: close_request_def)

section \<open>Consequences\<close>

lemma flush_inv_token:
  assumes "flush_inv y" "i < length (sy_callers y)" "sy_callers y ! i = FlushWait token"
  obtains k where "token = of_nat k" "1 \<le> k" "k \<le> length (tokens (sy_enqueued y))"
proof -
  have all: "\<forall>c \<in> set (sy_callers y). \<forall>t. flush_token c = Some t \<longrightarrow>
      (\<exists>k. t = of_nat k \<and> 1 \<le> k \<and> k \<le> length (tokens (sy_enqueued y)))"
    using assms(1) unfolding flush_inv_def by blast
  have "FlushWait token \<in> set (sy_callers y)" using nth_mem [OF assms(2)] assms(3) by simp
  from all [rule_format, OF this, of token] that show thesis by auto
qed

lemma flush_done:
  assumes inv: "system_inv ops address_of b0 n y" and i: "i < length (sy_callers y)"
    and wait: "sy_callers y ! i = FlushWait token"
    and few: "length (tokens (sy_enqueued y)) < 2 ^ 64"
    and tok: "token \<le> es_completed_flush_token (sy_session y)"
  shows "\<exists>pre post items b. sy_enqueued y = pre @ FlushItem token # post \<and>
    map fst items = pre @ [FlushItem token] \<and> (\<exists>later. sy_done y = items @ later) \<and>
    run_items ops address_of items b0 = Some b"
proof -
  let ?E = "tokens (sy_enqueued y)" and ?D = "tokens (map fst (sy_done y))"
  have fl: "flush_inv y" "fifo_inv y" "exec_inv ops address_of b0 y"
    using inv by (simp_all add: system_inv_def)
  obtain k where k: "token = of_nat k" "1 \<le> k" "k \<le> length ?E"
    using fl(1) i wait by (rule flush_inv_token)
  obtain rest b where taken: "sy_taken y = sy_done y @ rest"
      and run: "run_items ops address_of (sy_done y) b0 = Some b"
    using fl(3) unfolding exec_inv_def by blast
  have enq: "sy_enqueued y = map fst (sy_done y) @ map fst rest @ sy_dropped y @ es_queue (sy_session y)"
    using fl(2) taken by (simp add: fifo_inv_def)
  have le: "length ?D \<le> length ?E" by (simp add: enq)
  have "of_nat k \<le> (of_nat (length ?D) :: u64)" using tok k(1) fl(1) by (simp add: flush_inv_def)
  moreover have "unat (of_nat k :: u64) = k" "unat (of_nat (length ?D) :: u64) = length ?D"
    using few k(3) le by (intro unat_of_nat_u64; simp)+
  ultimately have kD: "k \<le> length ?D" by (simp add: word_le_nat_alt)
  have kl: "k - 1 < length ?D" using kD k(2) by simp
  have "?D ! (k - 1) = ?E ! (k - 1)" unfolding enq tokens_append nth_append using kl by simp
  also have "\<dots> = map of_nat [1..<Suc (length ?E)] ! (k - 1)"
    using fl(1) by (simp add: flush_inv_def)
  also have "\<dots> = token" using k by (simp add: nth_upt del: upt_Suc)
  finally have "token \<in> set ?D" using nth_mem [OF kl] by simp
  then have "FlushItem token \<in> set (map fst (sy_done y))"
  proof -
    have "t \<in> set (tokens q) \<Longrightarrow> FlushItem t \<in> set q" for t q
    proof (induction q)
      case (Cons it q)
      then show ?case by (cases it) auto
    qed simp
    then show ?thesis using \<open>token \<in> set ?D\<close> .
  qed
  then obtain it where "it \<in> set (sy_done y)" "fst it = FlushItem token" by auto
  then obtain xs ys where split: "sy_done y = xs @ it # ys" by (auto simp: in_set_conv_decomp)
  have done1: "sy_done y = (xs @ [it]) @ ys" by (simp add: split)
  obtain b1 where "run_items ops address_of (xs @ [it]) b0 = Some b1"
    using run unfolding done1 run_items_append by (auto split: option.splits)
  moreover have "map fst (xs @ [it]) = map fst xs @ [FlushItem token]"
    using \<open>fst it = FlushItem token\<close> by simp
  moreover have "sy_enqueued y = map fst xs @ FlushItem token #
      (map fst ys @ map fst rest @ sy_dropped y @ es_queue (sy_session y))"
    using enq \<open>fst it = FlushItem token\<close> by (simp add: split)
  ultimately show ?thesis using done1 by blast
qed

lemma finished_not_blocked:
  assumes inv: "system_inv ops address_of b0 n y" and fin: "sy_worker y = Finished"
    and i: "i < length (sy_callers y)" and few: "length (tokens (sy_enqueued y)) < 2 ^ 64"
  shows "caller_step elapsed True (sy_callers y ! i) (sy_session y) \<noteq> Blocked"
proof -
  let ?s = "sy_session y"
  have stop: "es_failed ?s \<or> es_queue ?s = []" "\<not> es_accepting ?s"
    using inv fin by (simp_all add: system_inv_def stop_inv_def Let_def)
  have flush: "es_completed_flush_token ?s \<ge> token"
    if wait: "sy_callers y ! i = FlushWait token" and good: "\<not> es_failed ?s" "\<not> es_canceled ?s" for token
  proof -
    have fl: "flush_inv y" "fifo_inv y" "exec_inv ops address_of b0 y"
      using inv by (simp_all add: system_inv_def)
    have "sy_taken y = sy_done y" using fl(3) fin good by (auto simp: exec_inv_def)
    moreover have "sy_dropped y = []" "es_queue ?s = []" using fl(2) good stop by (auto simp: fifo_inv_def)
    ultimately have enq: "sy_enqueued y = map fst (sy_done y)" using fl(2) by (simp add: fifo_inv_def)
    obtain k where k: "token = of_nat k" "k \<le> length (tokens (sy_enqueued y))"
      using fl(1) i wait by (rule flush_inv_token)
    have "of_nat k \<le> (of_nat (length (tokens (sy_enqueued y))) :: u64)"
      using k(2) few by (simp add: word_le_nat_alt unat_of_nat_u64)
    then show ?thesis using k(1) fl(1) enq by (simp add: flush_inv_def)
  qed
  show ?thesis
  proof (cases "sy_callers y ! i")
    case (FlushWait token)
    then show ?thesis using flush by (auto simp: flush_finish_def)
  qed (use stop in \<open>auto simp: enqueue_owned_take_def enqueue_owned_push_def
        enqueue_borrowed_push_def flush_enqueue_def Let_def split: if_splits\<close>)
qed

section \<open>An execution\<close>

text \<open>A backend that records the timestamps it is given, and a short schedule: two callers
  write, submit and flush while the worker runs.\<close>

definition log_backend :: "nat list backend" where
  "log_backend = cpu_backend_adapter (\<lambda>frame b. (Returns ok, b @ [unat (fv_pts frame)]))
     (\<lambda>b. (Returns ok, b @ [1000])) (\<lambda>b. (Returns ok, b @ [2000]))"

definition sample_config :: encoder_config where
  "sample_config = \<lparr>ec_struct_size = 56, ec_struct_version = 1, ec_output_path = Some ''out.webm'',
     ec_codec = MKVC_CODEC_VP9, ec_backend = MKVC_BACKEND_CPU, ec_width = 2, ec_height = 2,
     ec_fps_num = 30, ec_fps_den = 1, ec_quality = 30, ec_keyframe_interval_frames = 0,
     ec_threads = 1, ec_queue_size = 2\<rparr>"

definition sample_start :: "nat list system" where
  "sample_start = initial_system [] sample_config None 2"

definition sample_schedule :: "choice list" where
  "sample_schedule =
     [DoCall 0 (Write sample_i420 True), DoCaller 0 5, DoCaller 0 5, DoCaller 0 5, DoCaller 0 5,
      DoCall 1 (SubmitBorrowed (sample_i420\<lparr>fv_pts := 7\<rparr>)), DoCaller 1 3, DoCaller 1 3, DoWorker 9,
      DoCaller 0 5, DoCall 0 Flush, DoCaller 0 1, DoWorker 9, DoWorker 9, DoWorker 9, DoWorker 9, DoWorker 9,
      DoWorker 9, DoWorker 9, DoWorker 9]"

definition sample_system :: "nat list system" where
  "sample_system = (case run_schedule log_backend (\<lambda>_. 64) sample_schedule sample_start of
     Some y \<Rightarrow> y | None \<Rightarrow> sample_start)"

lemma sample_reachable:
  "reachable_system log_backend (\<lambda>_. 64) (initial_system [] sample_config None 2) sample_system"
proof -
  have "run_schedule log_backend (\<lambda>_. 64) sample_schedule sample_start \<noteq> None" by code_simp
  then have "run_schedule log_backend (\<lambda>_. 64) sample_schedule sample_start = Some sample_system"
    by (auto simp: sample_system_def)
  then show ?thesis
    unfolding sample_start_def by (rule run_schedule_reachable) (rule reachable_system.Start)
qed

text \<open>The same run, closed and drained.\<close>

definition sample_closed :: "nat list system" where
  "sample_closed = (case run_schedule log_backend (\<lambda>_. 64)
      (sample_schedule @ [DoCaller 1 2, DoCall 1 Close, DoWorker 4, DoWorker 4, DoWorker 4])
      sample_start of
     Some y \<Rightarrow> y | None \<Rightarrow> sample_start)"

lemma sample_closed_reachable:
  "reachable_system log_backend (\<lambda>_. 64) (initial_system [] sample_config None 2) sample_closed"
proof -
  have "run_schedule log_backend (\<lambda>_. 64)
      (sample_schedule @ [DoCaller 1 2, DoCall 1 Close, DoWorker 4, DoWorker 4, DoWorker 4])
      sample_start \<noteq> None" by code_simp
  then have "run_schedule log_backend (\<lambda>_. 64)
      (sample_schedule @ [DoCaller 1 2, DoCall 1 Close, DoWorker 4, DoWorker 4, DoWorker 4])
      sample_start = Some sample_closed"
    by (auto simp: sample_closed_def)
  then show ?thesis
    unfolding sample_start_def by (rule run_schedule_reachable) (rule reachable_system.Start)
qed

fun returns_ok :: "caller \<Rightarrow> bool" where
  "returns_ok (Returned st) = (fst st = MKVC_OK)"
| "returns_ok _ = False"

section \<open>Properties\<close>

text \<open>C9. Under every interleaving of callers and worker the queue never exceeds the
  configured bound, and no frame buffer is created or duplicated: those that are free, queued,
  held by callers and held by the worker together never exceed it either.\<close>

theorem encoder_queue_bounded:
  assumes "reachable_system ops address_of (initial_system b config fail_after n) y"
  shows "length (es_queue (sy_session y)) \<le> unat (ec_queue_size config) \<and>
    length (es_free_frames (sy_session y)) + owned_items (es_queue (sy_session y)) +
      sum_list (map held (sy_callers y)) + worker_held (sy_worker y) \<le> unat (ec_queue_size config)"
  using system_inv_reachable [OF assms] by (simp add: system_inv_def flags_inv_def frames_inv_def)

theorem encoder_queue_bounded_witness:
  "length (es_queue (sy_session sample_system)) \<le> unat (ec_queue_size sample_config) \<and>
    length (es_free_frames (sy_session sample_system)) + owned_items (es_queue (sy_session sample_system)) +
      sum_list (map held (sy_callers sample_system)) + worker_held (sy_worker sample_system)
      \<le> unat (ec_queue_size sample_config)"
  by (rule encoder_queue_bounded [OF sample_reachable])

text \<open>C10. The asynchronous encoder refines the sequential one: whatever the interleaving, what
  was queued is what the worker took, then what a cancel or failure discarded, then what is
  still queued; all but at most one of the items taken have been executed, one after the other
  in queue order and each with success, and while the worker waits the backend is in exactly
  the state that this sequential run produces.\<close>

theorem encoder_refines_sequential:
  assumes "reachable_system ops address_of (initial_system b config fail_after n) y"
  shows "sy_enqueued y = map fst (sy_taken y) @ sy_dropped y @ es_queue (sy_session y) \<and>
    (\<exists>rest b'. sy_taken y = sy_done y @ rest \<and> length rest \<le> 1 \<and>
       run_items ops address_of (sy_done y) b = Some b' \<and>
       (sy_worker y = Waiting \<longrightarrow> rest = [] \<and> es_backend (sy_session y) = b'))"
proof -
  have inv: "fifo_inv y" "exec_inv ops address_of b y"
    using system_inv_reachable [OF assms] by (simp_all add: system_inv_def)
  from inv(2) obtain rest b' where "sy_taken y = sy_done y @ rest"
      "run_items ops address_of (sy_done y) b = Some b'" "length rest \<le> 1"
      "sy_worker y = Waiting \<longrightarrow> rest = [] \<and> es_backend (sy_session y) = b'"
    unfolding exec_inv_def by (cases "sy_worker y") auto
  then show ?thesis using inv(1) unfolding fifo_inv_def by blast
qed

theorem encoder_refines_sequential_witness:
  "sy_enqueued sample_system = map fst (sy_taken sample_system) @ sy_dropped sample_system @
      es_queue (sy_session sample_system) \<and>
    (\<exists>rest b'. sy_taken sample_system = sy_done sample_system @ rest \<and> length rest \<le> 1 \<and>
       run_items log_backend (\<lambda>_. 64) (sy_done sample_system) [] = Some b' \<and>
       (sy_worker sample_system = Waiting \<longrightarrow> rest = [] \<and> es_backend (sy_session sample_system) = b'))"
  by (rule encoder_refines_sequential [OF sample_reachable])

text \<open>C11. A flush is a barrier: when it returns success, everything queued before it has been
  executed by the backend, in order and with success, followed by the flush itself. (The
  tokens are 64-bit, so the run must have fewer than \<open>2^64\<close> flushes.)\<close>

theorem flush_is_barrier:
  assumes "reachable_system ops address_of (initial_system b config fail_after n) y"
    and "i < length (sy_callers y)" "flush_token (sy_callers y ! i) = Some token"
    and "flush_finish token (sy_session y) = Passed (c, s')" "returns_ok c"
    and "length (tokens (sy_enqueued y)) < 2 ^ 64"
  shows "\<exists>before after items b'. sy_enqueued y = before @ FlushItem token # after \<and>
    map fst items = before @ [FlushItem token] \<and> (\<exists>later. sy_done y = items @ later) \<and>
    run_items ops address_of items b = Some b'"
proof -
  note inv = system_inv_reachable [OF assms(1)]
  have wait: "sy_callers y ! i = FlushWait token"
    using assms(3) by (cases "sy_callers y ! i") simp_all
  have "terminal_inv (sy_session y)" using inv by (simp add: system_inv_def)
  then have "token \<le> es_completed_flush_token (sy_session y)"
    using assms(4,5) by (auto simp: flush_finish_def terminal_inv_def split: if_splits)
  then show ?thesis by (rule flush_done [OF inv assms(2) wait assms(6)])
qed

theorem flush_is_barrier_witness:
  "\<exists>before after items b'. sy_enqueued sample_system = before @ FlushItem 1 # after \<and>
    map fst items = before @ [FlushItem 1] \<and> (\<exists>later. sy_done sample_system = items @ later) \<and>
    run_items log_backend (\<lambda>_. 64) items [] = Some b'"
proof (rule flush_is_barrier [OF sample_reachable, of 0 1 "Returned ok" "sy_session sample_system"])
  show "0 < length (sy_callers sample_system)" by code_simp
  show "flush_token (sy_callers sample_system ! 0) = Some 1" by code_simp
  have "1 \<le> es_completed_flush_token (sy_session sample_system)" by code_simp
  moreover have "\<not> es_failed (sy_session sample_system)" by code_simp
  moreover have "\<not> es_canceled (sy_session sample_system)" by code_simp
  ultimately show "flush_finish 1 (sy_session sample_system) = Passed (Returned ok, sy_session sample_system)"
    by (simp add: flush_finish_def)
  show "returns_ok (Returned ok)" by simp
  have "length (tokens (sy_enqueued sample_system)) < 2" by code_simp
  then show "length (tokens (sy_enqueued sample_system)) < 2 ^ 64" by simp
qed

text \<open>C12. Completion of borrowed frames: a submission reports success only if the backend
  finished its frame with success, and once the worker thread has ended none is pending.\<close>

theorem submissions_complete:
  assumes "reachable_system ops address_of (initial_system b config fail_after n) y"
    and "i < length (es_submissions (sy_session y))"
  shows "(fst (query_submission (es_submissions (sy_session y) ! i)) = MKVC_SUBMISSION_COMPLETE \<longrightarrow>
      i \<in> sub_ids (map fst (sy_done y))) \<and>
    (joinable (sy_worker y) \<longrightarrow>
      fst (query_submission (es_submissions (sy_session y) ! i)) \<noteq> MKVC_SUBMISSION_PENDING)"
proof -
  have inv: "subs_inv y" "stop_inv y" using system_inv_reachable [OF assms(1)] by (simp_all add: system_inv_def)
  let ?s = "es_submissions (sy_session y) ! i"
  have "fst (query_submission ?s) = MKVC_SUBMISSION_COMPLETE \<Longrightarrow>
      sub_terminal ?s \<and> sub_result ?s = MKVC_OK"
    by (simp add: query_submission_def split: if_splits)
  moreover have "sub_terminal ?s \<Longrightarrow> fst (query_submission ?s) \<noteq> MKVC_SUBMISSION_PENDING"
    by (simp add: query_submission_def)
  ultimately show ?thesis using inv assms(2) by (auto simp: subs_inv_def stop_inv_def Let_def)
qed

theorem submissions_complete_witness:
  "0 \<in> sub_ids (map fst (sy_done sample_closed)) \<and>
    fst (query_submission (es_submissions (sy_session sample_closed) ! 0)) \<noteq> MKVC_SUBMISSION_PENDING"
proof -
  have "fst (query_submission (es_submissions (sy_session sample_closed) ! 0)) = MKVC_SUBMISSION_COMPLETE"
    "joinable (sy_worker sample_closed)" by code_simp+
  moreover have "0 < length (es_submissions (sy_session sample_closed))" by code_simp
  ultimately show ?thesis using submissions_complete [OF sample_closed_reachable] by blast
qed



text \<open>C14. Closing terminates: from the moment a close is requested the worker, left to
  itself, drains its queue, finalizes the backend and ends within \<open>3 * |queue| + 5\<close> steps,
  whatever the backend returns or throws.\<close>

theorem close_drains:
  "fst (worker_run ops address_of elapsed (3 * length (es_queue s) + 5) w (close_request s)) = Finished"
  by (rule worker_run_finishes)
    (cases w; simp add: close_request_requested close_request_queue)+

end
