(* ===== verification/GpuFrame.thy ===== *)
theory GpuFrame
  imports SlotPool Abi
begin

text \<open>
  GPU frames and their leases: src/gpu/gpu_frame.cpp (completions, the shared core behind a frame,
  its opaque handle) and the C functions of src/gpu/gpu_frame_c_api.cpp. A completion is named by
  a number; what a query of it answers at the moment of a call is the parameter \<open>query\<close>. The
  recycle callback is modelled by the list of generations it was called with. A C function returns
  its result code with the calling thread's diagnostic text after the call (\<open>diag\<close> before it).
\<close>

section \<open>Structures\<close>

abbreviation MKVC_GPU_MEMORY_D3D11_TEXTURE :: u32 where "MKVC_GPU_MEMORY_D3D11_TEXTURE \<equiv> 1"
abbreviation MKVC_GPU_MEMORY_VA_SURFACE :: u32 where "MKVC_GPU_MEMORY_VA_SURFACE \<equiv> 2"
abbreviation MKVC_GPU_MEMORY_CUDA_POINTER :: u32 where "MKVC_GPU_MEMORY_CUDA_POINTER \<equiv> 3"
abbreviation MKVC_GPU_MEMORY_CUDA_ARRAY :: u32 where "MKVC_GPU_MEMORY_CUDA_ARRAY \<equiv> 4"
abbreviation MKVC_GPU_MEMORY_USM :: u32 where "MKVC_GPU_MEMORY_USM \<equiv> 5"

abbreviation MKVC_GPU_NATIVE_D3D11_TEXTURE :: u32 where "MKVC_GPU_NATIVE_D3D11_TEXTURE \<equiv> 1"
abbreviation MKVC_GPU_NATIVE_VA_SURFACE :: u32 where "MKVC_GPU_NATIVE_VA_SURFACE \<equiv> 2"
abbreviation MKVC_GPU_NATIVE_CUDA_POINTER :: u32 where "MKVC_GPU_NATIVE_CUDA_POINTER \<equiv> 3"
abbreviation MKVC_GPU_NATIVE_CUDA_ARRAY :: u32 where "MKVC_GPU_NATIVE_CUDA_ARRAY \<equiv> 4"
abbreviation MKVC_GPU_NATIVE_USM_POINTER :: u32 where "MKVC_GPU_NATIVE_USM_POINTER \<equiv> 5"

datatype gpu_status = CompletionPending | CompletionDone | CompletionFailed

record gpu_frame_desc =
  gd_struct_size :: u32
  gd_struct_version :: u32
  gd_backend :: u32
  gd_memory_type :: u32
  gd_device_id :: u64
  gd_generation :: u64
  gd_pixel_format :: u32
  gd_width :: u32
  gd_height :: u32
  gd_plane_count :: u32
  gd_plane_offsets :: "u64 list"
  gd_pitches :: "u64 list"
  gd_pts :: i64
  gd_color_primaries :: u32
  gd_color_transfer :: u32
  gd_color_matrix :: u32
  gd_color_range :: u32

record gpu_native_handle_desc =
  gn_struct_size :: u32
  gn_struct_version :: u32
  gn_type :: u32
  gn_borrowed :: u32
  gn_device_id :: u64
  gn_generation :: u64
  gn_handles :: "u64 list"

abbreviation sizeof_gpu_frame_desc :: u32 where "sizeof_gpu_frame_desc \<equiv> 136"
abbreviation sizeof_gpu_native_handle_desc :: u32 where "sizeof_gpu_native_handle_desc \<equiv> 64"

section \<open>Completions\<close>

text \<open>\<^verbatim>\<open>ManualCompletion\<close>: a query returns the status and the text it stores in \<open>error\<close>.\<close>

record manual_completion =
  mc_status :: gpu_status
  mc_error :: string

definition new_manual :: manual_completion where
  "new_manual = \<lparr>mc_status = CompletionPending, mc_error = []\<rparr>"

definition manual_query :: "manual_completion \<Rightarrow> gpu_status \<times> string" where
  "manual_query c = (mc_status c, if mc_status c = CompletionFailed then mc_error c else [])"

definition manual_wait :: "u32 \<Rightarrow> bool \<Rightarrow> manual_completion \<Rightarrow> status section_outcome" where
  "manual_wait timeout_ms expired c =
     (if mc_status c = CompletionPending
      then (if timeout_ms = - 1 \<or> \<not> (expired \<or> timeout_ms = 0) then Blocked
            else Passed (MKVC_ERROR_TIMEOUT, []))
      else if mc_status c = CompletionFailed then Passed (MKVC_ERROR_CODEC, mc_error c)
      else Passed ok)"

definition manual_complete :: "manual_completion \<Rightarrow> manual_completion" where
  "manual_complete c = c\<lparr>mc_status := CompletionDone\<rparr>"

definition manual_fail :: "string \<Rightarrow> manual_completion \<Rightarrow> manual_completion" where
  "manual_fail error c = c\<lparr>mc_error := error, mc_status := CompletionFailed\<rparr>"

text \<open>\<^verbatim>\<open>CallbackCompletion\<close>: one answer of the callback is its result, the completion flag and the
  text; a wait polls until an answer settles it or the deadline has passed, \<open>polls\<close> being the
  successive answers with the milliseconds gone by when the clock is read behind each.\<close>

definition callback_query :: "mkvc_result \<times> bool \<times> string \<Rightarrow> gpu_status \<times> string" where
  "callback_query answer = (case answer of (result, complete, error) \<Rightarrow>
     (if result \<noteq> MKVC_OK then CompletionFailed
      else if complete then CompletionDone else CompletionPending, error))"

fun callback_wait :: "u32 \<Rightarrow> ((mkvc_result \<times> bool \<times> string) \<times> nat) list \<Rightarrow> status section_outcome" where
  "callback_wait timeout_ms [] = Blocked"
| "callback_wait timeout_ms (((result, complete, error), gone) # polls) =
     (if result \<noteq> MKVC_OK \<or> complete then Passed (result, error)
      else if timeout_ms \<noteq> - 1 \<and> gone \<ge> unat timeout_ms then Passed (MKVC_ERROR_TIMEOUT, error)
      else callback_wait timeout_ms polls)"

section \<open>The core of a frame\<close>

datatype backend_resource = NoResource | IntelVplSurface u64 | NvidiaCudaFrame u64

record gpu_frame_core =
  gc_desc :: gpu_frame_desc
  gc_producer :: "nat option"
  gc_callback :: bool \<comment> \<open>a recycle callback is set\<close>
  gc_leases :: u32
  gc_consumers :: "nat list"
  gc_recycled :: bool
  gc_native :: "gpu_native_handle_desc option"
  gc_resource :: backend_resource
  gc_calls :: "u64 list" \<comment> \<open>generations the callback was called with\<close>

definition new_core ::
    "gpu_frame_desc \<Rightarrow> nat option \<Rightarrow> bool \<Rightarrow> gpu_native_handle_desc option \<Rightarrow> backend_resource \<Rightarrow> gpu_frame_core" where
  "new_core desc producer callback native resource =
     \<lparr>gc_desc = desc, gc_producer = producer, gc_callback = callback, gc_leases = 0,
      gc_consumers = [], gc_recycled = False, gc_native = native, gc_resource = resource,
      gc_calls = []\<rparr>"

definition completions_done :: "(nat \<Rightarrow> gpu_status) \<Rightarrow> gpu_frame_core \<Rightarrow> bool" where
  "completions_done query c =
     (case gc_producer c of
        None \<Rightarrow> False
      | Some p \<Rightarrow> query p \<noteq> CompletionPending \<and>
          list_all (\<lambda>k. query k \<noteq> CompletionPending) (gc_consumers c))"

definition maybe_recycle :: "(nat \<Rightarrow> gpu_status) \<Rightarrow> gpu_frame_core \<Rightarrow> gpu_frame_core" where
  "maybe_recycle query c =
     (if gc_recycled c \<or> gc_leases c \<noteq> 0 \<or> \<not> completions_done query c then c
      else let c = c\<lparr>gc_recycled := True\<rparr>
           in if gc_callback c then c\<lparr>gc_calls := gc_calls c @ [gd_generation (gc_desc c)]\<rparr> else c)"

text \<open>The destructor waits for every completion, then drops the leases; \<open>query\<close> is asked while it
  waits and again when it recycles.\<close>

definition destroy_core :: "(nat \<Rightarrow> gpu_status) \<Rightarrow> gpu_frame_core \<Rightarrow> gpu_frame_core section_outcome" where
  "destroy_core query c =
     (if gc_recycled c then Passed c
      else let completions = (case gc_producer c of None \<Rightarrow> [] | Some p \<Rightarrow> [p]) @ gc_consumers c
      in if list_all (\<lambda>k. query k \<noteq> CompletionPending) completions
         then Passed (maybe_recycle query (c\<lparr>gc_leases := 0\<rparr>)) else Blocked)"

definition acquire_external :: "gpu_frame_core \<Rightarrow> gpu_frame_core call" where
  "acquire_external c =
     (if gc_recycled c then Throws (Some ''GPU frame slot is already recycled'')
      else Returns (c\<lparr>gc_leases := gc_leases c + 1\<rparr>))"

definition release_external :: "(nat \<Rightarrow> gpu_status) \<Rightarrow> gpu_frame_core \<Rightarrow> gpu_frame_core" where
  "release_external query c =
     maybe_recycle query (if gc_leases c \<noteq> 0 then c\<lparr>gc_leases := gc_leases c - 1\<rparr> else c)"

definition add_consumer :: "nat option \<Rightarrow> gpu_frame_core \<Rightarrow> status \<times> gpu_frame_core" where
  "add_consumer completion c =
     (case completion of
        None \<Rightarrow> ((MKVC_ERROR_INVALID_ARGUMENT, ''consumer completion is null''), c)
      | Some k \<Rightarrow>
          if gc_recycled c then ((MKVC_ERROR_INVALID_STATE, ''GPU frame slot is already recycled''), c)
          else (ok, c\<lparr>gc_consumers := gc_consumers c @ [k]\<rparr>))"

definition poll_recycle :: "(nat \<Rightarrow> gpu_status) \<Rightarrow> gpu_frame_core \<Rightarrow> gpu_frame_core" where
  "poll_recycle query c = maybe_recycle query c"

definition get_native_handle :: "gpu_frame_core \<Rightarrow> gpu_native_handle_desc outcome" where
  "get_native_handle c =
     (if gc_recycled c then Inl (MKVC_ERROR_INVALID_STATE, ''GPU frame slot is already recycled'')
      else (case gc_native c of
              None \<Rightarrow> Inl (MKVC_ERROR_NOT_SUPPORTED, ''GPU frame has no exportable native handle'')
            | Some native \<Rightarrow> Inr native))"

section \<open>Handles\<close>

record gpu_frame_handle =
  gf_references :: u32
  gf_has_core :: bool
  gf_generation :: u64

text \<open>\<open>allocated\<close> says whether the allocation of the handle succeeds.\<close>

definition make_handle ::
    "(nat \<Rightarrow> gpu_status) \<Rightarrow> bool \<Rightarrow> gpu_frame_core option \<Rightarrow>
     gpu_frame_handle option call \<times> gpu_frame_core option" where
  "make_handle query allocated core =
     (case core of
        None \<Rightarrow> (Returns None, None)
      | Some c \<Rightarrow>
          (case acquire_external c of
             Throws what \<Rightarrow> (Throws what, Some c)
           | Returns c' \<Rightarrow>
               if allocated
               then (Returns (Some \<lparr>gf_references = 1, gf_has_core = True,
                       gf_generation = gd_generation (gc_desc c')\<rparr>), Some c')
               else (Throws (Some ''std::bad_alloc''), Some (release_external query c'))))"

definition valid_frame :: "gpu_frame_handle option \<Rightarrow> gpu_frame_core \<Rightarrow> bool" where
  "valid_frame frame c = (case frame of
     None \<Rightarrow> False
   | Some f \<Rightarrow> gf_has_core f \<and> gf_generation f = gd_generation (gc_desc c) \<and> \<not> gc_recycled c)"

text \<open>\<^verbatim>\<open>get_core\<close> hands out the core only of a handle that is still valid.\<close>

definition get_core :: "gpu_frame_handle option \<Rightarrow> gpu_frame_core \<Rightarrow> gpu_frame_core option" where
  "get_core frame c =
     (case frame of
        None \<Rightarrow> None
      | Some f \<Rightarrow> if \<not> gf_has_core f \<or> gf_generation f \<noteq> gd_generation (gc_desc c) \<or> gc_recycled c
                  then None else Some c)"

section \<open>The C functions\<close>

definition gpu_frame_retain ::
    "gpu_frame_handle option \<Rightarrow> gpu_frame_core \<Rightarrow> string \<Rightarrow> status \<times> gpu_frame_handle option" where
  "gpu_frame_retain frame c diag =
     (if \<not> valid_frame frame c
      then ((MKVC_ERROR_INVALID_STATE, ''invalid or released GPU frame''), frame)
      else ((MKVC_OK, diag), map_option (\<lambda>f. f\<lparr>gf_references := gf_references f + 1\<rparr>) frame))"

text \<open>The handle is gone (\<open>None\<close>) behind the last release.\<close>

definition gpu_frame_release ::
    "(nat \<Rightarrow> gpu_status) \<Rightarrow> gpu_frame_handle option \<Rightarrow> gpu_frame_core \<Rightarrow>
     gpu_frame_handle option \<times> gpu_frame_core" where
  "gpu_frame_release query frame c =
     (case frame of
        None \<Rightarrow> (None, c)
      | Some f \<Rightarrow>
          if gf_references f = 1 then (None, release_external query c)
          else (Some (f\<lparr>gf_references := gf_references f - 1\<rparr>), c))"

definition gpu_frame_get_desc ::
    "gpu_frame_handle option \<Rightarrow> out_struct \<Rightarrow> gpu_frame_core \<Rightarrow> string \<Rightarrow> status \<times> gpu_frame_desc option" where
  "gpu_frame_get_desc frame out c diag =
     (if \<not> valid_frame frame c
      then ((MKVC_ERROR_INVALID_STATE, ''invalid or released GPU frame''), None)
      else if \<not> valid_output sizeof_gpu_frame_desc out
      then ((MKVC_ERROR_INVALID_ARGUMENT, ''invalid GPU frame descriptor''), None)
      else ((MKVC_OK, diag), Some (gc_desc c)))"

text \<open>\<open>answer\<close> is what the producer's completion answers; \<open>query\<close> what completions answer to the
  poll behind it. The producer of a valid frame is never null.\<close>

definition gpu_frame_query_completion ::
    "(nat \<Rightarrow> gpu_status) \<Rightarrow> gpu_status \<times> string \<Rightarrow> gpu_frame_handle option \<Rightarrow> bool \<Rightarrow> gpu_frame_core \<Rightarrow> string \<Rightarrow>
     (status \<times> gpu_status option) \<times> gpu_frame_core" where
  "gpu_frame_query_completion query answer frame out_given c diag =
     (if \<not> valid_frame frame c
      then (((MKVC_ERROR_INVALID_STATE, ''invalid or released GPU frame''), None), c)
      else if \<not> out_given
      then (((MKVC_ERROR_INVALID_ARGUMENT, ''completion output is null''), None), c)
      else (case answer of (st, error) \<Rightarrow>
        ((if st = CompletionFailed then (MKVC_ERROR_CODEC, error) else (MKVC_OK, diag), Some st),
         poll_recycle query c)))"

definition gpu_frame_wait ::
    "(nat \<Rightarrow> gpu_status) \<Rightarrow> status section_outcome \<Rightarrow> gpu_frame_handle option \<Rightarrow> gpu_frame_core \<Rightarrow> string \<Rightarrow>
     (status \<times> gpu_frame_core) section_outcome" where
  "gpu_frame_wait query waited frame c diag =
     (if \<not> valid_frame frame c
      then Passed ((MKVC_ERROR_INVALID_STATE, ''invalid or released GPU frame''), c)
      else (case waited of
              Blocked \<Rightarrow> Blocked
            | Passed (result, error) \<Rightarrow>
                Passed (if result = MKVC_OK then (MKVC_OK, diag) else (result, error), poll_recycle query c)))"

definition gpu_frame_get_native_handle ::
    "gpu_frame_handle option \<Rightarrow> out_struct \<Rightarrow> gpu_frame_core \<Rightarrow> string \<Rightarrow>
     status \<times> gpu_native_handle_desc option" where
  "gpu_frame_get_native_handle frame out c diag =
     (if \<not> valid_frame frame c
      then ((MKVC_ERROR_INVALID_STATE, ''invalid or released GPU frame''), None)
      else if \<not> valid_output sizeof_gpu_native_handle_desc out
      then ((MKVC_ERROR_INVALID_ARGUMENT, ''invalid native handle output''), None)
      else (case get_native_handle c of
              Inl st \<Rightarrow> (st, None)
            | Inr native \<Rightarrow> ((MKVC_OK, diag), Some native)))"

section \<open>A frame and its holders\<close>

text \<open>The handles of a frame that are out, and what their holders, the backends that consume the
  frame and its pool do. A handle is named by its position.\<close>

record frame_system =
  fs_core :: gpu_frame_core
  fs_handles :: "gpu_frame_handle list"

datatype frame_op =
    MakeHandle bool | RetainHandle nat | ReleaseHandle nat | AddConsumer "nat option"
  | QueryHandle nat "gpu_status \<times> string" | WaitHandle nat "status section_outcome" | PollRecycle

definition remove_nth :: "nat \<Rightarrow> 'a list \<Rightarrow> 'a list" where
  "remove_nth i xs = take i xs @ drop (Suc i) xs"

fun frame_step :: "(nat \<Rightarrow> gpu_status) \<Rightarrow> frame_op \<Rightarrow> frame_system \<Rightarrow> frame_system" where
  "frame_step query (MakeHandle allocated) y =
     (case make_handle query allocated (Some (fs_core y)) of
        (Returns (Some f), Some c) \<Rightarrow> y\<lparr>fs_core := c, fs_handles := fs_handles y @ [f]\<rparr>
      | (_, Some c) \<Rightarrow> y\<lparr>fs_core := c\<rparr>
      | (_, None) \<Rightarrow> y)"
| "frame_step query (RetainHandle i) y =
     (if i < length (fs_handles y)
      then (case gpu_frame_retain (Some (fs_handles y ! i)) (fs_core y) [] of
              (_, Some f) \<Rightarrow> y\<lparr>fs_handles := (fs_handles y)[i := f]\<rparr> | (_, None) \<Rightarrow> y)
      else y)"
| "frame_step query (ReleaseHandle i) y =
     (if i < length (fs_handles y)
      then (case gpu_frame_release query (Some (fs_handles y ! i)) (fs_core y) of
              (Some f, c) \<Rightarrow> y\<lparr>fs_core := c, fs_handles := (fs_handles y)[i := f]\<rparr>
            | (None, c) \<Rightarrow> y\<lparr>fs_core := c, fs_handles := remove_nth i (fs_handles y)\<rparr>)
      else y)"
| "frame_step query (AddConsumer completion) y =
     y\<lparr>fs_core := snd (add_consumer completion (fs_core y))\<rparr>"
| "frame_step query (QueryHandle i answer) y =
     (if i < length (fs_handles y)
      then y\<lparr>fs_core := snd (gpu_frame_query_completion query answer (Some (fs_handles y ! i)) True (fs_core y) [])\<rparr>
      else y)"
| "frame_step query (WaitHandle i waited) y =
     (if i < length (fs_handles y)
      then (case gpu_frame_wait query waited (Some (fs_handles y ! i)) (fs_core y) [] of
              Blocked \<Rightarrow> y | Passed (_, c) \<Rightarrow> y\<lparr>fs_core := c\<rparr>)
      else y)"
| "frame_step query PollRecycle y = y\<lparr>fs_core := poll_recycle query (fs_core y)\<rparr>"

fun frame_run :: "((nat \<Rightarrow> gpu_status) \<times> frame_op) list \<Rightarrow> frame_system \<Rightarrow> frame_system" where
  "frame_run [] y = y"
| "frame_run ((query, op) # ops) y = frame_run ops (frame_step query op y)"

section \<open>Invariants of a frame and its holders\<close>

definition frame_inv :: "nat \<Rightarrow> frame_system \<Rightarrow> bool" where
  "frame_inv n y \<longleftrightarrow>
     (let c = fs_core y; hs = fs_handles y in
      (\<forall>f \<in> set hs. gf_has_core f \<and> gf_generation f = gd_generation (gc_desc c) \<and>
         0 < unat (gf_references f) \<and> unat (gf_references f) \<le> n) \<and>
      unat (gc_leases c) = length hs \<and> length hs \<le> n \<and>
      (gc_recycled c \<longrightarrow> hs = []) \<and>
      gc_calls c = (if gc_recycled c \<and> gc_callback c then [gd_generation (gc_desc c)] else []))"

text \<open>What never changes in a core.\<close>

definition same_frame :: "gpu_frame_core \<Rightarrow> gpu_frame_core \<Rightarrow> bool" where
  "same_frame c c' \<longleftrightarrow> gc_desc c' = gc_desc c \<and> gc_callback c' = gc_callback c \<and>
     gc_producer c' = gc_producer c \<and> gc_native c' = gc_native c \<and> gc_resource c' = gc_resource c"

lemma same_frame_refl [simp]: "same_frame c c"
  by (simp add: same_frame_def)

lemma same_frame_trans: "same_frame a b \<Longrightarrow> same_frame b c \<Longrightarrow> same_frame a c"
  by (simp add: same_frame_def)

lemma maybe_recycle_facts:
  "same_frame c (maybe_recycle query c)" "gc_leases (maybe_recycle query c) = gc_leases c"
  "gc_leases c \<noteq> 0 \<Longrightarrow> maybe_recycle query c = c"
  "gc_recycled c \<Longrightarrow> maybe_recycle query c = c"
  by (simp_all add: maybe_recycle_def same_frame_def Let_def)

lemma maybe_recycle_inv:
  assumes "frame_inv n (y\<lparr>fs_core := c\<rparr>)"
  shows "frame_inv n (y\<lparr>fs_core := maybe_recycle query c\<rparr>)"
  using assms by (auto simp: frame_inv_def maybe_recycle_def Let_def)

lemma frame_inv_mono: "frame_inv n y \<Longrightarrow> n \<le> m \<Longrightarrow> frame_inv m y"
  by (fastforce simp: frame_inv_def Let_def)

lemma poll_inv: "frame_inv n y \<Longrightarrow> frame_inv n (y\<lparr>fs_core := poll_recycle query (fs_core y)\<rparr>)"
  unfolding poll_recycle_def by (rule maybe_recycle_inv) simp

lemma make_handle_inv:
  assumes inv: "frame_inv n y" and room: "Suc n < 4294967296"
  shows "frame_inv (Suc n) (frame_step query (MakeHandle allocated) y)"
proof (cases "gc_recycled (fs_core y)")
  case True
  then show ?thesis using frame_inv_mono [OF inv, of "Suc n"] by (simp add: make_handle_def acquire_external_def)
next
  case live: False
  let ?c = "fs_core y"
  have leases: "unat (gc_leases ?c) = length (fs_handles y)" "length (fs_handles y) \<le> n"
    using inv by (simp_all add: frame_inv_def Let_def)
  then have one: "unat (gc_leases ?c + 1) = Suc (length (fs_handles y))"
    using room u32_succ [of "gc_leases ?c"] by simp
  have calls: "gc_calls ?c = []" using inv live by (simp add: frame_inv_def Let_def)
  show ?thesis
  proof (cases allocated)
    case True
    then show ?thesis using inv live one leases(2) calls
      by (auto simp: make_handle_def acquire_external_def frame_inv_def Let_def)
  next
    case False
    have nz: "gc_leases ?c + 1 \<noteq> 0" using one by force
    have "release_external query (?c\<lparr>gc_leases := gc_leases ?c + 1\<rparr>) = maybe_recycle query ?c"
      using nz by (simp add: release_external_def)
    then have "frame_step query (MakeHandle allocated) y = y\<lparr>fs_core := maybe_recycle query ?c\<rparr>"
      using live False by (simp add: make_handle_def acquire_external_def)
    then show ?thesis using poll_inv [OF inv, of query] by (simp add: poll_recycle_def frame_inv_mono)
  qed
qed

lemma retain_inv:
  assumes inv: "frame_inv n y" and room: "Suc n < 4294967296"
  shows "frame_inv (Suc n) (frame_step query (RetainHandle i) y)"
proof (cases "i < length (fs_handles y) \<and> valid_frame (Some (fs_handles y ! i)) (fs_core y)")
  case True
  let ?f = "fs_handles y ! i"
  have mem: "?f \<in> set (fs_handles y)" using True by simp
  then have f: "0 < unat (gf_references ?f)" "unat (gf_references ?f) \<le> n" "gf_has_core ?f"
      "gf_generation ?f = gd_generation (gc_desc (fs_core y))"
    using inv by (simp_all add: frame_inv_def Let_def)
  then have "unat (gf_references ?f + 1) = Suc (unat (gf_references ?f))" using room by (intro u32_succ) simp
  then have "\<forall>g \<in> set ((fs_handles y)[i := ?f\<lparr>gf_references := gf_references ?f + 1\<rparr>]).
      gf_has_core g \<and> gf_generation g = gd_generation (gc_desc (fs_core y)) \<and>
      0 < unat (gf_references g) \<and> unat (gf_references g) \<le> Suc n"
    using inv f set_update_subset_insert [of "fs_handles y" i]
    by (fastforce simp: frame_inv_def Let_def)
  then show ?thesis using inv True by (auto simp: frame_inv_def Let_def gpu_frame_retain_def)
next
  case False
  then have "frame_step query (RetainHandle i) y = y" by (auto simp: gpu_frame_retain_def)
  then show ?thesis using frame_inv_mono [OF inv, of "Suc n"] by simp
qed

lemma set_remove_nth: "set (remove_nth i xs) \<subseteq> set xs"
  by (auto simp: remove_nth_def dest: in_set_takeD in_set_dropD)

lemma length_remove_nth: "i < length xs \<Longrightarrow> length (remove_nth i xs) = length xs - 1"
  by (simp add: remove_nth_def)

lemma release_inv:
  assumes inv: "frame_inv n y"
  shows "frame_inv n (frame_step query (ReleaseHandle i) y)"
proof (cases "i < length (fs_handles y)")
  case True
  let ?f = "fs_handles y ! i"
  have mem: "?f \<in> set (fs_handles y)" using True by simp
  then have f: "0 < unat (gf_references ?f)" "unat (gf_references ?f) \<le> n" "gf_has_core ?f"
      "gf_generation ?f = gd_generation (gc_desc (fs_core y))"
    using inv by (simp_all add: frame_inv_def Let_def)
  have leases: "unat (gc_leases (fs_core y)) = length (fs_handles y)"
    and live: "\<not> gc_recycled (fs_core y)"
    using inv True by (auto simp: frame_inv_def Let_def)
  have nz: "gc_leases (fs_core y) \<noteq> 0" using leases True by (auto simp flip: unat_gt_0)
  show ?thesis
  proof (cases "gf_references ?f = 1")
    case last: True
    let ?c = "(fs_core y)\<lparr>gc_leases := gc_leases (fs_core y) - 1\<rparr>"
    let ?y = "y\<lparr>fs_core := ?c, fs_handles := remove_nth i (fs_handles y)\<rparr>"
    have "unat (gc_leases (fs_core y) - 1) = length (fs_handles y) - 1" using leases nz by (simp add: word_pred)
    then have "frame_inv n ?y"
      using inv live length_remove_nth [OF True] set_remove_nth [of i "fs_handles y"]
      by (fastforce simp: frame_inv_def Let_def)
    then have "frame_inv n (?y\<lparr>fs_core := maybe_recycle query ?c\<rparr>)"
      by (intro maybe_recycle_inv) (cases y, simp)
    moreover have "frame_step query (ReleaseHandle i) y = ?y\<lparr>fs_core := maybe_recycle query ?c\<rparr>"
      using True last nz by (simp add: gpu_frame_release_def release_external_def)
    ultimately show ?thesis by simp
  next
    case False
    have "unat (gf_references ?f - 1) = unat (gf_references ?f) - 1" using f(1) by (intro word_pred) auto
    moreover have "unat (gf_references ?f) \<noteq> 1" using False by (metis unsigned_1 word_unat_eq_iff)
    ultimately have "0 < unat (gf_references ?f - 1) \<and> unat (gf_references ?f - 1) \<le> n" using f by simp
    then have "\<forall>g \<in> set ((fs_handles y)[i := ?f\<lparr>gf_references := gf_references ?f - 1\<rparr>]).
        gf_has_core g \<and> gf_generation g = gd_generation (gc_desc (fs_core y)) \<and>
        0 < unat (gf_references g) \<and> unat (gf_references g) \<le> n"
      using inv f set_update_subset_insert [of "fs_handles y" i]
      by (fastforce simp: frame_inv_def Let_def)
    then show ?thesis using inv True False by (auto simp: frame_inv_def Let_def gpu_frame_release_def)
  qed
next
  case False
  then show ?thesis using inv by simp
qed

lemma frame_step_inv:
  assumes "frame_inv n y" "Suc n < 4294967296"
  shows "frame_inv (Suc n) (frame_step query op y)"
proof (cases op)
  case (MakeHandle allocated)
  then show ?thesis using make_handle_inv [OF assms] by simp
next
  case (RetainHandle i)
  then show ?thesis using retain_inv [OF assms] by simp
next
  case (ReleaseHandle i)
  show ?thesis unfolding ReleaseHandle by (rule frame_inv_mono [OF release_inv [OF assms(1)]]) simp
next
  case (AddConsumer completion)
  then show ?thesis using frame_inv_mono [OF assms(1), of "Suc n"]
    by (auto simp: add_consumer_def frame_inv_def Let_def split: option.split)
next
  case (QueryHandle i answer)
  have "frame_inv (Suc n) y" using frame_inv_mono [OF assms(1), of "Suc n"] by simp
  then show ?thesis using QueryHandle poll_inv [of "Suc n" y query]
    by (auto simp: gpu_frame_query_completion_def split: prod.split)
next
  case (WaitHandle i waited)
  have "frame_inv (Suc n) y" using frame_inv_mono [OF assms(1), of "Suc n"] by simp
  then show ?thesis using WaitHandle poll_inv [of "Suc n" y query]
    by (auto simp: gpu_frame_wait_def split: section_outcome.split prod.split)
next
  case PollRecycle
  show ?thesis unfolding PollRecycle frame_step.simps
    by (rule frame_inv_mono [OF poll_inv [OF assms(1)]]) simp
qed

lemma frame_run_inv:
  "frame_inv n y \<Longrightarrow> n + length ops < 4294967296 \<Longrightarrow> frame_inv (n + length ops) (frame_run ops y)"
proof (induction ops arbitrary: n y)
  case Nil
  then show ?case by simp
next
  case (Cons x ops)
  obtain query op where x: "x = (query, op)" by (cases x)
  have "frame_inv (Suc n) (frame_step query op y)" using Cons.prems by (intro frame_step_inv) simp_all
  from Cons.IH [OF this] Cons.prems(2) show ?case by (simp add: x)
qed

lemma maybe_recycle_when:
  "\<not> gc_recycled c \<Longrightarrow> gc_recycled (maybe_recycle query c) \<Longrightarrow> completions_done query c \<and> gc_leases c = 0"
  by (auto simp: maybe_recycle_def split: if_splits)

lemma completions_done_leases [simp]:
  "completions_done query (c\<lparr>gc_leases := k\<rparr>) = completions_done query c"
  by (simp add: completions_done_def split: option.split)

lemma release_recycles_when:
  "\<not> gc_recycled c \<Longrightarrow> gc_recycled (release_external query c) \<Longrightarrow> completions_done query c"
  using maybe_recycle_when [of "if gc_leases c \<noteq> 0 then c\<lparr>gc_leases := gc_leases c - 1\<rparr> else c" query]
  by (auto simp: release_external_def split: if_splits)

lemma step_recycles_when:
  assumes "\<not> gc_recycled (fs_core y)" "gc_recycled (fs_core (frame_step query op y))"
  shows "completions_done query (fs_core y)"
proof (cases op)
  case (MakeHandle allocated)
  then show ?thesis
    using assms release_recycles_when [of "(fs_core y)\<lparr>gc_leases := gc_leases (fs_core y) + 1\<rparr>" query]
    by (auto simp: make_handle_def acquire_external_def split: if_splits)
next
  case (RetainHandle i)
  then show ?thesis using assms by (auto simp: gpu_frame_retain_def split: if_splits)
next
  case (ReleaseHandle i)
  then show ?thesis using assms release_recycles_when [of "fs_core y" query]
    by (auto simp: gpu_frame_release_def split: if_splits)
next
  case (AddConsumer completion)
  then show ?thesis using assms by (auto simp: add_consumer_def split: option.splits)
next
  case (QueryHandle i answer)
  then show ?thesis using assms maybe_recycle_when [of "fs_core y" query]
    by (auto simp: gpu_frame_query_completion_def poll_recycle_def split: if_splits prod.splits)
next
  case (WaitHandle i waited)
  then show ?thesis using assms maybe_recycle_when [of "fs_core y" query]
    by (auto simp: gpu_frame_wait_def poll_recycle_def split: if_splits section_outcome.splits prod.splits)
next
  case PollRecycle
  then show ?thesis using assms maybe_recycle_when [of "fs_core y" query] by (simp add: poll_recycle_def)
qed

lemma same_frame_release: "same_frame c (release_external query c)"
  by (rule same_frame_trans [OF _ maybe_recycle_facts(1), of _ "if gc_leases c \<noteq> 0 then c\<lparr>gc_leases := gc_leases c - 1\<rparr> else c",
      folded release_external_def]) (simp add: same_frame_def)

lemma same_frame_step: "same_frame (fs_core y) (fs_core (frame_step query op y))"
proof (cases op)
  case (MakeHandle allocated)
  have "same_frame (fs_core y) ((fs_core y)\<lparr>gc_leases := gc_leases (fs_core y) + 1\<rparr>)"
    by (simp add: same_frame_def)
  then show ?thesis using MakeHandle same_frame_trans [OF _ same_frame_release]
    by (simp add: make_handle_def acquire_external_def)
next
  case (RetainHandle i)
  then show ?thesis by (simp add: gpu_frame_retain_def)
next
  case (ReleaseHandle i)
  then show ?thesis using same_frame_release by (simp add: gpu_frame_release_def)
next
  case (AddConsumer completion)
  then show ?thesis by (simp add: add_consumer_def same_frame_def split: option.split)
next
  case (QueryHandle i answer)
  then show ?thesis
    using maybe_recycle_facts(1) by (simp add: gpu_frame_query_completion_def poll_recycle_def split: prod.split)
next
  case (WaitHandle i waited)
  then show ?thesis
    using maybe_recycle_facts(1)
    by (simp add: gpu_frame_wait_def poll_recycle_def split: section_outcome.split prod.split)
next
  case PollRecycle
  then show ?thesis using maybe_recycle_facts(1) by (simp add: poll_recycle_def)
qed

lemma same_frame_run: "same_frame (fs_core y) (fs_core (frame_run ops y))"
proof (induction ops arbitrary: y)
  case Nil
  then show ?case by simp
next
  case (Cons x ops)
  then show ?case using same_frame_trans [OF same_frame_step Cons.IH] by (cases x) simp
qed

lemma destroy_recycles:
  assumes "gc_producer c = Some p" "gc_callback c"
    and "gc_calls c = (if gc_recycled c \<and> gc_callback c then [gd_generation (gc_desc c)] else [])"
  shows "case destroy_core query c of
      Blocked \<Rightarrow> \<exists>k \<in> set (p # gc_consumers c). query k = CompletionPending
    | Passed c' \<Rightarrow> gc_recycled c' \<and> gc_calls c' = [gd_generation (gc_desc c)]"
  using assms
  by (auto simp: destroy_core_def maybe_recycle_def completions_done_def list_all_iff Let_def)

section \<open>Properties\<close>

definition frame_start :: "gpu_frame_core \<Rightarrow> frame_system" where
  "frame_start c = \<lparr>fs_core = c, fs_handles = []\<rparr>"

text \<open>C20. The life of a GPU frame: whatever holders, consumers and pollers do, a frame with a live
  handle is never recycled, its recycle callback has been called at most once and then with its
  generation; a step that recycles it does so only when no completion of its producer and
  consumers is pending; and destroying the core recycles it unless a completion is pending.\<close>

theorem gpu_frame_lifetime:
  assumes "length ops < 4294967296"
    and "y = frame_run ops (frame_start (new_core desc (Some producer) True native resource))"
  shows "(fs_handles y \<noteq> [] \<longrightarrow> \<not> gc_recycled (fs_core y) \<and> gc_calls (fs_core y) = []) \<and>
    gc_calls (fs_core y) \<in> {[], [gd_generation desc]} \<and>
    (\<not> gc_recycled (fs_core y) \<and> gc_recycled (fs_core (frame_step query op y)) \<longrightarrow>
       (\<forall>k \<in> set (producer # gc_consumers (fs_core y)). query k \<noteq> CompletionPending)) \<and>
    (case destroy_core query (fs_core y) of
       Blocked \<Rightarrow> \<exists>k \<in> set (producer # gc_consumers (fs_core y)). query k = CompletionPending
     | Passed c' \<Rightarrow> gc_recycled c' \<and> gc_calls c' = [gd_generation desc])"
proof -
  let ?y0 = "frame_start (new_core desc (Some producer) True native resource)"
  have "frame_inv 0 ?y0" by (simp add: frame_inv_def frame_start_def new_core_def Let_def)
  from frame_run_inv [OF this, of ops] assms have inv: "frame_inv (length ops) y" by simp
  have same: "gc_desc (fs_core y) = desc" "gc_callback (fs_core y)" "gc_producer (fs_core y) = Some producer"
    using same_frame_run [of ?y0 ops] unfolding assms(2) by (simp_all add: same_frame_def frame_start_def new_core_def)
  have calls: "gc_calls (fs_core y) = (if gc_recycled (fs_core y) then [gd_generation desc] else [])"
    "gc_recycled (fs_core y) \<longrightarrow> fs_handles y = []"
    using inv same by (simp_all add: frame_inv_def Let_def)
  have step: "\<not> gc_recycled (fs_core y) \<and> gc_recycled (fs_core (frame_step query op y)) \<longrightarrow>
       (\<forall>k \<in> set (producer # gc_consumers (fs_core y)). query k \<noteq> CompletionPending)"
    using step_recycles_when [of y query op] same by (auto simp: completions_done_def list_all_iff)
  have "case destroy_core query (fs_core y) of
       Blocked \<Rightarrow> \<exists>k \<in> set (producer # gc_consumers (fs_core y)). query k = CompletionPending
     | Passed c' \<Rightarrow> gc_recycled c' \<and> gc_calls c' = [gd_generation desc]"
  proof -
    have "gc_calls (fs_core y) = (if gc_recycled (fs_core y) \<and> gc_callback (fs_core y)
        then [gd_generation (gc_desc (fs_core y))] else [])"
      using calls(1) same by simp
    from destroy_recycles [OF same(3,2) this, of query] show ?thesis
      by (simp add: same split: section_outcome.splits)
  qed
  with calls step show ?thesis by (cases "gc_recycled (fs_core y)") simp_all
qed

text \<open>One frame that is handed out, retained, consumed and given back while its consumer runs.\<close>

definition sample_gpu_desc :: gpu_frame_desc where
  "sample_gpu_desc = \<lparr>gd_struct_size = 136, gd_struct_version = 1, gd_backend = MKVC_BACKEND_NVIDIA,
     gd_memory_type = MKVC_GPU_MEMORY_CUDA_POINTER, gd_device_id = 7, gd_generation = 3,
     gd_pixel_format = MKVC_PIXEL_FORMAT_NV12, gd_width = 4, gd_height = 2, gd_plane_count = 2,
     gd_plane_offsets = [0, 8, 0, 0], gd_pitches = [4, 4, 0, 0], gd_pts = 0,
     gd_color_primaries = 1, gd_color_transfer = 1, gd_color_matrix = 1, gd_color_range = 1\<rparr>"

definition sample_frame_ops :: "((nat \<Rightarrow> gpu_status) \<times> frame_op) list" where
  "sample_frame_ops = (let busy = (\<lambda>k. if k = 1 then CompletionPending else CompletionDone)
     in [(busy, MakeHandle True), (busy, RetainHandle 0), (busy, AddConsumer (Some 1)),
         (busy, ReleaseHandle 0), (busy, ReleaseHandle 0), (busy, PollRecycle)])"

theorem gpu_frame_lifetime_witness:
  "gc_calls (fs_core (frame_run sample_frame_ops
      (frame_start (new_core sample_gpu_desc (Some 0) True None NoResource)))) \<in> {[], [3]} \<and>
   (case destroy_core (\<lambda>_. CompletionDone) (fs_core (frame_run sample_frame_ops
      (frame_start (new_core sample_gpu_desc (Some 0) True None NoResource)))) of
      Blocked \<Rightarrow> False | Passed c' \<Rightarrow> gc_recycled c' \<and> gc_calls c' = [3])"
proof -
  have few: "length sample_frame_ops < 4294967296" by (simp add: sample_frame_ops_def Let_def)
  have "gd_generation sample_gpu_desc = 3" by (simp add: sample_gpu_desc_def)
  then show ?thesis
    using gpu_frame_lifetime [OF few refl, of sample_gpu_desc 0 None NoResource "\<lambda>_. CompletionDone" PollRecycle]
    by (simp split: section_outcome.splits)
qed

end
