(* ===== verification/GpuExchange.thy ===== *)
theory GpuExchange
  imports GpuFrame
begin

text \<open>
  GPU memory that crosses the library's border: frames of other producers
  (src/gpu/gpu_external_import.cpp with its Intel and NVIDIA entry points) and DLPack tensors of the
  library's frames (src/gpu/dlpack_adapter.cpp). The loaders of native completions, the CUDA stream
  wait and the callbacks of the caller are parameters; the names of completions are those of
  GpuFrame. The release callback of an import is counted by the calls of the core's recycle
  callback made after \<open>accepted\<close> was set.
\<close>

section \<open>Validation of external frames\<close>

record external_config =
  xc_struct_size :: u32
  xc_struct_version :: u32
  xc_frame :: gpu_frame_desc
  xc_native :: gpu_native_handle_desc
  xc_query :: bool \<comment> \<open>a query callback is given\<close>
  xc_release :: bool

abbreviation sizeof_external_config :: u32 where "sizeof_external_config \<equiv> 232"

definition nvidia_layout :: "gpu_frame_desc \<Rightarrow> gpu_native_handle_desc \<Rightarrow> string option" where
  "nvidia_layout desc native =
     (let pointer = gd_memory_type desc = MKVC_GPU_MEMORY_CUDA_POINTER \<and> gn_type native = MKVC_GPU_NATIVE_CUDA_POINTER;
          array = gd_memory_type desc = MKVC_GPU_MEMORY_CUDA_ARRAY \<and> gn_type native = MKVC_GPU_NATIVE_CUDA_ARRAY
      in if \<not> pointer \<and> \<not> array \<or> gn_handles native ! 0 = 0 \<or> gn_handles native ! 1 = 0 \<or>
            gd_pixel_format desc \<noteq> MKVC_PIXEL_FORMAT_NV12 \<or> gd_plane_count desc \<noteq> 2 \<or>
            gd_pitches desc ! 0 < ucast (gd_width desc) \<or> gd_pitches desc ! 0 \<noteq> gd_pitches desc ! 1 \<or>
            gd_pitches desc ! 0 > 4294967295 \<or> gd_plane_offsets desc ! 0 \<noteq> 0 \<or>
            gd_plane_offsets desc ! 1 \<noteq> gd_pitches desc ! 0 * ucast (gd_height desc)
         then Some ''external NVIDIA import requires CUDA NV12 pointer/array layout''
         else if array \<and> gd_pitches desc ! 0 \<noteq> ucast (gd_width desc)
         then Some ''external CUDA-array NV12 pitch must equal its byte width''
         else None)"

definition intel_layout :: "gpu_frame_desc \<Rightarrow> gpu_native_handle_desc \<Rightarrow> bool \<Rightarrow> bool \<Rightarrow> string option" where
  "intel_layout desc native has_query allow_usm_level_zero_event =
     (let d3d11 = gd_memory_type desc = MKVC_GPU_MEMORY_D3D11_TEXTURE \<and> gn_type native = MKVC_GPU_NATIVE_D3D11_TEXTURE;
          va = gd_memory_type desc = MKVC_GPU_MEMORY_VA_SURFACE \<and> gn_type native = MKVC_GPU_NATIVE_VA_SURFACE;
          usm = gd_memory_type desc = MKVC_GPU_MEMORY_USM \<and> gn_type native = MKVC_GPU_NATIVE_USM_POINTER
      in if \<not> d3d11 \<and> \<not> va \<and> \<not> usm \<or> gn_handles native ! 0 = 0 \<or>
            gd_pixel_format desc \<noteq> MKVC_PIXEL_FORMAT_NV12 \<or> gd_plane_count desc \<noteq> 2
         then Some ''external Intel import requires a D3D11, VA, or device-USM resource''
         else if usm \<and> (gn_handles native ! 1 = 0 \<or> gn_handles native ! 2 = 0 \<or>
              gd_pitches desc ! 0 < ucast (gd_width desc) \<or> gd_pitches desc ! 0 \<noteq> gd_pitches desc ! 1 \<or>
              gd_pitches desc ! 0 > 4294967295 \<or> gd_plane_offsets desc ! 0 \<noteq> 0 \<or>
              gd_plane_offsets desc ! 1 \<noteq> gd_pitches desc ! 0 * ucast (gd_height desc) \<or> has_query \<or>
              gn_handles native ! 3 \<noteq> 0 \<and> \<not> allow_usm_level_zero_event)
         then Some (''external Intel USM import requires linear NV12, context, queue, and valid '' @
                ''completion identity'')
         else None)"

text \<open>\<^verbatim>\<open>valid_layout\<close>: the text of the error, or nothing.\<close>

definition layout_error :: "external_config \<Rightarrow> bool \<Rightarrow> string option" where
  "layout_error config allow_usm_level_zero_event =
     (let desc = xc_frame config; native = xc_native config
      in if gd_struct_size desc < sizeof_gpu_frame_desc \<or> gd_struct_version desc \<noteq> 1 \<or>
            gn_struct_size native < sizeof_gpu_native_handle_desc \<or> gn_struct_version native \<noteq> 1
         then Some ''invalid external GPU descriptor version''
         else if \<not> xc_release config then Some ''external GPU import requires a release callback''
         else if gd_width desc = 0 \<or> gd_height desc = 0 \<or> gd_width desc AND 1 \<noteq> 0 \<or> gd_height desc AND 1 \<noteq> 0 \<or>
                 gd_plane_count desc = 0 \<or> gd_plane_count desc > 4 \<or> gd_generation desc \<noteq> gn_generation native \<or>
                 gd_device_id desc \<noteq> gn_device_id native \<or> gn_borrowed native = 0
         then Some ''external GPU descriptor identity or dimensions are invalid''
         else if gd_backend desc = MKVC_BACKEND_NVIDIA then nvidia_layout desc native
         else if gd_backend desc = MKVC_BACKEND_INTEL
         then intel_layout desc native (xc_query config) allow_usm_level_zero_event
         else Some ''external GPU import backend is unsupported'')"

section \<open>Imports\<close>

text \<open>What an import leaves behind: the frame handed out, and how often the release callback of the
  caller has been called.\<close>

record import_result =
  ir_status :: status
  ir_frame :: "(gpu_frame_handle \<times> gpu_frame_core) option"
  ir_releases :: nat

text \<open>The lambda the core recycles through: nothing before the import is accepted.\<close>

definition release_calls :: "bool \<Rightarrow> u64 list \<Rightarrow> nat" where
  "release_calls accepted calls = (if accepted then length calls else 0)"

text \<open>A core that is not handed out dies here: its destructor waits for the producer.\<close>

definition import_with_completion ::
    "(nat \<Rightarrow> gpu_status) \<Rightarrow> bool \<Rightarrow> external_config \<Rightarrow> nat \<Rightarrow> string \<Rightarrow> import_result section_outcome" where
  "import_with_completion query allocated config producer diag =
     (let resource = (if gd_backend (xc_frame config) = MKVC_BACKEND_NVIDIA
            then NvidiaCudaFrame (gn_handles (xc_native config) ! 0) else NoResource);
          core = new_core (xc_frame config) (Some producer) True (Some (xc_native config)) resource;
          discard = (\<lambda>error c. case destroy_core query c of
              Blocked \<Rightarrow> Blocked
            | Passed c' \<Rightarrow> Passed \<lparr>ir_status = (MKVC_ERROR_INTERNAL, error), ir_frame = None,
                ir_releases = release_calls False (gc_calls c')\<rparr>)
      in case make_handle query allocated (Some core) of
           (Returns (Some handle), Some c) \<Rightarrow>
             Passed \<lparr>ir_status = (MKVC_OK, diag), ir_frame = Some (handle, c), ir_releases = release_calls True (gc_calls c)\<rparr>
         | (Returns None, Some c) \<Rightarrow> discard ''failed to allocate external GPU frame handle'' c
         | (Throws (Some what), Some c) \<Rightarrow> discard what c
         | (Throws None, Some c) \<Rightarrow> discard ''unknown external GPU frame import failure'' c
         | (_, None) \<Rightarrow> discard ''failed to allocate external GPU frame handle'' core)"

definition reject_import :: "status \<Rightarrow> import_result section_outcome" where
  "reject_import st = Passed \<lparr>ir_status = st, ir_frame = None, ir_releases = 0\<rparr>"

definition valid_external :: "external_config option \<Rightarrow> bool \<Rightarrow> bool" where
  "valid_external config out_given \<longleftrightarrow> out_given \<and> (case config of None \<Rightarrow> False
     | Some c \<Rightarrow> xc_struct_size c \<ge> sizeof_external_config \<and> xc_struct_version c = 1)"

text \<open>The generic import: without a callback the producer is already complete; \<open>producer\<close> names
  either completion.\<close>

definition import_external ::
    "(nat \<Rightarrow> gpu_status) \<Rightarrow> bool \<Rightarrow> nat \<Rightarrow> external_config option \<Rightarrow> bool \<Rightarrow> import_result section_outcome" where
  "import_external query allocated producer config out_given =
     (if \<not> valid_external config out_given
      then reject_import (MKVC_ERROR_INVALID_ARGUMENT, ''invalid external GPU frame configuration'')
      else case layout_error (the config) False of
        Some error \<Rightarrow> reject_import (MKVC_ERROR_INVALID_ARGUMENT, error)
      | None \<Rightarrow> import_with_completion query allocated (the config) producer [])"

text \<open>The native imports share their order: configuration, layout, the kind of resource, the
  loader of the completion (\<open>loaded\<close>), the import.\<close>

definition import_native ::
    "(nat \<Rightarrow> gpu_status) \<Rightarrow> bool \<Rightarrow> status + nat \<Rightarrow> bool \<Rightarrow> string \<Rightarrow> string \<Rightarrow> (external_config \<Rightarrow> bool) \<Rightarrow>
     external_config option \<Rightarrow> bool \<Rightarrow> import_result section_outcome" where
  "import_native query allocated loaded allow_event invalid_config wrong_kind kind config out_given =
     (if \<not> valid_external config out_given then reject_import (MKVC_ERROR_INVALID_ARGUMENT, invalid_config)
      else case layout_error (the config) allow_event of
        Some error \<Rightarrow> reject_import (MKVC_ERROR_INVALID_ARGUMENT, error)
      | None \<Rightarrow>
          if \<not> kind (the config) then reject_import (MKVC_ERROR_INVALID_ARGUMENT, wrong_kind)
          else (case loaded of
                  Inl st \<Rightarrow> reject_import st
                | Inr producer \<Rightarrow> import_with_completion query allocated (the config) producer []))"

definition import_d3d11_fence where
  "import_d3d11_fence query allocated loaded =
     import_native query allocated loaded False ''invalid D3D11 fence import configuration''
       ''D3D11 fence import requires Intel texture and no producer callback''
       (\<lambda>c. gd_backend (xc_frame c) = MKVC_BACKEND_INTEL \<and> gd_memory_type (xc_frame c) = MKVC_GPU_MEMORY_D3D11_TEXTURE \<and>
            gn_type (xc_native c) = MKVC_GPU_NATIVE_D3D11_TEXTURE \<and> \<not> xc_query c)"

definition import_va_surface where
  "import_va_surface query allocated loaded =
     import_native query allocated loaded False ''invalid VA surface import configuration''
       ''native VA import requires Intel VA surface and no producer callback''
       (\<lambda>c. gd_backend (xc_frame c) = MKVC_BACKEND_INTEL \<and> gd_memory_type (xc_frame c) = MKVC_GPU_MEMORY_VA_SURFACE \<and>
            gn_type (xc_native c) = MKVC_GPU_NATIVE_VA_SURFACE \<and> \<not> xc_query c)"

definition import_level_zero_event where
  "import_level_zero_event query allocated loaded =
     import_native query allocated loaded True ''invalid Level Zero event import configuration''
       ''Level Zero event import requires Intel USM and no callback''
       (\<lambda>c. gd_backend (xc_frame c) = MKVC_BACKEND_INTEL \<and> gd_memory_type (xc_frame c) = MKVC_GPU_MEMORY_USM \<and>
            gn_type (xc_native c) = MKVC_GPU_NATIVE_USM_POINTER \<and> gn_handles (xc_native c) ! 3 \<noteq> 0 \<and> \<not> xc_query c)"

text \<open>In a build without CUDA \<open>loaded\<close> is the refusal of that build.\<close>

definition import_cuda_event where
  "import_cuda_event query allocated loaded =
     import_native query allocated loaded False ''invalid CUDA event frame configuration''
       ''CUDA event import requires NVIDIA, a native event, and no query callback''
       (\<lambda>c. gd_backend (xc_frame c) = MKVC_BACKEND_NVIDIA \<and> \<not> xc_query c \<and> gn_handles (xc_native c) ! 3 \<noteq> 0)"

section \<open>DLPack\<close>

datatype dl_device = DLCuda | DLOneAPI

record dlpack_tensor =
  dl_data :: u64
  dl_device_type :: dl_device
  dl_device_id :: i32
  dl_shape :: "i64 \<times> i64"
  dl_strides :: "i64 \<times> i64"

type_synonym export_result = "(status \<times> dlpack_tensor option) \<times> gpu_frame_handle option \<times> gpu_frame_core"

definition linear_memory :: "gpu_frame_desc \<Rightarrow> gpu_native_handle_desc \<Rightarrow> dl_device option" where
  "linear_memory desc native =
     (if gn_handles native ! 0 = 0 then None
      else if gd_backend desc = MKVC_BACKEND_NVIDIA \<and> gd_memory_type desc = MKVC_GPU_MEMORY_CUDA_POINTER \<and>
              gn_type native = MKVC_GPU_NATIVE_CUDA_POINTER then Some DLCuda
      else if gd_backend desc = MKVC_BACKEND_INTEL \<and> gd_memory_type desc = MKVC_GPU_MEMORY_USM \<and>
              gn_type native = MKVC_GPU_NATIVE_USM_POINTER then Some DLOneAPI
      else None)"

definition plane_tensor :: "gpu_frame_desc \<Rightarrow> gpu_native_handle_desc \<Rightarrow> dl_device \<Rightarrow> u32 \<Rightarrow> dlpack_tensor" where
  "plane_tensor desc native device plane =
     \<lparr>dl_data = gn_handles native ! 0 + gd_plane_offsets desc ! unat plane, dl_device_type = device,
      dl_device_id = ucast (gd_device_id desc),
      dl_shape = (ucast (if plane = 0 then gd_height desc else gd_height desc div 2), ucast (gd_width desc)),
      dl_strides = (gd_pitches desc ! unat plane, 1)\<rparr>"

text \<open>The ordering of the consumer behind the producer: a dependency queued by the caller's callback
  or by a CUDA stream wait, or else a wait on the host. The result is the status and the core after
  a wait. \<open>cuda_wait\<close> is \<open>None\<close> in a build without CUDA.\<close>

definition order_consumer ::
    "(nat \<Rightarrow> gpu_status) \<Rightarrow> status section_outcome \<Rightarrow> (u64 \<Rightarrow> u64 \<Rightarrow> u64 \<Rightarrow> status) option \<Rightarrow>
     (u64 \<Rightarrow> u64 \<Rightarrow> mkvc_result call) option \<Rightarrow> dl_device \<Rightarrow> gpu_native_handle_desc \<Rightarrow> u64 \<Rightarrow>
     gpu_frame_handle option \<Rightarrow> gpu_frame_core \<Rightarrow> string \<Rightarrow> (status \<times> gpu_frame_core) section_outcome" where
  "order_consumer query waited cuda_wait callback device native stream frame c diag =
     (let event = gn_handles native ! 3
      in if device = DLOneAPI \<and> stream \<noteq> 0 \<and> event \<noteq> 0 \<and> callback \<noteq> None
         then (case the callback event stream of
                 Throws _ \<Rightarrow> Passed ((MKVC_ERROR_INTERNAL, ''GPU dependency callback threw across the C boundary''), c)
               | Returns result \<Rightarrow>
                   Passed (if result \<noteq> MKVC_OK then (result, ''GPU dependency callback rejected the dependency'')
                           else (MKVC_OK, diag), c))
         else if device = DLCuda \<and> stream \<noteq> 0 \<and> event \<noteq> 0
         then (case cuda_wait of
                 None \<Rightarrow> Passed ((MKVC_ERROR_NOT_SUPPORTED, ''CUDA stream dependencies are disabled in this build''), c)
               | Some wait \<Rightarrow>
                   (case wait (gn_handles native ! 1) event stream of (result, error) \<Rightarrow>
                      Passed (if result \<noteq> MKVC_OK then (result, error) else (MKVC_OK, diag), c)))
         else gpu_frame_wait query waited frame c diag)"

definition export_dlpack_impl ::
    "(nat \<Rightarrow> gpu_status) \<Rightarrow> status section_outcome \<Rightarrow> (u64 \<Rightarrow> u64 \<Rightarrow> u64 \<Rightarrow> status) option \<Rightarrow>
     (u64 \<Rightarrow> u64 \<Rightarrow> mkvc_result call) option \<Rightarrow> bool \<Rightarrow> bool \<Rightarrow> u32 \<Rightarrow> u64 \<Rightarrow>
     gpu_frame_handle option \<Rightarrow> gpu_frame_core \<Rightarrow> string \<Rightarrow> export_result section_outcome" where
  "export_dlpack_impl query waited cuda_wait callback allocated out_given plane stream frame c diag =
     (let refuse = (\<lambda>st. Passed ((st, None), frame, c))
      in if \<not> out_given then refuse (MKVC_ERROR_INVALID_ARGUMENT, ''null DLPack output'')
         else case gpu_frame_get_desc frame (Some (sizeof_gpu_frame_desc, 1)) c diag of
           (st, None) \<Rightarrow> refuse st
         | (_, Some desc) \<Rightarrow>
         if plane \<ge> gd_plane_count desc \<or> gd_pixel_format desc \<noteq> MKVC_PIXEL_FORMAT_NV12
         then refuse (MKVC_ERROR_NOT_SUPPORTED, ''DLPack export supports NV12 planes only'')
         else case gpu_frame_get_native_handle frame (Some (sizeof_gpu_native_handle_desc, 1)) c diag of
           (st, None) \<Rightarrow> refuse st
         | (_, Some native) \<Rightarrow>
         (case linear_memory desc native of
           None \<Rightarrow> refuse (MKVC_ERROR_NOT_SUPPORTED, ''GPU memory is not a linear CUDA or Intel device-USM pointer'')
         | Some device \<Rightarrow>
         if gd_device_id desc > 2147483647 \<or> gd_pitches desc ! unat plane > 9223372036854775807 \<or>
            gd_plane_offsets desc ! unat plane > - 1 - gn_handles native ! 0
         then refuse (MKVC_ERROR_INVALID_ARGUMENT, ''DLPack metadata exceeds its ABI range'')
         else if \<not> allocated then refuse (MKVC_ERROR_INTERNAL, ''DLPack allocation failed'')
         else (case gpu_frame_retain frame c diag of (kept, frame') \<Rightarrow>
         if fst kept \<noteq> MKVC_OK then Passed ((kept, None), frame', c)
         else (case order_consumer query waited cuda_wait callback device native stream frame' c diag of
           Blocked \<Rightarrow> Blocked
         | Passed (st, c') \<Rightarrow>
             if fst st \<noteq> MKVC_OK
             then (case gpu_frame_release query frame' c' of (frame'', c'') \<Rightarrow> Passed ((st, None), frame'', c''))
             else Passed ((st, Some (plane_tensor desc native device plane)), frame', c')))))"

definition export_dlpack where
  "export_dlpack query waited cuda_wait allocated out_given plane stream =
     export_dlpack_impl query waited cuda_wait None allocated out_given plane stream"

definition export_dlpack_with_dependency where
  "export_dlpack_with_dependency query waited cuda_wait callback allocated out_given plane stream frame c diag =
     (if stream = 0 \<or> callback = None
      then Passed (((MKVC_ERROR_INVALID_ARGUMENT, ''consumer stream and dependency callback are required''), None), frame, c)
      else export_dlpack_impl query waited cuda_wait callback allocated out_given plane stream frame c diag)"

text \<open>The deleter of a tensor gives its lease back.\<close>

definition managed_tensor_release ::
    "(nat \<Rightarrow> gpu_status) \<Rightarrow> dlpack_tensor option \<Rightarrow> gpu_frame_handle option \<Rightarrow> gpu_frame_core \<Rightarrow>
     gpu_frame_handle option \<times> gpu_frame_core" where
  "managed_tensor_release query tensor frame c =
     (case tensor of None \<Rightarrow> (frame, c) | Some _ \<Rightarrow> gpu_frame_release query frame c)"


section \<open>Who owns an imported frame\<close>

datatype import_kind = GenericImport nat | D3D11Fence | VaSurface | LevelZeroEvent | CudaEvent

fun import_call ::
    "import_kind \<Rightarrow> (nat \<Rightarrow> gpu_status) \<Rightarrow> bool \<Rightarrow> status + nat \<Rightarrow> external_config option \<Rightarrow> bool \<Rightarrow> import_result section_outcome" where
  "import_call (GenericImport producer) query allocated loaded = import_external query allocated producer"
| "import_call D3D11Fence query allocated loaded = import_d3d11_fence query allocated loaded"
| "import_call VaSurface query allocated loaded = import_va_surface query allocated loaded"
| "import_call LevelZeroEvent query allocated loaded = import_level_zero_event query allocated loaded"
| "import_call CudaEvent query allocated loaded = import_cuda_event query allocated loaded"

lemma import_with_completion_cases:
  assumes "import_with_completion query allocated config producer diag = Passed r"
  shows "if allocated
    then ir_status r = (MKVC_OK, diag) \<and> ir_releases r = 0 \<and>
      (\<exists>h c. ir_frame r = Some (h, c) \<and> frame_inv 1 \<lparr>fs_core = c, fs_handles = [h]\<rparr> \<and>
        gc_desc c = xc_frame config \<and> gc_native c = Some (xc_native config) \<and> gc_producer c = Some producer \<and> gc_callback c)
    else fst (ir_status r) = MKVC_ERROR_INTERNAL \<and> ir_frame r = None \<and> ir_releases r = 0"
proof (cases allocated)
  case True
  define resource where "resource = (if gd_backend (xc_frame config) = MKVC_BACKEND_NVIDIA
      then NvidiaCudaFrame (gn_handles (xc_native config) ! 0) else NoResource)"
  let ?c = "(new_core (xc_frame config) (Some producer) True (Some (xc_native config)) resource)\<lparr>gc_leases := 1\<rparr>"
  let ?h = "\<lparr>gf_references = 1, gf_has_core = True, gf_generation = gd_generation (xc_frame config)\<rparr>"
  have "r = \<lparr>ir_status = (MKVC_OK, diag), ir_frame = Some (?h, ?c), ir_releases = 0\<rparr>"
    using assms True
    by (simp add: import_with_completion_def make_handle_def acquire_external_def new_core_def release_calls_def
        Let_def resource_def)
  moreover have "frame_inv 1 \<lparr>fs_core = ?c, fs_handles = [?h]\<rparr>"
    by (simp add: frame_inv_def new_core_def Let_def)
  ultimately show ?thesis using True by (simp add: new_core_def)
next
  case False
  then show ?thesis using assms
    by (auto simp: import_with_completion_def make_handle_def acquire_external_def new_core_def release_calls_def
        Let_def split: section_outcome.splits)
qed

lemma import_call_cases:
  assumes "import_call kind query allocated loaded config out_given = Passed r"
  obtains (rejected) "fst (ir_status r) \<noteq> MKVC_OK" "ir_frame r = None" "ir_releases r = 0"
  | (refused) st where "loaded = Inl st" "ir_status r = st" "ir_frame r = None" "ir_releases r = 0"
  | (imported) c producer where "config = Some c" "layout_error c (kind = LevelZeroEvent) = None"
      "import_with_completion query allocated c producer [] = Passed r"
  using assms
  by (cases kind)
    (auto simp: import_external_def import_d3d11_fence_def import_va_surface_def import_level_zero_event_def
      import_cuda_event_def import_native_def valid_external_def reject_import_def
      split: option.splits sum.splits if_splits)

text \<open>C31. An import that fails takes nothing over: it hands out no frame and never calls the release
  callback. An import that succeeds hands out a frame of a validated layout with the callback not
  called yet, and whatever its holders and consumers then do, the callback has been called exactly
  once if the frame is recycled and not at all before, and never while a handle is held.\<close>

theorem import_ownership:
  assumes "import_call kind query allocated loaded config out_given = Passed r"
    and "\<And>st. loaded = Inl st \<Longrightarrow> fst st \<noteq> MKVC_OK" and "length ops < 4294967295"
  shows "case ir_frame r of
      None \<Rightarrow> fst (ir_status r) \<noteq> MKVC_OK \<and> ir_releases r = 0
    | Some (h, c) \<Rightarrow> fst (ir_status r) = MKVC_OK \<and> ir_releases r = 0 \<and>
        layout_error (the config) (kind = LevelZeroEvent) = None \<and>
        (let y = frame_run ops \<lparr>fs_core = c, fs_handles = [h]\<rparr> in
           release_calls True (gc_calls (fs_core y)) = (if gc_recycled (fs_core y) then 1 else 0) \<and>
           (fs_handles y = [] \<or> \<not> gc_recycled (fs_core y)))"
  using assms(1)
proof (cases rule: import_call_cases)
  case rejected
  then show ?thesis by simp
next
  case (refused st)
  then show ?thesis using assms(2) by simp
next
  case (imported c producer)
  show ?thesis
  proof (cases allocated)
    case False
    then show ?thesis using import_with_completion_cases [OF imported(3)] by simp
  next
    case True
    then obtain h core where r: "ir_status r = (MKVC_OK, [])" "ir_releases r = 0" "ir_frame r = Some (h, core)"
        and inv: "frame_inv 1 \<lparr>fs_core = core, fs_handles = [h]\<rparr>" and "gc_callback core"
      using import_with_completion_cases [OF imported(3)] by auto
    let ?y = "frame_run ops \<lparr>fs_core = core, fs_handles = [h]\<rparr>"
    have "frame_inv (1 + length ops) ?y" using frame_run_inv [OF inv] assms(3) by simp
    moreover have "gc_callback (fs_core ?y)"
      using same_frame_run [of "\<lparr>fs_core = core, fs_handles = [h]\<rparr>" ops] \<open>gc_callback core\<close> by (simp add: same_frame_def)
    ultimately show ?thesis using r imported(1,2)
      by (auto simp: frame_inv_def Let_def release_calls_def)
  qed
qed


section \<open>Leases of exported tensors\<close>

lemma wait_keeps:
  assumes "gpu_frame_wait query waited frame c diag = Passed (st, c')" and "gc_leases c \<noteq> 0"
  shows "c' = c"
  using assms maybe_recycle_facts(3) [of c]
  by (auto simp: gpu_frame_wait_def poll_recycle_def split: if_splits section_outcome.splits)

lemma order_keeps:
  assumes "order_consumer query waited cuda_wait callback device native stream frame c diag = Passed (st, c')"
    and "gc_leases c \<noteq> 0"
  shows "c' = c"
  using assms wait_keeps [of query waited frame c diag st c']
  by (auto simp: order_consumer_def Let_def split: if_splits call.splits option.splits prod.splits)

text \<open>What is known of the producer when a consumer was ordered behind it.\<close>

definition ordered_behind ::
    "status section_outcome \<Rightarrow> (u64 \<Rightarrow> u64 \<Rightarrow> u64 \<Rightarrow> status) option \<Rightarrow> (u64 \<Rightarrow> u64 \<Rightarrow> mkvc_result call) option \<Rightarrow>
     gpu_native_handle_desc \<Rightarrow> u64 \<Rightarrow> bool" where
  "ordered_behind waited cuda_wait callback native stream \<longleftrightarrow>
     (\<exists>error. waited = Passed (MKVC_OK, error)) \<or>
     stream \<noteq> 0 \<and> gn_handles native ! 3 \<noteq> 0 \<and>
     ((\<exists>queue. callback = Some queue \<and> queue (gn_handles native ! 3) stream = Returns MKVC_OK) \<or>
      (\<exists>wait error. cuda_wait = Some wait \<and> wait (gn_handles native ! 1) (gn_handles native ! 3) stream = (MKVC_OK, error)))"

lemma order_ordered:
  assumes "order_consumer query waited cuda_wait callback device native stream frame c diag = Passed (st, c')"
    and "fst st = MKVC_OK" and "valid_frame frame c"
  shows "ordered_behind waited cuda_wait callback native stream"
proof -
  obtain rc error where st: "st = (rc, error)" by (cases st)
  show ?thesis using assms unfolding st
    by (auto simp: order_consumer_def gpu_frame_wait_def ordered_behind_def Let_def case_prod_beta
        split: if_splits call.splits option.splits section_outcome.splits) (metis prod.collapse)+
qed

lemma export_cases:
  assumes "export_dlpack_impl query waited cuda_wait callback allocated out_given plane stream (Some f) c diag = Passed ((st, tensor), frame', c')"
    and "gc_leases c \<noteq> 0" and "gf_references f \<noteq> 0"
  obtains (refused) "fst st \<noteq> MKVC_OK" "tensor = None" "frame' = Some f" "c' = c"
  | (exported) native device where "fst st = MKVC_OK" "gc_native c = Some native" "linear_memory (gc_desc c) native = Some device"
      "tensor = Some (plane_tensor (gc_desc c) native device plane)" "valid_frame (Some f) c"
      "frame' = Some (f\<lparr>gf_references := gf_references f + 1\<rparr>)" "c' = c"
      "plane < gd_plane_count (gc_desc c)" "gd_pixel_format (gc_desc c) = MKVC_PIXEL_FORMAT_NV12"
      "\<not> gd_plane_offsets (gc_desc c) ! unat plane > - 1 - gn_handles native ! 0"
      "ordered_behind waited cuda_wait callback native stream"
proof -
  let ?f' = "f\<lparr>gf_references := gf_references f + 1\<rparr>"
  show thesis
  proof (cases "\<exists>native device. valid_frame (Some f) c \<and> gc_native c = Some native \<and> \<not> gc_recycled c \<and>
      linear_memory (gc_desc c) native = Some device \<and>
      out_given \<and> plane < gd_plane_count (gc_desc c) \<and> gd_pixel_format (gc_desc c) = MKVC_PIXEL_FORMAT_NV12 \<and>
      gd_device_id (gc_desc c) \<le> 2147483647 \<and> gd_pitches (gc_desc c) ! unat plane \<le> 9223372036854775807 \<and>
      \<not> gd_plane_offsets (gc_desc c) ! unat plane > - 1 - gn_handles native ! 0 \<and> allocated")
    case False
    then have "fst st \<noteq> MKVC_OK \<and> tensor = None \<and> frame' = Some f \<and> c' = c"
      using assms(1)
      by (auto simp: export_dlpack_impl_def gpu_frame_get_desc_def gpu_frame_get_native_handle_def get_native_handle_def
          valid_output_def gpu_frame_retain_def not_le not_less
          split: if_splits option.splits prod.splits sum.splits)
    then show thesis using refused by blast
  next
    case True
    then obtain native device where k: "valid_frame (Some f) c" "gc_native c = Some native" "\<not> gc_recycled c"
        "linear_memory (gc_desc c) native = Some device" "out_given" "plane < gd_plane_count (gc_desc c)"
        "gd_pixel_format (gc_desc c) = MKVC_PIXEL_FORMAT_NV12" "gd_device_id (gc_desc c) \<le> 2147483647"
        "gd_pitches (gc_desc c) ! unat plane \<le> 9223372036854775807"
        "\<not> gd_plane_offsets (gc_desc c) ! unat plane > - 1 - gn_handles native ! 0" "allocated"
      by blast
    have valid': "valid_frame (Some ?f') c" using k(1) by (simp add: valid_frame_def)
    have released: "gpu_frame_release query (Some ?f') c = (Some f, c)"
      using assms(3) by (simp add: gpu_frame_release_def)
    obtain ost oc where order: "order_consumer query waited cuda_wait callback device native stream (Some ?f') c diag = Passed (ost, oc)"
        and out: "((st, tensor), frame', c') = (if fst ost \<noteq> MKVC_OK then ((ost, None), gpu_frame_release query (Some ?f') oc)
          else ((ost, Some (plane_tensor (gc_desc c) native device plane)), Some ?f', oc))"
      using assms(1) k
      by (auto simp: export_dlpack_impl_def gpu_frame_get_desc_def gpu_frame_get_native_handle_def get_native_handle_def
          valid_output_def gpu_frame_retain_def split: if_splits section_outcome.splits prod.splits)
    have "oc = c" using order_keeps [OF order assms(2)] .
    show thesis
    proof (cases "fst ost = MKVC_OK")
      case True
      then show thesis using exported [of native device] out k \<open>oc = c\<close> order_ordered [OF order True valid'] by simp
    next
      case False
      then show thesis using refused out \<open>oc = c\<close> released by simp
    qed
  qed
qed


text \<open>C32. A DLPack export holds exactly one reference of its frame: a refused export, whatever the
  reason, leaves handle and core as they were and hands out no tensor; a tensor is handed out only
  with its consumer ordered behind the producer, for a frame that is not recycled, with one
  reference more, and the tensor's deleter gives exactly that reference back.\<close>

theorem dlpack_export_balanced:
  assumes "export_dlpack_impl query waited cuda_wait callback allocated out_given plane stream (Some f) c diag =
      Passed ((st, tensor), frame', c')"
    and "gc_leases c \<noteq> 0" and "gf_references f \<noteq> 0"
  shows "c' = c \<and> (tensor = None \<longleftrightarrow> fst st \<noteq> MKVC_OK) \<and>
    managed_tensor_release query tensor frame' c' = (Some f, c) \<and>
    (case tensor of
       None \<Rightarrow> frame' = Some f
     | Some t \<Rightarrow> frame' = Some (f\<lparr>gf_references := gf_references f + 1\<rparr>) \<and> \<not> gc_recycled c \<and>
         (\<exists>native. gc_native c = Some native \<and> ordered_behind waited cuda_wait callback native stream))"
  using assms
proof (cases rule: export_cases)
  case refused
  then show ?thesis by (simp add: managed_tensor_release_def)
next
  case (exported native device)
  then show ?thesis using assms(3)
    by (simp add: managed_tensor_release_def gpu_frame_release_def valid_frame_def)
qed

definition tensor_byte :: "dlpack_tensor \<Rightarrow> nat \<Rightarrow> nat \<Rightarrow> nat" where
  "tensor_byte t row column = unat (dl_data t) + row * unat (fst (dl_strides t)) + column * unat (snd (dl_strides t))"

lemma linear_layout:
  assumes "layout_error config allow = None" "linear_memory (xc_frame config) (xc_native config) = Some device"
  shows "unat (gd_width (xc_frame config)) \<le> unat (gd_pitches (xc_frame config) ! 0) \<and>
    gd_pitches (xc_frame config) ! 1 = gd_pitches (xc_frame config) ! 0 \<and>
    gd_plane_offsets (xc_frame config) ! 0 = 0 \<and>
    unat (gd_plane_offsets (xc_frame config) ! 1) = unat (gd_pitches (xc_frame config) ! 0) * unat (gd_height (xc_frame config)) \<and>
    gd_plane_count (xc_frame config) = 2"
proof -
  let ?d = "xc_frame config" and ?n = "xc_native config"
  have layout: "\<not> gd_pitches ?d ! 0 < ucast (gd_width ?d)" "gd_pitches ?d ! 1 = gd_pitches ?d ! 0"
      "\<not> gd_pitches ?d ! 0 > 4294967295" "gd_plane_offsets ?d ! 0 = 0"
      "gd_plane_offsets ?d ! 1 = gd_pitches ?d ! 0 * ucast (gd_height ?d)" "gd_plane_count ?d = 2"
    using assms
    by (auto simp: layout_error_def linear_memory_def nvidia_layout_def intel_layout_def Let_def split: if_splits)
  have small: "unat (gd_pitches ?d ! 0) \<le> 4294967295" using layout(3) by (simp add: word_less_nat_alt not_less)
  have "unat (gd_pitches ?d ! 0) * unat (gd_height ?d) \<le> 4294967295 * 4294967295"
    using small u32_less [of "gd_height ?d"] by (intro mult_le_mono) simp_all
  then have "unat (gd_pitches ?d ! 0 * ucast (gd_height ?d)) = unat (gd_pitches ?d ! 0) * unat (gd_height ?d)"
    by (simp add: unat_word_ariths unat_ucast_u32)
  then show ?thesis using layout by (simp add: word_less_nat_alt not_less unat_ucast_u32)
qed

text \<open>C33. The two planes of an imported frame exported as tensors: no byte of the luma tensor is a byte
  of the chroma tensor, and all of them lie in the pitch times height and a half bytes behind the
  imported pointer.\<close>

theorem dlpack_planes_disjoint:
  assumes "layout_error config allow = None"
    and "gc_desc c = xc_frame config" and "gc_native c = Some (xc_native config)"
    and "gc_leases c \<noteq> 0" and "gf_references f \<noteq> 0" and "gf_references g \<noteq> 0"
    and "export_dlpack_impl query waited cuda_wait callback allocated out_given 0 stream (Some f) c diag =
      Passed ((st, Some luma), frame', c')"
    and "export_dlpack_impl query' waited' cuda_wait' callback' allocated' out_given' 1 stream' (Some g) c diag' =
      Passed ((st', Some uv), frame'', c'')"
    and "row < unat (fst (dl_shape luma))" and "column < unat (snd (dl_shape luma))"
    and "row' < unat (fst (dl_shape uv))" and "column' < unat (snd (dl_shape uv))"
  shows "unat (gn_handles (xc_native config) ! 0) \<le> tensor_byte luma row column \<and>
    tensor_byte luma row column < tensor_byte uv row' column' \<and>
    tensor_byte uv row' column' < unat (gn_handles (xc_native config) ! 0) +
      unat (gd_pitches (xc_frame config) ! 0) * (unat (gd_height (xc_frame config)) + unat (gd_height (xc_frame config)) div 2)"
proof -
  let ?d = "xc_frame config" and ?base = "gn_handles (xc_native config) ! 0"
  let ?p = "unat (gd_pitches ?d ! 0)" and ?w = "unat (gd_width ?d)" and ?h = "unat (gd_height ?d)"
  have "\<exists>device. luma = plane_tensor ?d (xc_native config) device 0 \<and> linear_memory ?d (xc_native config) = Some device"
    by (rule export_cases [OF assms(7,4,5)]) (use assms(2,3) in simp_all)
  then obtain device where luma: "luma = plane_tensor ?d (xc_native config) device 0"
      and device: "linear_memory ?d (xc_native config) = Some device" by blast
  have "\<exists>device. uv = plane_tensor ?d (xc_native config) device 1 \<and> \<not> gd_plane_offsets ?d ! 1 > - 1 - ?base"
    by (rule export_cases [OF assms(8,4,6)]) (use assms(2,3) in auto)
  then obtain device' where uv: "uv = plane_tensor ?d (xc_native config) device' 1"
      and base: "\<not> gd_plane_offsets ?d ! 1 > - 1 - ?base" by blast
  note layout = linear_layout [OF assms(1) device]
  have wide: "unat (ucast v :: u64) = unat v" for v :: u32 by (rule unat_ucast_u32)
  have data: "unat (dl_data luma) = unat ?base" "unat (dl_data uv) = unat ?base + ?p * ?h"
    using layout u64_sum_fits [OF base] by (simp_all add: luma uv plane_tensor_def add.commute)
  have strides: "unat (fst (dl_strides luma)) = ?p" "unat (fst (dl_strides uv)) = ?p"
      "unat (snd (dl_strides luma)) = 1" "unat (snd (dl_strides uv)) = 1"
    using layout by (simp_all add: luma uv plane_tensor_def)
  have row: "row < ?h" "column < ?w" "row' < ?h div 2" "column' < ?w"
    using assms(9-12) by (simp_all add: luma uv plane_tensor_def wide unat_div)
  have inside: "r * ?p + x < n * ?p" if "r < n" "x < ?w" for r x n
  proof -
    have "Suc r * ?p \<le> n * ?p" using that(1) by (intro mult_le_mono1) simp
    then show ?thesis using that(2) layout by simp
  qed
  show ?thesis using inside [OF row(1,2)] inside [OF row(3,4)]
    by (simp add: tensor_byte_def data strides algebra_simps)
qed


section \<open>Witnesses\<close>

definition sample_native :: gpu_native_handle_desc where
  "sample_native = \<lparr>gn_struct_size = 64, gn_struct_version = 1, gn_type = MKVC_GPU_NATIVE_CUDA_POINTER,
     gn_borrowed = 1, gn_device_id = 7, gn_generation = 3, gn_handles = [4096, 1, 0, 0]\<rparr>"

definition sample_external :: external_config where
  "sample_external = \<lparr>xc_struct_size = 232, xc_struct_version = 1, xc_frame = sample_gpu_desc,
     xc_native = sample_native, xc_query = False, xc_release = True\<rparr>"

definition sample_imported :: "gpu_frame_handle \<times> gpu_frame_core" where
  "sample_imported = (\<lparr>gf_references = 1, gf_has_core = True, gf_generation = 3\<rparr>,
     (new_core sample_gpu_desc (Some 0) True (Some sample_native) (NvidiaCudaFrame 4096))\<lparr>gc_leases := 1\<rparr>)"

lemma sample_layout: "layout_error sample_external False = None"
  by code_simp

lemma sample_import:
  "import_call (GenericImport 0) (\<lambda>_. CompletionDone) True (Inr 0) (Some sample_external) True =
     Passed \<lparr>ir_status = (MKVC_OK, []), ir_frame = Some sample_imported, ir_releases = 0\<rparr>"
  using sample_layout
  by (simp add: import_external_def valid_external_def import_with_completion_def make_handle_def acquire_external_def
      new_core_def release_calls_def sample_imported_def sample_external_def sample_gpu_desc_def sample_native_def Let_def)

theorem import_ownership_witness:
  "release_calls True (gc_calls (fs_core (frame_run [(\<lambda>_. CompletionDone, ReleaseHandle 0)]
      \<lparr>fs_core = snd sample_imported, fs_handles = [fst sample_imported]\<rparr>))) = 1"
proof -
  let ?y = "frame_run [(\<lambda>_. CompletionDone, ReleaseHandle 0)] \<lparr>fs_core = snd sample_imported, fs_handles = [fst sample_imported]\<rparr>"
  have "gc_recycled (fs_core ?y)"
    by (simp add: sample_imported_def gpu_frame_release_def release_external_def maybe_recycle_def new_core_def
        completions_done_def Let_def)
  then show ?thesis
    using import_ownership [OF sample_import, of "[(\<lambda>_. CompletionDone, ReleaseHandle 0)]"]
    by (simp add: sample_imported_def Let_def del: frame_run.simps)
qed

definition sample_tensor :: "u32 \<Rightarrow> dlpack_tensor" where
  "sample_tensor plane = plane_tensor sample_gpu_desc sample_native DLCuda plane"

lemma sample_export:
  "export_dlpack_impl (\<lambda>_. CompletionDone) (Passed ok) None None True True 0 0 (Some (fst sample_imported)) (snd sample_imported) [] =
     Passed (((MKVC_OK, []), Some (sample_tensor 0)), Some ((fst sample_imported)\<lparr>gf_references := 2\<rparr>), snd sample_imported)"
  "export_dlpack_impl (\<lambda>_. CompletionDone) (Passed ok) None None True True 1 0 (Some (fst sample_imported)) (snd sample_imported) [] =
     Passed (((MKVC_OK, []), Some (sample_tensor 1)), Some ((fst sample_imported)\<lparr>gf_references := 2\<rparr>), snd sample_imported)"
  by (simp_all add: export_dlpack_impl_def gpu_frame_get_desc_def gpu_frame_get_native_handle_def get_native_handle_def
      valid_output_def gpu_frame_retain_def valid_frame_def sample_imported_def new_core_def sample_gpu_desc_def
      sample_native_def linear_memory_def order_consumer_def gpu_frame_wait_def poll_recycle_def maybe_recycle_def
      sample_tensor_def Let_def word_le_nat_alt)

theorem dlpack_export_balanced_witness:
  "managed_tensor_release (\<lambda>_. CompletionDone) (Some (sample_tensor 0)) (Some ((fst sample_imported)\<lparr>gf_references := 2\<rparr>))
     (snd sample_imported) = (Some (fst sample_imported), snd sample_imported)"
  using dlpack_export_balanced [OF sample_export(1)] by (simp add: sample_imported_def new_core_def)

theorem dlpack_planes_disjoint_witness:
  "tensor_byte (sample_tensor 0) 1 3 < tensor_byte (sample_tensor 1) 0 0 \<and> tensor_byte (sample_tensor 1) 0 3 < 4096 + 4 * 3"
proof -
  have leases: "gc_leases (snd sample_imported) \<noteq> 0" "gf_references (fst sample_imported) \<noteq> 0"
      "gc_desc (snd sample_imported) = xc_frame sample_external"
      "gc_native (snd sample_imported) = Some (xc_native sample_external)"
    by (simp_all add: sample_imported_def new_core_def sample_external_def)
  have shapes: "unat (fst (dl_shape (sample_tensor 0))) = 2" "unat (fst (dl_shape (sample_tensor 1))) = 1"
      "unat (snd (dl_shape (sample_tensor 0))) = 4" "unat (snd (dl_shape (sample_tensor 1))) = 4"
      "unat (gn_handles (xc_native sample_external) ! 0) = 4096" "unat (gd_pitches (xc_frame sample_external) ! 0) = 4"
      "unat (gd_height (xc_frame sample_external)) = 2"
    by code_simp+
  note planes = dlpack_planes_disjoint [OF sample_layout leases(3,4,1,2,2) sample_export]
  from planes [of 1 3 0 0] planes [of 1 3 0 3] show ?thesis unfolding shapes by simp
qed

end
