(* ===== verification/GpuPools.thy ===== *)
theory GpuPools
  imports GpuFrame
begin

text \<open>
  The two fixed-capacity pools of the GPU layer: src/gpu/gpu_resource_pool.cpp with its C functions
  (src/gpu/gpu_resource_pool_c_api.cpp), and src/gpu/gpu_frame_pool.cpp, whose slots are given back
  by the recycle callback of the frame cores it makes. \<open>allocated\<close> says whether the allocation of
  the object handed out succeeds; when it fails the slot is given back and the exception goes on.
\<close>

section \<open>Slots\<close>

record gpu_slot =
  gs_generation :: u64
  gs_in_use :: bool

definition new_gpu_slot :: gpu_slot where
  "new_gpu_slot = \<lparr>gs_generation = 0, gs_in_use = False\<rparr>"

section \<open>The resource pool\<close>

record gpu_resource_pool =
  gr_slots :: "gpu_slot list"
  gr_in_use :: u32
  gr_peak_in_use :: u32
  gr_acquisitions :: u64
  gr_rejected_acquisitions :: u64
  gr_wait_ns :: u64

definition new_resource_pool :: "u32 \<Rightarrow> gpu_resource_pool" where
  "new_resource_pool capacity = \<lparr>gr_slots = replicate (unat capacity) new_gpu_slot, gr_in_use = 0,
     gr_peak_in_use = 0, gr_acquisitions = 0, gr_rejected_acquisitions = 0, gr_wait_ns = 0\<rparr>"

definition release_resource :: "lease \<Rightarrow> gpu_resource_pool \<Rightarrow> gpu_resource_pool" where
  "release_resource l p = (case l of (slot, generation) \<Rightarrow>
     if slot \<ge> length (gr_slots p) then p
     else let candidate = gr_slots p ! slot
     in if \<not> gs_in_use candidate \<or> gs_generation candidate \<noteq> generation then p
     else p\<lparr>gr_slots := (gr_slots p)[slot := candidate\<lparr>gs_in_use := False\<rparr>],
            gr_in_use := (if gr_in_use p \<noteq> 0 then gr_in_use p - 1 else gr_in_use p)\<rparr>)"

text \<open>A generation of zero is skipped when the counter wraps.\<close>

definition next_generation :: "u64 \<Rightarrow> u64" where
  "next_generation g = (if g + 1 = 0 then g + 1 + 1 else g + 1)"

definition take_resource :: "bool \<Rightarrow> nat \<Rightarrow> gpu_resource_pool \<Rightarrow> lease call \<times> gpu_resource_pool" where
  "take_resource allocated index p =
     (let slot = gr_slots p ! index; generation = next_generation (gs_generation slot);
          p = p\<lparr>gr_slots := (gr_slots p)[index := slot\<lparr>gs_in_use := True, gs_generation := generation\<rparr>],
                gr_in_use := gr_in_use p + 1, gr_acquisitions := gr_acquisitions p + 1,
                gr_peak_in_use := max (gr_peak_in_use p) (gr_in_use p + 1)\<rparr>
      in if allocated then (Returns (index, generation), p)
         else (Throws (Some ''std::bad_alloc''), release_resource (index, generation) p))"

text \<open>\<open>waited\<close>: the call found the pool full when it came; \<open>expired\<close>: its deadline has passed.\<close>

definition acquire_resource ::
    "u32 \<Rightarrow> bool \<Rightarrow> bool \<Rightarrow> u64 \<Rightarrow> bool \<Rightarrow> gpu_resource_pool \<Rightarrow>
     ((status \<times> lease option) call \<times> gpu_resource_pool) section_outcome" where
  "acquire_resource timeout_ms waited expired elapsed allocated p =
     (case first_free gs_in_use (gr_slots p) 0 of
        Some index \<Rightarrow>
          (let p = (if waited then p\<lparr>gr_wait_ns := gr_wait_ns p + elapsed\<rparr> else p)
           in (case take_resource allocated index p of
                 (Returns l, p') \<Rightarrow> Passed (Returns (ok, Some l), p')
               | (Throws what, p') \<Rightarrow> Passed (Throws what, p')))
      | None \<Rightarrow>
          if timeout_ms = 0
          then Passed (Returns ((MKVC_WOULD_BLOCK, ''external GPU resource pool is full''), None),
                       p\<lparr>gr_rejected_acquisitions := gr_rejected_acquisitions p + 1\<rparr>)
          else if timeout_ms = - 1 \<or> \<not> expired then Blocked
          else Passed (Returns ((MKVC_ERROR_TIMEOUT, ''external GPU resource pool acquire timed out''), None),
                       p\<lparr>gr_wait_ns := gr_wait_ns p + elapsed,
                         gr_rejected_acquisitions := gr_rejected_acquisitions p + 1\<rparr>))"

record gpu_resource_pool_stats =
  rs_capacity :: u32
  rs_in_use :: u32
  rs_peak_in_use :: u32
  rs_reserved :: u32
  rs_acquisitions :: u64
  rs_rejected_acquisitions :: u64
  rs_wait_ns :: u64

definition resource_snapshot :: "gpu_resource_pool \<Rightarrow> gpu_resource_pool_stats" where
  "resource_snapshot p = \<lparr>rs_capacity = of_nat (length (gr_slots p)), rs_in_use = gr_in_use p,
     rs_peak_in_use = gr_peak_in_use p, rs_reserved = 0, rs_acquisitions = gr_acquisitions p,
     rs_rejected_acquisitions = gr_rejected_acquisitions p, rs_wait_ns = gr_wait_ns p\<rparr>"

section \<open>The C functions of the resource pool\<close>

record gpu_resource_pool_config =
  rc_struct_size :: u32
  rc_struct_version :: u32
  rc_capacity :: u32
  rc_reserved :: u32

abbreviation sizeof_gpu_resource_pool_config :: u32 where "sizeof_gpu_resource_pool_config \<equiv> 16"
abbreviation sizeof_gpu_resource_reservation_desc :: u32 where "sizeof_gpu_resource_reservation_desc \<equiv> 24"
abbreviation sizeof_gpu_resource_pool_stats :: u32 where "sizeof_gpu_resource_pool_stats \<equiv> 48"

text \<open>\<open>allocation\<close> is how the allocation of the handle ends: in particular, by \<^verbatim>\<open>std::bad_alloc\<close>
  or another exception.\<close>

datatype allocation = Allocated | BadAlloc | OtherException

definition gpu_resource_pool_create ::
    "allocation \<Rightarrow> gpu_resource_pool_config option \<Rightarrow> bool \<Rightarrow> string \<Rightarrow> status \<times> gpu_resource_pool option" where
  "gpu_resource_pool_create allocation config out_given diag =
     (if \<not> out_given then ((MKVC_ERROR_INVALID_ARGUMENT, ''null GPU pool output''), None)
      else (case config of
          None \<Rightarrow> ((MKVC_ERROR_INVALID_ARGUMENT, ''invalid external GPU pool configuration''), None)
        | Some c \<Rightarrow>
            if rc_struct_size c < sizeof_gpu_resource_pool_config \<or> rc_struct_version c \<noteq> 1 \<or>
               rc_capacity c = 0 \<or> rc_reserved c \<noteq> 0
            then ((MKVC_ERROR_INVALID_ARGUMENT, ''invalid external GPU pool configuration''), None)
            else (case allocation of
                    Allocated \<Rightarrow> ((MKVC_OK, diag), Some (new_resource_pool (rc_capacity c)))
                  | BadAlloc \<Rightarrow> ((MKVC_ERROR_INTERNAL, ''external GPU pool allocation failed''), None)
                  | OtherException \<Rightarrow> ((MKVC_ERROR_INTERNAL, ''unknown external GPU pool failure''), None))))"

text \<open>The reservation is destroyed again, and the slot given back, when its handle cannot be made.\<close>

definition gpu_resource_pool_acquire ::
    "u32 \<Rightarrow> bool \<Rightarrow> bool \<Rightarrow> u64 \<Rightarrow> bool \<Rightarrow> allocation \<Rightarrow> bool \<Rightarrow> gpu_resource_pool option \<Rightarrow> string \<Rightarrow>
     ((status \<times> lease option) \<times> gpu_resource_pool option) section_outcome" where
  "gpu_resource_pool_acquire timeout_ms waited expired elapsed allocated allocation out_given pool diag =
     (if \<not> out_given then Passed (((MKVC_ERROR_INVALID_ARGUMENT, ''null GPU reservation output''), None), pool)
      else (case pool of
        None \<Rightarrow> Passed (((MKVC_ERROR_INVALID_STATE, ''external GPU pool is closed''), None), pool)
      | Some p \<Rightarrow>
          (case acquire_resource timeout_ms waited expired elapsed allocated p of
             Blocked \<Rightarrow> Blocked
           | Passed (Throws what, p') \<Rightarrow>
               Passed (((MKVC_ERROR_INTERNAL, ''GPU reservation allocation failed''), None), Some p')
           | Passed (Returns (st, None), p') \<Rightarrow> Passed ((st, None), Some p')
           | Passed (Returns (st, Some l), p') \<Rightarrow>
               (case allocation of
                  Allocated \<Rightarrow> Passed (((MKVC_OK, diag), Some l), Some p')
                | BadAlloc \<Rightarrow> Passed (((MKVC_ERROR_INTERNAL, ''GPU reservation allocation failed''), None),
                    Some (release_resource l p'))
                | OtherException \<Rightarrow> Passed (((MKVC_ERROR_INTERNAL, ''unknown GPU reservation failure''), None),
                    Some (release_resource l p'))))))"

definition gpu_resource_reservation_get_desc ::
    "lease option \<Rightarrow> out_struct \<Rightarrow> string \<Rightarrow> status \<times> (u32 \<times> u32 \<times> u64) option" where
  "gpu_resource_reservation_get_desc reservation out diag =
     (case reservation of
        None \<Rightarrow> ((MKVC_ERROR_INVALID_ARGUMENT, ''invalid GPU reservation descriptor query''), None)
      | Some (slot, generation) \<Rightarrow>
          if \<not> valid_output sizeof_gpu_resource_reservation_desc out
          then ((MKVC_ERROR_INVALID_ARGUMENT, ''invalid GPU reservation descriptor query''), None)
          else ((MKVC_OK, diag), Some (of_nat slot, 0, generation)))"

definition gpu_resource_reservation_release :: "lease option \<Rightarrow> gpu_resource_pool \<Rightarrow> gpu_resource_pool" where
  "gpu_resource_reservation_release reservation p =
     (case reservation of None \<Rightarrow> p | Some l \<Rightarrow> release_resource l p)"

definition gpu_resource_pool_get_stats ::
    "gpu_resource_pool option \<Rightarrow> out_struct \<Rightarrow> string \<Rightarrow> status \<times> gpu_resource_pool_stats option" where
  "gpu_resource_pool_get_stats pool out diag =
     (case pool of
        None \<Rightarrow> ((MKVC_ERROR_INVALID_ARGUMENT, ''invalid external GPU pool stats query''), None)
      | Some p \<Rightarrow>
          if \<not> valid_output sizeof_gpu_resource_pool_stats out
          then ((MKVC_ERROR_INVALID_ARGUMENT, ''invalid external GPU pool stats query''), None)
          else ((MKVC_OK, diag), Some (resource_snapshot p)))"

section \<open>The frame pool\<close>

record gpu_frame_pool =
  gp_slots :: "gpu_slot list"
  gp_in_use :: u64
  gp_peak_in_use :: u64

definition new_gpu_frame_pool :: "nat \<Rightarrow> gpu_frame_pool" where
  "new_gpu_frame_pool capacity =
     \<lparr>gp_slots = replicate capacity new_gpu_slot, gp_in_use = 0, gp_peak_in_use = 0\<rparr>"

definition recycle_gpu_frame :: "lease \<Rightarrow> gpu_frame_pool \<Rightarrow> gpu_frame_pool" where
  "recycle_gpu_frame l p = (case l of (slot, generation) \<Rightarrow>
     if slot \<ge> length (gp_slots p) then p
     else let candidate = gp_slots p ! slot
     in if \<not> gs_in_use candidate \<or> gs_generation candidate \<noteq> generation then p
     else p\<lparr>gp_slots := (gp_slots p)[slot := candidate\<lparr>gs_in_use := False\<rparr>],
            gp_in_use := (if gp_in_use p \<noteq> 0 then gp_in_use p - 1 else gp_in_use p)\<rparr>)"

definition take_gpu_frame :: "nat \<Rightarrow> gpu_frame_pool \<Rightarrow> lease \<times> gpu_frame_pool" where
  "take_gpu_frame index p =
     (let slot = gp_slots p ! index; generation = gs_generation slot + 1
      in ((index, generation),
          p\<lparr>gp_slots := (gp_slots p)[index := slot\<lparr>gs_in_use := True, gs_generation := generation\<rparr>],
            gp_in_use := gp_in_use p + 1, gp_peak_in_use := max (gp_peak_in_use p) (gp_in_use p + 1)\<rparr>))"

text \<open>The new core carries the slot's generation in its descriptor and native handle; its recycle
  callback is always set.\<close>

definition acquire_gpu_frame ::
    "gpu_frame_desc \<Rightarrow> nat option \<Rightarrow> gpu_native_handle_desc option \<Rightarrow> backend_resource \<Rightarrow> bool \<Rightarrow> gpu_frame_pool \<Rightarrow>
     (status \<times> (gpu_frame_core \<times> lease) option) call \<times> gpu_frame_pool" where
  "acquire_gpu_frame desc producer native resource allocated p =
     (if producer = None \<or> gp_slots p = []
      then (Returns ((MKVC_ERROR_INVALID_ARGUMENT,
              ''GPU frame pool or producer completion is invalid''), None), p)
      else (case first_free gs_in_use (gp_slots p) 0 of
        None \<Rightarrow> (Returns ((MKVC_WOULD_BLOCK, ''GPU frame pool is full''), None), p)
      | Some index \<Rightarrow>
          (case take_gpu_frame index p of ((index, generation), p') \<Rightarrow>
             if allocated
             then (Returns (ok, Some (new_core (desc\<lparr>gd_generation := generation\<rparr>) producer True
                     (map_option (\<lambda>n. n\<lparr>gn_generation := generation\<rparr>) native) resource,
                     (index, generation))), p')
             else (Throws (Some ''std::bad_alloc''), recycle_gpu_frame (index, generation) p'))))"

text \<open>The recycle callback of the core in slot \<open>index\<close>, if the pool still exists.\<close>

definition frame_pool_callback :: "nat \<Rightarrow> u64 \<Rightarrow> gpu_frame_pool option \<Rightarrow> gpu_frame_pool option" where
  "frame_pool_callback index completed_generation pool =
     map_option (recycle_gpu_frame (index, completed_generation)) pool"

section \<open>Both keep the contract of a slot pool\<close>

abbreviation slot_bits :: "gpu_slot list \<Rightarrow> (bool \<times> u64) list" where
  "slot_bits slots \<equiv> map (\<lambda>s. (gs_in_use s, gs_generation s)) slots"

definition resource_step ::
    "u32 \<times> bool \<times> bool \<times> u64 \<Rightarrow> gpu_resource_pool \<Rightarrow> lease option \<times> gpu_resource_pool" where
  "resource_step a p = (case a of (timeout_ms, waited, expired, elapsed) \<Rightarrow>
     (case acquire_resource timeout_ms waited expired elapsed True p of
        Blocked \<Rightarrow> (None, p)
      | Passed (Returns (st, l), p') \<Rightarrow> (l, p')
      | Passed (Throws _, p') \<Rightarrow> (None, p')))"

definition frame_pool_step ::
    "gpu_frame_desc \<times> nat \<Rightarrow> gpu_frame_pool \<Rightarrow> lease option \<times> gpu_frame_pool" where
  "frame_pool_step a p = (case a of (desc, producer) \<Rightarrow>
     (case acquire_gpu_frame desc (Some producer) None NoResource True p of
        (Returns (st, Some (core, l)), p') \<Rightarrow> (Some l, p')
      | (_, p') \<Rightarrow> (None, p')))"

lemma next_generation_succ: "unat g < 18446744073709551615 \<Longrightarrow> unat (next_generation g) = Suc (unat g)"
  using u64_succ [of g] by (auto simp: next_generation_def)

lemma free_below_full:
  assumes "first_free gs_in_use slots 0 = Some i"
  shows "count_if fst (slot_bits slots) < length slots"
proof -
  note f = first_free_0 [OF assms]
  have "\<not> (\<forall>x \<in> set (slot_bits slots). fst x)" using f by (auto intro!: bexI [of _ "slots ! i"])
  then have "count_if fst (slot_bits slots) \<noteq> length (slot_bits slots)" unfolding count_if_full .
  then show ?thesis using count_if_le [of fst "slot_bits slots"] by simp
qed

lemma resource_step_full:
  "first_free gs_in_use (gr_slots p) 0 = None \<Longrightarrow>
   fst (resource_step a p) = None \<and> gr_slots (snd (resource_step a p)) = gr_slots p \<and>
   gr_in_use (snd (resource_step a p)) = gr_in_use p"
  by (simp add: resource_step_def acquire_resource_def split: prod.split)

lemma resource_step_free:
  assumes "first_free gs_in_use (gr_slots p) 0 = Some i"
  shows "fst (resource_step a p) = Some (i, next_generation (gs_generation (gr_slots p ! i)))"
    "gr_slots (snd (resource_step a p)) = (gr_slots p)[i := (gr_slots p ! i)\<lparr>gs_in_use := True,
       gs_generation := next_generation (gs_generation (gr_slots p ! i))\<rparr>]"
    "gr_in_use (snd (resource_step a p)) = gr_in_use p + 1"
  using assms
  by (simp_all add: resource_step_def acquire_resource_def take_resource_def Let_def split: prod.split)

interpretation resource_slots: slot_pool "\<lambda>p. slot_bits (gr_slots p)" "\<lambda>p. unat (gr_in_use p)"
  resource_step "\<lambda>_ :: unit. release_resource"
proof
  fix a p p'
  assume acq: "resource_step a p = (None, p')"
  then have "first_free gs_in_use (gr_slots p) 0 = None"
    using resource_step_free(1) [of p _ a] by (cases "first_free gs_in_use (gr_slots p) 0") auto
  then show "slot_bits (gr_slots p') = slot_bits (gr_slots p) \<and> unat (gr_in_use p') = unat (gr_in_use p) \<and>
      (\<forall>s \<in> set (slot_bits (gr_slots p)). fst s)"
    using resource_step_full [of p a] acq by (auto simp: first_free_None)
next
  fix a p i g p'
  assume acq: "resource_step a p = (Some (i, g), p')"
  then obtain k where k: "first_free gs_in_use (gr_slots p) 0 = Some k"
    using resource_step_full [of p a] by (cases "first_free gs_in_use (gr_slots p) 0") auto
  note f = resource_step_free [OF k, of a, unfolded acq] and free = first_free_0 [OF k]
  then have ik: "i = k" "g = next_generation (gs_generation (gr_slots p ! k))" by simp_all
  show "i < length (slot_bits (gr_slots p)) \<and> \<not> fst (slot_bits (gr_slots p) ! i) \<and>
      slot_bits (gr_slots p') = (slot_bits (gr_slots p))[i := (True, g)]"
    using f free ik by (simp add: map_update)
  show "unat g = Suc (unat (snd (slot_bits (gr_slots p) ! i)))"
    if "unat (snd (slot_bits (gr_slots p) ! i)) < 18446744073709551615"
    using that free ik by (simp add: next_generation_succ)
  show "unat (gr_in_use p') = Suc (unat (gr_in_use p))"
    if "length (slot_bits (gr_slots p)) < 4294967296"
      "unat (gr_in_use p) = count_if fst (slot_bits (gr_slots p))"
    using free_below_full [OF k] f(3) that by (simp add: u32_succ)
next
  fix r :: unit and i g p
  show "slot_bits (gr_slots (release_resource (i, g) p)) =
      (if i < length (slot_bits (gr_slots p)) \<and> slot_bits (gr_slots p) ! i = (True, g)
       then (slot_bits (gr_slots p))[i := (False, g)] else slot_bits (gr_slots p))"
    by (auto simp: release_resource_def map_update Let_def)
  show "unat (gr_in_use (release_resource (i, g) p)) =
      (if i < length (slot_bits (gr_slots p)) \<and> slot_bits (gr_slots p) ! i = (True, g)
       then unat (gr_in_use p) - 1 else unat (gr_in_use p))"
    by (auto simp: release_resource_def Let_def word_pred)
qed

lemma frame_pool_step_full:
  "first_free gs_in_use (gp_slots p) 0 = None \<Longrightarrow> frame_pool_step a p = (None, p)"
  by (simp add: frame_pool_step_def acquire_gpu_frame_def split: prod.split)

lemma frame_pool_step_free:
  assumes "first_free gs_in_use (gp_slots p) 0 = Some i"
  shows "fst (frame_pool_step a p) = Some (i, gs_generation (gp_slots p ! i) + 1)"
    "gp_slots (snd (frame_pool_step a p)) = (gp_slots p)[i := (gp_slots p ! i)\<lparr>gs_in_use := True,
       gs_generation := gs_generation (gp_slots p ! i) + 1\<rparr>]"
    "gp_in_use (snd (frame_pool_step a p)) = gp_in_use p + 1"
proof -
  have "gp_slots p \<noteq> []" using assms by auto
  then show "fst (frame_pool_step a p) = Some (i, gs_generation (gp_slots p ! i) + 1)"
    "gp_slots (snd (frame_pool_step a p)) = (gp_slots p)[i := (gp_slots p ! i)\<lparr>gs_in_use := True,
       gs_generation := gs_generation (gp_slots p ! i) + 1\<rparr>]"
    "gp_in_use (snd (frame_pool_step a p)) = gp_in_use p + 1"
    using assms
    by (simp_all add: frame_pool_step_def acquire_gpu_frame_def take_gpu_frame_def Let_def split: prod.split)
qed

interpretation frame_slots: slot_pool "\<lambda>p. slot_bits (gp_slots p)" "\<lambda>p. unat (gp_in_use p)"
  frame_pool_step "\<lambda>_ :: unit. recycle_gpu_frame"
proof
  fix a p p'
  assume acq: "frame_pool_step a p = (None, p')"
  then have none: "first_free gs_in_use (gp_slots p) 0 = None"
    using frame_pool_step_free(1) [of p _ a] by (cases "first_free gs_in_use (gp_slots p) 0") auto
  with acq have "p' = p" using frame_pool_step_full [OF none, of a] by simp
  with none show "slot_bits (gp_slots p') = slot_bits (gp_slots p) \<and> unat (gp_in_use p') = unat (gp_in_use p) \<and>
      (\<forall>s \<in> set (slot_bits (gp_slots p)). fst s)"
    by (auto simp: first_free_None)
next
  fix a p i g p'
  assume acq: "frame_pool_step a p = (Some (i, g), p')"
  then obtain k where k: "first_free gs_in_use (gp_slots p) 0 = Some k"
    using frame_pool_step_full [of p a] by (cases "first_free gs_in_use (gp_slots p) 0") auto
  note f = frame_pool_step_free [OF k, of a, unfolded acq] and free = first_free_0 [OF k]
  then have ik: "i = k" "g = gs_generation (gp_slots p ! k) + 1" by simp_all
  show "i < length (slot_bits (gp_slots p)) \<and> \<not> fst (slot_bits (gp_slots p) ! i) \<and>
      slot_bits (gp_slots p') = (slot_bits (gp_slots p))[i := (True, g)]"
    using f free ik by (simp add: map_update)
  show "unat g = Suc (unat (snd (slot_bits (gp_slots p) ! i)))"
    if "unat (snd (slot_bits (gp_slots p) ! i)) < 18446744073709551615"
    using that free ik by (simp add: u64_succ)
  show "unat (gp_in_use p') = Suc (unat (gp_in_use p))"
    if "length (slot_bits (gp_slots p)) < 4294967296"
      "unat (gp_in_use p) = count_if fst (slot_bits (gp_slots p))"
    using free_below_full [OF k] f(3) that by (simp add: u64_succ)
next
  fix r :: unit and i g p
  show "slot_bits (gp_slots (recycle_gpu_frame (i, g) p)) =
      (if i < length (slot_bits (gp_slots p)) \<and> slot_bits (gp_slots p) ! i = (True, g)
       then (slot_bits (gp_slots p))[i := (False, g)] else slot_bits (gp_slots p))"
    by (auto simp: recycle_gpu_frame_def map_update Let_def)
  show "unat (gp_in_use (recycle_gpu_frame (i, g) p)) =
      (if i < length (slot_bits (gp_slots p)) \<and> slot_bits (gp_slots p) ! i = (True, g)
       then unat (gp_in_use p) - 1 else unat (gp_in_use p))"
    by (auto simp: recycle_gpu_frame_def Let_def word_pred)
qed

section \<open>Properties\<close>

text \<open>C21. Exclusive reservations of external GPU resources: after any history of acquisitions and
  releases the reservations that are out name different slots, as many as the pool counts and at
  most its capacity; none was ever issued twice; and an acquisition with a free slot succeeds
  whatever its timeout.\<close>

theorem gpu_resource_pool_exclusive:
  assumes "pool_run resource_step (\<lambda>_ :: unit. release_resource) ops (new_resource_pool capacity, [], []) =
      (p, live, issued)"
    and "length ops < 18446744073709551616"
  shows "distinct (map fst live) \<and> length live = unat (gr_in_use p) \<and> length live \<le> unat capacity \<and>
    distinct issued \<and>
    (\<forall>i g. (i, g) \<in> set live \<longrightarrow> i < unat capacity \<and> gs_in_use (gr_slots p ! i) \<and> gs_generation (gr_slots p ! i) = g) \<and>
    (length live < unat capacity \<longrightarrow>
       (\<exists>l p'. acquire_resource timeout_ms waited expired elapsed True p = Passed (Returns (ok, Some l), p')))"
proof -
  let ?p0 = "new_resource_pool capacity"
  have "resource_slots.pool_inv (?p0, [], [])"
    using u32_less [of capacity]
    by (intro resource_slots.pool_inv_fresh) (auto simp: new_resource_pool_def new_gpu_slot_def)
  from resource_slots.pool_run_inv [OF this, of ops] assms
  have inv: "resource_slots.pool_inv (p, live, issued)" by simp
  have "length (gr_slots (fst (pool_run resource_step (\<lambda>_ :: unit. release_resource) ops (?p0, [], [])))) = unat capacity"
  proof (rule pool_run_preserves [where P = "\<lambda>p. length (gr_slots p) = unat capacity"])
    show "length (gr_slots (snd (resource_step a p))) = unat capacity"
      if "length (gr_slots p) = unat capacity" for a p
      using that resource_step_full [of p a] resource_step_free(2) [of p _ a]
      by (cases "first_free gs_in_use (gr_slots p) 0") auto
  qed (auto simp: release_resource_def new_resource_pool_def Let_def split: prod.split)
  then have cap: "length (gr_slots p) = unat capacity" using assms(1) by simp
  note facts = resource_slots.live_facts [OF inv]
  have "first_free gs_in_use (gr_slots p) 0 \<noteq> None" if "length live < unat capacity"
    using resource_slots.acquire_unless_full [OF inv] resource_step_full [of p] that cap by fastforce
  then have acq: "length live < unat capacity \<longrightarrow>
      (\<exists>l p'. acquire_resource timeout_ms waited expired elapsed True p = Passed (Returns (ok, Some l), p'))"
    by (auto simp: acquire_resource_def take_resource_def Let_def)
  have slots: "i < unat capacity \<and> gs_in_use (gr_slots p ! i) \<and> gs_generation (gr_slots p ! i) = g"
    if "(i, g) \<in> set live" for i g
    using that resource_slots.live_iff_slot [OF inv, of i g] cap by auto
  show ?thesis using facts cap acq slots by simp
qed

definition sample_resource_ops :: "(u32 \<times> bool \<times> bool \<times> u64, unit) pool_op list" where
  "sample_resource_ops = [AcquireSlot (0, False, False, 0), AcquireSlot (0, False, False, 0),
     RecycleLease (0, 1) (), AcquireSlot (0, False, False, 0), RecycleLease (0, 1) ()]"

lemma sample_resource_history:
  "pool_run resource_step (\<lambda>_ :: unit. release_resource) sample_resource_ops (new_resource_pool 3, [], []) =
   (fst (pool_run resource_step (\<lambda>_ :: unit. release_resource) sample_resource_ops (new_resource_pool 3, [], [])),
    [(0, 2), (1, 1)], [(0, 2), (1, 1), (0, 1)])"
  by code_simp

theorem gpu_resource_pool_exclusive_witness:
  "distinct (map fst [(0 :: nat, 2 :: u64), (1, 1)]) \<and>
   (\<exists>l p'. acquire_resource 0 False False 0 True
      (fst (pool_run resource_step (\<lambda>_ :: unit. release_resource) sample_resource_ops (new_resource_pool 3, [], []))) =
      Passed (Returns (ok, Some l), p'))"
  using gpu_resource_pool_exclusive [OF sample_resource_history, of 0 False False 0]
  by (simp add: sample_resource_ops_def)

text \<open>C22. Exclusive slots of a GPU frame pool: after any history of acquisitions and recyclings,
  stale recyclings included, the frames that are out hold different slots, as many as the pool
  counts; the pool reports itself full only when all are out; and the next core it makes carries
  the generation of its slot, which no frame had before.\<close>

theorem gpu_frame_pool_exclusive:
  assumes "pool_run frame_pool_step (\<lambda>_ :: unit. recycle_gpu_frame) ops (new_gpu_frame_pool capacity, [], []) =
      (p, live, issued)"
    and "length ops < 18446744073709551615" and "capacity < 4294967296"
  shows "distinct (map fst live) \<and> length live = unat (gp_in_use p) \<and> length live \<le> capacity \<and>
    (length live < capacity \<longrightarrow>
       (\<exists>c i g p'. acquire_gpu_frame desc (Some producer) native resource True p =
          (Returns (ok, Some (c, (i, g))), p') \<and>
          gd_generation (gc_desc c) = g \<and> (i, g) \<notin> set issued \<and> i \<notin> fst ` set live))"
proof -
  let ?p0 = "new_gpu_frame_pool capacity"
  have "frame_slots.pool_inv (?p0, [], [])"
    using assms(3) by (intro frame_slots.pool_inv_fresh) (auto simp: new_gpu_frame_pool_def new_gpu_slot_def)
  note start = this
  from frame_slots.pool_run_inv [OF start, of ops] assms
  have inv: "frame_slots.pool_inv (p, live, issued)" by simp
  have "length (gp_slots (fst (pool_run frame_pool_step (\<lambda>_ :: unit. recycle_gpu_frame) ops (?p0, [], [])))) = capacity"
  proof (rule pool_run_preserves [where P = "\<lambda>p. length (gp_slots p) = capacity"])
    show "length (gp_slots (snd (frame_pool_step a p))) = capacity"
      if "length (gp_slots p) = capacity" for a p
      using that frame_pool_step_full [of p a] frame_pool_step_free(2) [of p _ a]
      by (cases "first_free gs_in_use (gp_slots p) 0") auto
  qed (auto simp: recycle_gpu_frame_def new_gpu_frame_pool_def Let_def split: prod.split)
  then have cap: "length (gp_slots p) = capacity" using assms(1) by simp
  note facts = frame_slots.live_facts [OF inv]
  have next_one: "\<exists>c i g p'. acquire_gpu_frame desc (Some producer) native resource True p =
          (Returns (ok, Some (c, (i, g))), p') \<and>
          gd_generation (gc_desc c) = g \<and> (i, g) \<notin> set issued \<and> i \<notin> fst ` set live"
    if room: "length live < capacity"
  proof -
    obtain i where i: "first_free gs_in_use (gp_slots p) 0 = Some i"
      using frame_slots.acquire_unless_full [OF inv, of "(desc, producer)"] frame_pool_step_full [of p] room cap
      by fastforce
    let ?g = "gs_generation (gp_slots p ! i) + 1"
    obtain p' where step: "frame_pool_step (desc, producer) p = (Some (i, ?g), p')"
      using frame_pool_step_free(1) [OF i, of "(desc, producer)"] by (metis prod.collapse)
    have "length issued \<le> length ops"
      using pool_run_issued [of frame_pool_step "\<lambda>_ :: unit. recycle_gpu_frame" ops ?p0 "[]" "[]"] assms(1) by simp
    then have "frame_slots.pool_inv (p', (i, ?g) # live, (i, ?g) # issued)"
      using assms(2) by (intro frame_slots.acquire_some_inv [OF inv step]) simp
    from frame_slots.live_facts [OF this] have "(i, ?g) \<notin> set issued" "i \<notin> fst ` set live" by simp_all
    moreover have "gp_slots p \<noteq> []" using i by auto
    ultimately show ?thesis using i by (auto simp: acquire_gpu_frame_def take_gpu_frame_def new_core_def Let_def)
  qed
  show ?thesis using facts cap next_one by simp
qed

definition sample_frame_pool_ops :: "(gpu_frame_desc \<times> nat, unit) pool_op list" where
  "sample_frame_pool_ops = [AcquireSlot (sample_gpu_desc, 0), AcquireSlot (sample_gpu_desc, 1),
     RecycleLease (0, 1) (), AcquireSlot (sample_gpu_desc, 2), RecycleLease (0, 1) ()]"

lemma sample_frame_pool_history:
  "pool_run frame_pool_step (\<lambda>_ :: unit. recycle_gpu_frame) sample_frame_pool_ops (new_gpu_frame_pool 3, [], []) =
   (fst (pool_run frame_pool_step (\<lambda>_ :: unit. recycle_gpu_frame) sample_frame_pool_ops (new_gpu_frame_pool 3, [], [])),
    [(0, 2), (1, 1)], [(0, 2), (1, 1), (0, 1)])"
  by code_simp

theorem gpu_frame_pool_exclusive_witness:
  "distinct (map fst [(0 :: nat, 2 :: u64), (1, 1)]) \<and>
   (\<exists>c i g p'. acquire_gpu_frame sample_gpu_desc (Some 5) None NoResource True
      (fst (pool_run frame_pool_step (\<lambda>_ :: unit. recycle_gpu_frame) sample_frame_pool_ops (new_gpu_frame_pool 3, [], []))) =
      (Returns (ok, Some (c, (i, g))), p') \<and> gd_generation (gc_desc c) = g \<and>
      (i, g) \<notin> set [(0, 2), (1, 1), (0, 1)] \<and> i \<notin> fst ` set [(0 :: nat, 2 :: u64), (1, 1)])"
  using gpu_frame_pool_exclusive [OF sample_frame_pool_history, of sample_gpu_desc 5 None NoResource]
  by (simp add: sample_frame_pool_ops_def del: list.set)

end
