(* ===== verification/VplQueue.thy ===== *)
theory VplQueue
  imports GpuFrame
begin

text \<open>
  The submissions of the Intel encoder (src/gpu/intel/vpl_encoder_queue.cpp) and the packets it reads
  from their bitstreams (vpl_bitstream.cpp). oneVPL is a parameter: a record of its calls over its own
  state. A bitstream buffer, a SyncPoint and a surface are numbers; completions and frames live in a
  store. The hooks of test builds are left out. A call that repeats until the runtime answers has no
  value if it never does.
\<close>

section \<open>oneVPL\<close>

abbreviation MFX_ERR_NONE :: int where "MFX_ERR_NONE \<equiv> 0"
abbreviation MFX_ERR_UNSUPPORTED :: int where "MFX_ERR_UNSUPPORTED \<equiv> - 3"
abbreviation MFX_ERR_NOT_ENOUGH_BUFFER :: int where "MFX_ERR_NOT_ENOUGH_BUFFER \<equiv> - 5"
abbreviation MFX_ERR_MORE_DATA :: int where "MFX_ERR_MORE_DATA \<equiv> - 10"
abbreviation MFX_ERR_DEVICE_LOST :: int where "MFX_ERR_DEVICE_LOST \<equiv> - 13"
abbreviation MFX_WRN_IN_EXECUTION :: int where "MFX_WRN_IN_EXECUTION \<equiv> 1"
abbreviation MFX_WRN_DEVICE_BUSY :: int where "MFX_WRN_DEVICE_BUSY \<equiv> 2"

record vpl_surface =
  vs_handle :: u64
  vs_timestamp :: u64
  vs_pixels :: "(bytes \<times> bytes) option" \<comment> \<open>luma and chroma memory of a mapped surface\<close>

record vpl_bitstream =
  vb_data :: bytes
  vb_offset :: u32
  vb_length :: u32
  vb_timestamp :: u64
  vb_frame_type :: "16 word"

text \<open>\<^verbatim>\<open>EncodeFrameAsync\<close> for a surface, or none while draining, and a buffer of a size: status and the
  SyncPoint it sets; \<^verbatim>\<open>SyncOperation\<close>; the bitstream structure as it stands.\<close>

record 'v vpl_encode =
  vl_encode_async :: "vpl_surface option \<Rightarrow> nat \<Rightarrow> u32 \<Rightarrow> 'v \<Rightarrow> (int \<times> nat option) \<times> 'v"
  vl_sync :: "nat \<Rightarrow> 'v \<Rightarrow> int \<times> 'v"
  vl_bitstream :: "nat \<Rightarrow> 'v \<Rightarrow> vpl_bitstream"

fun decimal_digits :: "nat \<Rightarrow> string" where
  "decimal_digits n = (if n < 10 then [char_of (48 + n)] else decimal_digits (n div 10) @ [char_of (48 + n mod 10)])"

declare decimal_digits.simps [simp del]

definition to_string :: "int \<Rightarrow> string" where
  "to_string i = (if i < 0 then CHR ''-'' # decimal_digits (nat (- i)) else decimal_digits (nat i))"

section \<open>Packets\<close>

record intel_packet =
  ip_data :: bytes
  ip_pts :: i64
  ip_key :: bool

definition read_le32 :: "bytes \<Rightarrow> nat \<Rightarrow> u32" where
  "read_le32 value i = ucast (value ! i) OR push_bit 8 (ucast (value ! (i + 1))) OR
     push_bit 16 (ucast (value ! (i + 2))) OR push_bit 24 (ucast (value ! (i + 3)))"

text \<open>Where the packet lies: behind the IVF headers of VP9, everything otherwise. \<open>value\<close> is the
  valid part of the buffer.\<close>

definition packet_span :: "bytes \<Rightarrow> u32 \<Rightarrow> (nat \<times> nat) outcome" where
  "packet_span value codec =
     (let size_of = length value in
      if codec = MKVC_CODEC_VP9
      then (let ivf = size_of \<ge> 4 \<and> take 4 value = [68, 75, 73, 70]
            in if ivf \<and> size_of < 32 then Inl (MKVC_ERROR_CODEC, ''oneVPL returned a truncated VP9 IVF header'')
            else let offset = (if ivf then 32 else 0)
            in if size_of < offset + 12 then Inl (MKVC_ERROR_CODEC, ''oneVPL returned a truncated VP9 IVF frame header'')
            else let frame_size = unat (read_le32 value offset); offset = offset + 12
            in if frame_size = 0 \<or> frame_size > size_of - offset
               then Inl (MKVC_ERROR_CODEC, ''oneVPL returned an invalid VP9 IVF frame size'')
               else Inr (offset, frame_size))
      else Inr (0, size_of))"

definition packet_pts :: "u64 \<Rightarrow> u32 \<Rightarrow> u32 \<Rightarrow> i64" where
  "packet_pts timestamp fps_num fps_den = timestamp * ucast fps_num div (90000 * ucast fps_den)"

text \<open>No value where the bitstream structure points outside its buffer.\<close>

definition append_vpl_encoded_packet ::
    "vpl_bitstream \<Rightarrow> u32 \<Rightarrow> u32 \<Rightarrow> u32 \<Rightarrow> intel_packet list \<Rightarrow> (status \<times> intel_packet list) option" where
  "append_vpl_encoded_packet bitstream codec fps_num fps_den packets =
     (if vb_length bitstream = 0 then Some (ok, packets)
      else (case read_block (vb_data bitstream) (unat (vb_offset bitstream)) (unat (vb_length bitstream)) of
        None \<Rightarrow> None
      | Some value \<Rightarrow>
          (case packet_span value codec of
             Inl st \<Rightarrow> Some (st, packets)
           | Inr (offset, size_of) \<Rightarrow> Some (ok, packets @
               [\<lparr>ip_data = take size_of (drop offset value),
                 ip_pts = packet_pts (vb_timestamp bitstream) fps_num fps_den,
                 ip_key = vb_frame_type bitstream AND (0x0001 OR 0x0080) \<noteq> 0\<rparr>]))))"

section \<open>The queue\<close>

record pending_encode =
  pn_buffer :: nat \<comment> \<open>its bitstream and storage\<close>
  pn_sync :: nat
  pn_completion :: "nat option"
  pn_frame :: "nat option"

record 'v vpl_queue =
  vq_session :: 'v
  vq_codec :: u32
  vq_fps_num :: u32
  vq_fps_den :: u32
  vq_bitstream_capacity :: nat
  vq_async_depth :: u32
  vq_pending :: "pending_encode list"
  vq_max_pending :: u32
  vq_closed :: bool
  vq_next_buffer :: nat

definition new_vpl_queue :: "'v \<Rightarrow> u32 \<Rightarrow> u32 \<Rightarrow> u32 \<Rightarrow> nat \<Rightarrow> u32 \<Rightarrow> 'v vpl_queue" where
  "new_vpl_queue session codec fps_num fps_den bitstream_capacity async_depth =
     \<lparr>vq_session = session, vq_codec = codec, vq_fps_num = fps_num, vq_fps_den = fps_den,
      vq_bitstream_capacity = bitstream_capacity, vq_async_depth = async_depth, vq_pending = [],
      vq_max_pending = 0, vq_closed = False, vq_next_buffer = 0\<rparr>"

text \<open>The completions and frames that submissions refer to.\<close>

record gpu_store =
  st_completions :: "manual_completion list"
  st_frames :: "nat \<Rightarrow> gpu_frame_core"

definition store_query :: "gpu_store \<Rightarrow> nat \<Rightarrow> gpu_status" where
  "store_query store k = (if k < length (st_completions store) then mc_status (st_completions store ! k) else CompletionDone)"

definition resolve_completion :: "(manual_completion \<Rightarrow> manual_completion) \<Rightarrow> nat option \<Rightarrow> gpu_store \<Rightarrow> gpu_store" where
  "resolve_completion f completion store =
     (case completion of None \<Rightarrow> store
      | Some k \<Rightarrow> store\<lparr>st_completions := (st_completions store)[k := f (st_completions store ! k)]\<rparr>)"

definition poll_frame :: "nat option \<Rightarrow> gpu_store \<Rightarrow> gpu_store" where
  "poll_frame frame store =
     (case frame of None \<Rightarrow> store
      | Some f \<Rightarrow> store\<lparr>st_frames := (st_frames store)(f := poll_recycle (store_query store) (st_frames store f))\<rparr>)"

text \<open>The two loops on the runtime: until it is not busy, until the operation is not in execution.\<close>

partial_function (option) encode_when_ready ::
    "'v vpl_encode \<Rightarrow> vpl_surface option \<Rightarrow> nat \<Rightarrow> u32 \<Rightarrow> 'v \<Rightarrow> ((int \<times> nat option) \<times> 'v) option" where
  "encode_when_ready vpl surface buffer max_length v =
     (case vl_encode_async vpl surface buffer max_length v of ((result, sync), v') \<Rightarrow>
        if result = MFX_WRN_DEVICE_BUSY then encode_when_ready vpl surface buffer max_length v'
        else Some ((result, sync), v'))"

partial_function (option) sync_finished :: "'v vpl_encode \<Rightarrow> nat \<Rightarrow> 'v \<Rightarrow> (int \<times> 'v) option" where
  "sync_finished vpl sync v =
     (case vl_sync vpl sync v of (result, v') \<Rightarrow>
        if result = MFX_WRN_IN_EXECUTION then sync_finished vpl sync v' else Some (result, v'))"

text \<open>A submission that is not kept frees its buffer.\<close>

definition vpl_submit ::
    "'v vpl_encode \<Rightarrow> vpl_surface option \<Rightarrow> nat option \<Rightarrow> nat option \<Rightarrow> 'v vpl_queue \<Rightarrow> gpu_store \<Rightarrow>
     (status \<times> 'v vpl_queue \<times> gpu_store) option" where
  "vpl_submit vpl surface completion input_frame q store =
     (if vq_closed q then Some ((MKVC_ERROR_INVALID_STATE, ''oneVPL encoder queue is closed''), q, store)
      else let buffer = vq_next_buffer q in
        (case encode_when_ready vpl surface buffer (of_nat (vq_bitstream_capacity q)) (vq_session q) of
           None \<Rightarrow> None
         | Some ((result, sync), v) \<Rightarrow>
             let q = q\<lparr>vq_session := v, vq_next_buffer := Suc buffer\<rparr>
             in if result = MFX_ERR_MORE_DATA then Some ((MKVC_END_OF_STREAM, []), q, store)
             else if result = MFX_ERR_NOT_ENOUGH_BUFFER
             then Some ((MKVC_ERROR_BUFFER_TOO_SMALL, ''oneVPL bitstream buffer is too small''), q, store)
             else if result < MFX_ERR_NONE
             then Some ((if result = MFX_ERR_DEVICE_LOST then MKVC_ERROR_IO else MKVC_ERROR_CODEC,
                         ''oneVPL EncodeFrameAsync failed with status '' @ to_string result), q, store)
             else (case sync of
                     Some s \<Rightarrow>
                       let pending = vq_pending q @ [\<lparr>pn_buffer = buffer, pn_sync = s, pn_completion = completion,
                                                      pn_frame = input_frame\<rparr>]
                       in Some (ok, q\<lparr>vq_pending := pending,
                            vq_max_pending := max (vq_max_pending q) (of_nat (length pending))\<rparr>, store)
                   | None \<Rightarrow> Some (ok, q,
                       if completion = None then store
                       else poll_frame input_frame (resolve_completion manual_complete completion store)))))"

definition vpl_collect_oldest ::
    "'v vpl_encode \<Rightarrow> intel_packet list \<Rightarrow> 'v vpl_queue \<Rightarrow> gpu_store \<Rightarrow>
     (status \<times> intel_packet list \<times> 'v vpl_queue \<times> gpu_store) option" where
  "vpl_collect_oldest vpl packets q store =
     (case vq_pending q of
        [] \<Rightarrow> Some (ok, packets, q, store)
      | p # rest \<Rightarrow>
          (case sync_finished vpl (pn_sync p) (vq_session q) of
             None \<Rightarrow> None
           | Some (result, v) \<Rightarrow>
               let q = q\<lparr>vq_session := v, vq_pending := rest\<rparr>
               in if result \<noteq> MFX_ERR_NONE
               then (let error = ''oneVPL SyncOperation failed with status '' @ to_string result
                     in Some ((if result = MFX_ERR_DEVICE_LOST then MKVC_ERROR_IO else MKVC_ERROR_CODEC, error),
                              packets, q, resolve_completion (manual_fail error) (pn_completion p) store))
               else (case append_vpl_encoded_packet (vl_bitstream vpl (pn_buffer p) v) (vq_codec q) (vq_fps_num q)
                            (vq_fps_den q) packets of
                       None \<Rightarrow> None
                     | Some (st, packets') \<Rightarrow>
                         if fst st \<noteq> MKVC_OK
                         then Some (st, packets', q, resolve_completion (manual_fail (snd st)) (pn_completion p) store)
                         else Some (ok, packets', q,
                           poll_frame (pn_frame p) (resolve_completion manual_complete (pn_completion p) store)))))"

definition vpl_pending_count :: "'v vpl_queue \<Rightarrow> nat" where
  "vpl_pending_count q = length (vq_pending q)"

function collect_all ::
    "'v vpl_encode \<Rightarrow> intel_packet list \<Rightarrow> 'v vpl_queue \<Rightarrow> gpu_store \<Rightarrow>
     (status \<times> intel_packet list \<times> 'v vpl_queue \<times> gpu_store) option" where
  "collect_all vpl packets q store =
     (if vpl_pending_count q = 0 then Some (ok, packets, q, store)
      else (case vpl_collect_oldest vpl packets q store of
              None \<Rightarrow> None
            | Some (st, packets', q', store') \<Rightarrow>
                if fst st \<noteq> MKVC_OK then Some (st, packets', q', store')
                else collect_all vpl packets' q' store'))"
  by pat_completeness auto
termination
  by (relation "measure (\<lambda>(vpl, packets, q, store). length (vq_pending q))")
    (auto simp: vpl_collect_oldest_def vpl_pending_count_def Let_def split: list.splits option.splits prod.splits if_splits)

declare collect_all.simps [simp del]

partial_function (option) vpl_drain ::
    "'v vpl_encode \<Rightarrow> intel_packet list \<Rightarrow> 'v vpl_queue \<Rightarrow> gpu_store \<Rightarrow>
     (status \<times> intel_packet list \<times> 'v vpl_queue \<times> gpu_store) option" where
  "vpl_drain vpl packets q store =
     (case vpl_submit vpl None None None q store of
        None \<Rightarrow> None
      | Some (st, q', store') \<Rightarrow>
          if fst st = MKVC_END_OF_STREAM then collect_all vpl packets q' store'
          else if fst st \<noteq> MKVC_OK then Some (st, packets, q', store')
          else if vpl_pending_count q' \<ge> unat (vq_async_depth q')
          then (case vpl_collect_oldest vpl packets q' store' of
                  None \<Rightarrow> None
                | Some (st', packets', q'', store'') \<Rightarrow>
                    if fst st' \<noteq> MKVC_OK then Some (st', packets', q'', store'')
                    else vpl_drain vpl packets' q'' store'')
          else vpl_drain vpl packets q' store')"

fun close_pending ::
    "'v vpl_encode \<Rightarrow> pending_encode list \<Rightarrow> 'v \<Rightarrow> gpu_store \<Rightarrow> ('v \<times> gpu_store) option" where
  "close_pending vpl [] v store = Some (v, store)"
| "close_pending vpl (p # ps) v store =
     (case sync_finished vpl (pn_sync p) v of
        None \<Rightarrow> None
      | Some (result, v') \<Rightarrow> close_pending vpl ps v'
          (resolve_completion (if result = MFX_ERR_NONE then manual_complete
             else manual_fail ''oneVPL encoder close synchronization failed'') (pn_completion p) store))"

definition vpl_close_queue :: "'v vpl_encode \<Rightarrow> 'v vpl_queue \<Rightarrow> gpu_store \<Rightarrow> ('v vpl_queue \<times> gpu_store) option" where
  "vpl_close_queue vpl q store =
     (if vq_closed q then Some (q, store)
      else (case close_pending vpl (vq_pending q) (vq_session q) store of
              None \<Rightarrow> None
            | Some (v, store') \<Rightarrow> Some (q\<lparr>vq_session := v, vq_pending := [], vq_closed := True\<rparr>, store')))"

section \<open>Sequences of operations\<close>

text \<open>A GPU frame is submitted with a completion of its own, which the submitting adapter resolves
  itself when the queue does not keep it (vpl_gpu_submission.cpp); a CPU frame goes without one.\<close>

definition submit_with_completion ::
    "'v vpl_encode \<Rightarrow> vpl_surface \<Rightarrow> nat \<Rightarrow> 'v vpl_queue \<Rightarrow> gpu_store \<Rightarrow>
     (status \<times> 'v vpl_queue \<times> gpu_store) option" where
  "submit_with_completion vpl surface frame q store =
     (let k = length (st_completions store);
          store = store\<lparr>st_completions := st_completions store @ [new_manual]\<rparr>
      in (case vpl_submit vpl (Some surface) (Some k) (Some frame) q store of
            None \<Rightarrow> None
          | Some (st, q', store') \<Rightarrow> Some (st, q',
              if fst st = MKVC_OK then store'
              else resolve_completion (if fst st = MKVC_END_OF_STREAM then manual_complete else manual_fail (snd st))
                     (Some k) store')))"

datatype vpl_op = SubmitGpu vpl_surface nat | SubmitCpu vpl_surface | CollectOldest | DrainQueue | CloseQueue

record 'v vpl_run =
  vr_queue :: "'v vpl_queue"
  vr_store :: gpu_store
  vr_packets :: "intel_packet list"

fun vpl_step :: "'v vpl_encode \<Rightarrow> vpl_op \<Rightarrow> 'v vpl_run \<Rightarrow> 'v vpl_run option" where
  "vpl_step vpl (SubmitGpu surface frame) r =
     (case submit_with_completion vpl surface frame (vr_queue r) (vr_store r) of
        None \<Rightarrow> None | Some (_, q, store) \<Rightarrow> Some (r\<lparr>vr_queue := q, vr_store := store\<rparr>))"
| "vpl_step vpl (SubmitCpu surface) r =
     (case vpl_submit vpl (Some surface) None None (vr_queue r) (vr_store r) of
        None \<Rightarrow> None | Some (_, q, store) \<Rightarrow> Some (r\<lparr>vr_queue := q, vr_store := store\<rparr>))"
| "vpl_step vpl CollectOldest r =
     (case vpl_collect_oldest vpl (vr_packets r) (vr_queue r) (vr_store r) of
        None \<Rightarrow> None | Some (_, packets, q, store) \<Rightarrow> Some (\<lparr>vr_queue = q, vr_store = store, vr_packets = packets\<rparr>))"
| "vpl_step vpl DrainQueue r =
     (case vpl_drain vpl (vr_packets r) (vr_queue r) (vr_store r) of
        None \<Rightarrow> None | Some (_, packets, q, store) \<Rightarrow> Some (\<lparr>vr_queue = q, vr_store = store, vr_packets = packets\<rparr>))"
| "vpl_step vpl CloseQueue r =
     (case vpl_close_queue vpl (vr_queue r) (vr_store r) of
        None \<Rightarrow> None | Some (q, store) \<Rightarrow> Some (r\<lparr>vr_queue := q, vr_store := store\<rparr>))"

fun vpl_steps :: "'v vpl_encode \<Rightarrow> vpl_op list \<Rightarrow> 'v vpl_run \<Rightarrow> 'v vpl_run option" where
  "vpl_steps vpl [] r = Some r"
| "vpl_steps vpl (op # ops) r = (case vpl_step vpl op r of None \<Rightarrow> None | Some r' \<Rightarrow> vpl_steps vpl ops r')"

section \<open>What the runtime sees\<close>

text \<open>The same runtime keeping a record: the buffers and SyncPoints it accepted, and for every finished
  synchronization the SyncPoint, the status and the bitstream as it stood.\<close>

type_synonym vpl_record = "(nat \<times> nat) list \<times> (nat \<times> int \<times> vpl_bitstream) list"

definition recording :: "'v vpl_encode \<Rightarrow> ('v \<times> vpl_record) vpl_encode" where
  "recording vpl =
     \<lparr>vl_encode_async = (\<lambda>surface buffer max_length (v, accepted, synced).
        case vl_encode_async vpl surface buffer max_length v of ((result, sync), v') \<Rightarrow>
          ((result, sync), v',
           case sync of Some s \<Rightarrow> if result \<ge> MFX_ERR_NONE \<and> result \<noteq> MFX_WRN_DEVICE_BUSY
                                  then accepted @ [(buffer, s)] else accepted
           | None \<Rightarrow> accepted, synced)),
      vl_sync = (\<lambda>s (v, accepted, synced). case vl_sync vpl s v of (result, v') \<Rightarrow>
        (result, v', accepted,
         if result = MFX_WRN_IN_EXECUTION then synced
         else synced @ [(s, result, vl_bitstream vpl (fst (accepted ! length synced)) v')])),
      vl_bitstream = (\<lambda>buffer (v, _). vl_bitstream vpl buffer v)\<rparr>"

definition packets_of :: "u32 \<Rightarrow> u32 \<Rightarrow> u32 \<Rightarrow> nat \<times> int \<times> vpl_bitstream \<Rightarrow> intel_packet list" where
  "packets_of codec fps_num fps_den synced =
     (case synced of (s, result, bitstream) \<Rightarrow>
        if result \<noteq> MFX_ERR_NONE then []
        else (case append_vpl_encoded_packet bitstream codec fps_num fps_den [] of
                Some (st, packets) \<Rightarrow> packets | None \<Rightarrow> []))"

text \<open>Everything accepted is waited for once, in the order it was accepted, and what is left is what
  the queue holds; the packets are those of the synchronizations that were collected; exactly the
  completions in the queue are pending.\<close>

abbreviation held :: "pending_encode list \<Rightarrow> nat list" where
  "held pending \<equiv> List.map_filter pn_completion pending"

definition queue_log :: "u32 \<times> u32 \<times> u32 \<Rightarrow> ('v \<times> vpl_record) vpl_queue \<Rightarrow> intel_packet list \<Rightarrow> bool" where
  "queue_log cfg q packets \<longleftrightarrow> cfg = (vq_codec q, vq_fps_num q, vq_fps_den q) \<and>
     (case vq_session q of (v, accepted, synced) \<Rightarrow>
        (\<exists>gone. accepted = gone @ map (\<lambda>p. (pn_buffer p, pn_sync p)) (vq_pending q) \<and> map snd gone = map fst synced) \<and>
        (\<exists>collected closing. synced = collected @ closing \<and> (closing \<noteq> [] \<longrightarrow> vq_closed q) \<and>
           packets = concat (map (packets_of (vq_codec q) (vq_fps_num q) (vq_fps_den q)) collected)) \<and>
        (vq_closed q \<longrightarrow> vq_pending q = []))"

definition store_matches :: "nat list \<Rightarrow> gpu_store \<Rightarrow> bool" where
  "store_matches ks store \<longleftrightarrow> distinct ks \<and> (\<forall>k \<in> set ks. k < length (st_completions store)) \<and>
     (\<forall>k. k < length (st_completions store) \<longrightarrow>
        (mc_status (st_completions store ! k) = CompletionPending) = (k \<in> set ks))"

lemma encode_when_ready_recording:
  assumes "encode_when_ready vpl' surface buffer max_length s = Some y" "vpl' = recording vpl"
  shows "fst (snd (snd y)) = fst (snd s) @
      (case snd (fst y) of Some sp \<Rightarrow> if fst (fst y) \<ge> MFX_ERR_NONE then [(buffer, sp)] else [] | None \<Rightarrow> []) \<and>
    snd (snd (snd y)) = snd (snd s)"
  using assms
proof (induction rule: encode_when_ready.raw_induct [rotated, consumes 1, case_names step])
  case (step self vpl' surface buffer max_length s y)
  obtain v accepted synced where s: "s = (v, accepted, synced)" by (metis prod.exhaust)
  obtain result sync v1 where answer: "vl_encode_async vpl surface buffer max_length v = ((result, sync), v1)"
    by (metis prod.exhaust)
  show ?case
  proof (cases "result = MFX_WRN_DEVICE_BUSY")
    case True
    then have "self vpl' surface buffer max_length (v1, accepted, synced) = Some y"
      using step.hyps step.prems s answer by (simp add: recording_def split: option.splits)
    from step.IH [OF this step.prems] show ?thesis by (simp add: s)
  next
    case False
    then show ?thesis
      using step.hyps step.prems s answer by (auto simp: recording_def split: option.splits)
  qed
qed

lemma sync_finished_recording:
  assumes "sync_finished vpl' sp s = Some y" "vpl' = recording vpl"
  shows "fst (snd (snd y)) = fst (snd s) \<and> snd (snd (snd y)) = snd (snd s) @
       [(sp, fst y, vl_bitstream vpl (fst (fst (snd s) ! length (snd (snd s)))) (fst (snd y)))]"
  using assms
proof (induction rule: sync_finished.raw_induct [rotated, consumes 1, case_names step])
  case (step self vpl' sp s y)
  obtain v accepted synced where s: "s = (v, accepted, synced)" by (metis prod.exhaust)
  obtain result v1 where answer: "vl_sync vpl sp v = (result, v1)" by (metis prod.exhaust)
  show ?case
  proof (cases "result = MFX_WRN_IN_EXECUTION")
    case True
    then have "self vpl' sp (v1, accepted, synced) = Some y"
      using step.hyps step.prems s answer by (simp add: recording_def)
    from step.IH [OF this step.prems] show ?thesis by (simp add: s)
  next
    case False
    then show ?thesis
      using step.hyps step.prems s answer by (auto simp: recording_def)
  qed
qed

lemma append_packet_accumulates:
  "append_vpl_encoded_packet b codec n d packets =
     map_option (\<lambda>(st, ps). (st, packets @ ps)) (append_vpl_encoded_packet b codec n d [])"
  by (auto simp: append_vpl_encoded_packet_def Let_def split: option.splits sum.splits prod.splits)

lemma held_simps [simp]:
  "held [] = []" "held (p # ps) = (case pn_completion p of None \<Rightarrow> [] | Some k \<Rightarrow> [k]) @ held ps"
  "held (ps @ qs) = held ps @ held qs"
  by (simp_all add: List.map_filter_def split: option.splits)

lemma poll_frame_completions [simp]: "st_completions (poll_frame frame store) = st_completions store"
  by (simp add: poll_frame_def split: option.splits)

lemma resolving_status [simp]:
  "mc_status (manual_complete c) = CompletionDone" "mc_status (manual_fail e c) = CompletionFailed"
  by (simp_all add: manual_complete_def manual_fail_def)

lemma store_matches_poll [simp]: "store_matches ks (poll_frame frame store) = store_matches ks store"
  by (simp add: store_matches_def)

lemma store_matches_resolve:
  assumes "store_matches ((case c of None \<Rightarrow> [] | Some k \<Rightarrow> [k]) @ ks) store" "\<And>m. mc_status (f m) \<noteq> CompletionPending"
  shows "store_matches ks (resolve_completion f c store)"
  using assms by (auto simp: store_matches_def resolve_completion_def nth_list_update split: option.splits)

lemma queue_log_pending_gone:
  assumes "queue_log cfg q packets" "vq_session q = (v, accepted, synced)" "vq_pending q = p # rest"
  shows "accepted ! length synced = (pn_buffer p, pn_sync p)"
proof -
  obtain gone where gone: "accepted = gone @ map (\<lambda>p. (pn_buffer p, pn_sync p)) (p # rest)" "map snd gone = map fst synced"
    using assms unfolding queue_log_def by auto
  have "length gone = length synced" using arg_cong [OF gone(2), of length] by simp
  then show ?thesis using gone(1) by (simp add: nth_append)
qed

text \<open>Taking the oldest submission and waiting for its SyncPoint.\<close>

lemma queue_log_take:
  assumes log: "queue_log cfg q packets" and "\<not> vq_closed q" and session: "vq_session q = (v, accepted, synced)"
    and pending: "vq_pending q = p # rest"
  shows "queue_log cfg (q\<lparr>vq_session := (v', accepted, synced @ [(pn_sync p, result, b)]), vq_pending := rest\<rparr>)
    (packets @ packets_of (vq_codec q) (vq_fps_num q) (vq_fps_den q) (pn_sync p, result, b))"
proof -
  obtain gone where gone: "accepted = gone @ map (\<lambda>p. (pn_buffer p, pn_sync p)) (p # rest)" "map snd gone = map fst synced"
    using log session pending unfolding queue_log_def by auto
  have "\<exists>gone'. accepted = gone' @ map (\<lambda>p. (pn_buffer p, pn_sync p)) rest \<and>
      map snd gone' = map fst (synced @ [(pn_sync p, result, b)])"
    by (rule exI [of _ "gone @ [(pn_buffer p, pn_sync p)]"]) (simp add: gone)
  then show ?thesis
    using log \<open>\<not> vq_closed q\<close> session unfolding queue_log_def by auto
qed

lemma collect_keeps:
  assumes log: "queue_log cfg q packets" and store: "store_matches (held (vq_pending q)) store"
    and run: "vpl_collect_oldest (recording vpl) packets q store = Some (st, packets', q', store')"
  shows "queue_log cfg q' packets' \<and> store_matches (held (vq_pending q')) store'"
proof (cases "vq_pending q")
  case Nil
  then show ?thesis using assms by (auto simp: vpl_collect_oldest_def)
next
  case (Cons p rest)
  have opened: "\<not> vq_closed q"
    using log Cons unfolding queue_log_def by (auto split: prod.splits)
  obtain v accepted synced where session: "vq_session q = (v, accepted, synced)" by (metis prod.exhaust)
  obtain result s' where sync: "sync_finished (recording vpl) (pn_sync p) (vq_session q) = Some (result, s')"
    using run Cons by (auto simp: vpl_collect_oldest_def split: option.splits prod.splits)
  define b where "b = vl_bitstream vpl (pn_buffer p) (fst s')"
  have s': "s' = (fst s', accepted, synced @ [(pn_sync p, result, b)])"
    using sync_finished_recording [OF sync refl] queue_log_pending_gone [OF log session Cons]
    by (simp add: session b_def prod_eq_iff)
  have bits: "vl_bitstream (recording vpl) (pn_buffer p) s' = b"
    by (simp add: recording_def b_def case_prod_beta)
  note taken = queue_log_take [OF log opened session Cons, where v' = "fst s'" and result = result and b = b]
  have resolve: "store_matches (held rest) (resolve_completion f (pn_completion p) store)"
    if "\<And>m. mc_status (f m) \<noteq> CompletionPending" for f
    by (rule store_matches_resolve [OF _ that]) (use store Cons in \<open>simp split: option.splits\<close>)
  have s'_session: "q\<lparr>vq_session := s', vq_pending := rest\<rparr> =
      q\<lparr>vq_session := (fst s', accepted, synced @ [(pn_sync p, result, b)]), vq_pending := rest\<rparr>"
    using s' by simp
  show ?thesis
    using run taken resolve sync bits unfolding vpl_collect_oldest_def Cons
    by (auto simp: Let_def s'_session packets_of_def append_packet_accumulates [of b _ _ _ packets]
        split: option.splits prod.splits if_splits)
qed

abbreviation held_option :: "nat option \<Rightarrow> nat list" where
  "held_option c \<equiv> (case c of None \<Rightarrow> [] | Some k \<Rightarrow> [k])"

text \<open>A submission that is not kept leaves its completion to the caller.\<close>

lemma store_matches_commute: "store_matches (xs @ ys) store = store_matches (ys @ xs) store"
  by (auto simp: store_matches_def)

lemma queue_log_accept:
  assumes "queue_log cfg q packets" "\<not> vq_closed q" "vq_session q = (v, accepted, synced)"
  shows "queue_log cfg (q\<lparr>vq_session := (v', accepted, synced), vq_next_buffer := n\<rparr>) packets"
    "queue_log cfg (q\<lparr>vq_session := (v', accepted @ [(buffer, s)], synced), vq_next_buffer := n, vq_pending := vq_pending q @
       [\<lparr>pn_buffer = buffer, pn_sync = s, pn_completion = c, pn_frame = f\<rparr>], vq_max_pending := mx\<rparr>) packets"
  using assms unfolding queue_log_def by auto

lemma submit_keeps:
  assumes log: "queue_log cfg q packets"
    and store: "store_matches (held (vq_pending q) @ held_option completion) store"
    and run: "vpl_submit (recording vpl) surface completion frame q store = Some (st, q', store')"
  shows "queue_log cfg q' packets \<and>
    store_matches (held (vq_pending q') @ (if fst st = MKVC_OK then [] else held_option completion)) store'"
proof (cases "vq_closed q")
  case True
  then show ?thesis using assms by (auto simp: vpl_submit_def)
next
  case opened: False
  obtain v accepted synced where session: "vq_session q = (v, accepted, synced)" by (metis prod.exhaust)
  obtain result sync s' where enc: "encode_when_ready (recording vpl) surface (vq_next_buffer q)
      (of_nat (vq_bitstream_capacity q)) (vq_session q) = Some ((result, sync), s')"
    using run opened by (auto simp: vpl_submit_def Let_def split: option.splits)
  have s': "s' = (fst s', accepted @ (case sync of Some sp \<Rightarrow> if result \<ge> MFX_ERR_NONE then [(vq_next_buffer q, sp)] else []
        | None \<Rightarrow> []), synced)"
    using encode_when_ready_recording [OF enc refl] by (cases sync) (simp_all add: session prod_eq_iff)
  note kept = queue_log_accept [OF log opened session, where v' = "fst s'"]
  show ?thesis
  proof (cases "result < MFX_ERR_NONE \<or> sync = None")
    case True
    then have s'_same: "s' = (fst s', accepted, synced)" using s' by (auto split: option.splits)
    have q1: "queue_log cfg (q\<lparr>vq_session := s', vq_next_buffer := Suc (vq_next_buffer q)\<rparr>) packets"
      using kept(1) by (subst s'_same)
    have completed: "store_matches (held (vq_pending q)) (resolve_completion manual_complete completion store)"
      by (rule store_matches_resolve) (use store store_matches_commute in \<open>auto split: option.splits\<close>)
    show ?thesis
      using run opened True q1 store completed enc unfolding vpl_submit_def
      by (auto simp: Let_def resolve_completion_def split: option.splits if_splits)
  next
    case False
    then obtain sp where sp: "sync = Some sp" "result \<ge> MFX_ERR_NONE" by auto
    then have s'_more: "s' = (fst s', accepted @ [(vq_next_buffer q, sp)], synced)" using s' by simp
    have q1: "queue_log cfg (q\<lparr>vq_session := s', vq_next_buffer := n, vq_pending := vq_pending q @ [\<lparr>pn_buffer = vq_next_buffer q, pn_sync = sp,
        pn_completion = completion, pn_frame = frame\<rparr>], vq_max_pending := mx\<rparr>) packets" for mx n
      using kept(2) by (subst s'_more)
    show ?thesis
      using run opened sp q1 store enc unfolding vpl_submit_def
      by (cases completion) (auto simp: Let_def)
  qed
qed

lemma collect_all_keeps:
  assumes "queue_log cfg q packets" "store_matches (held (vq_pending q)) store"
    and "collect_all (recording vpl) packets q store = Some (st, packets', q', store')"
  shows "queue_log cfg q' packets' \<and> store_matches (held (vq_pending q')) store'"
  using assms
proof (induction "recording vpl" packets q store rule: collect_all.induct)
  case (1 packets q store)
  show ?case
  proof (cases "vpl_pending_count q = 0")
    case True
    then show ?thesis using 1 by (simp add: collect_all.simps)
  next
    case False
    then obtain st1 p1 q1 store1 where first: "vpl_collect_oldest (recording vpl) packets q store = Some (st1, p1, q1, store1)"
      using "1.prems" by (auto simp: collect_all.simps [of _ packets q] split: option.splits)
    note kept = collect_keeps [OF "1.prems"(1,2) first]
    show ?thesis
    proof (cases "fst st1 = MKVC_OK")
      case True
      then have "collect_all (recording vpl) p1 q1 store1 = Some (st, packets', q', store')"
        using "1.prems"(3) False first by (simp add: collect_all.simps [of _ packets q])
      then show ?thesis using "1.hyps" [OF False first] True kept by simp
    next
      case failed: False
      then show ?thesis using "1.prems"(3) False first kept by (simp add: collect_all.simps [of _ packets q])
    qed
  qed
qed

lemma drain_keeps:
  assumes "vpl_drain vpl' packets q store = Some y" "vpl' = recording vpl"
    and "queue_log cfg q packets" "store_matches (held (vq_pending q)) store"
  shows "queue_log cfg (fst (snd (snd y))) (fst (snd y)) \<and>
    store_matches (held (vq_pending (fst (snd (snd y))))) (snd (snd (snd y)))"
  using assms
proof (induction rule: vpl_drain.raw_induct [rotated, consumes 1, case_names step])
  case (step self vpl' packets q store y)
  obtain st q1 store1 where sub: "vpl_submit (recording vpl) None None None q store = Some (st, q1, store1)"
    using step.hyps step.prems(1) by (auto split: option.splits)
  have kept: "queue_log cfg q1 packets" "store_matches (held (vq_pending q1)) store1"
    using submit_keeps [OF step.prems(2) _ sub] step.prems(3) by (auto split: if_splits)
  show ?case
  proof (cases "fst st = MKVC_END_OF_STREAM")
    case True
    then obtain st' p' q' store' where "y = (st', p', q', store')" "collect_all (recording vpl) packets q1 store1 = Some y"
      using step.hyps step.prems(1) sub by (cases y) auto
    then show ?thesis using collect_all_keeps [OF kept] by auto
  next
    case more: False
    show ?thesis
    proof (cases "fst st = MKVC_OK")
      case False
      then show ?thesis using step.hyps step.prems(1) sub kept more by auto
    next
      case True
      show ?thesis
      proof (cases "vpl_pending_count q1 \<ge> unat (vq_async_depth q1)")
        case False
        then have "self vpl' packets q1 store1 = Some y"
          using step.hyps step.prems(1) sub True by simp
        from step.IH [OF this step.prems(1) kept] show ?thesis .
      next
        case full: True
        then obtain st2 p2 q2 store2 where col: "vpl_collect_oldest (recording vpl) packets q1 store1 = Some (st2, p2, q2, store2)"
          using step.hyps step.prems(1) sub True by (auto split: option.splits)
        note kept2 = collect_keeps [OF kept col]
        show ?thesis
        proof (cases "fst st2 = MKVC_OK")
          case False
          then show ?thesis using step.hyps step.prems(1) sub True full col kept2 by auto
        next
          case fine: True
          then have "self vpl' p2 q2 store2 = Some y"
            using step.hyps step.prems(1) sub True full col by simp
          from step.IH [OF this step.prems(1)] kept2 show ?thesis by blast
        qed
      qed
    qed
  qed
qed

lemma close_pending_recording:
  assumes "close_pending (recording vpl) ps s store = Some (s', store')"
    and "store_matches (held ps) store"
  shows "store_matches [] store' \<and> fst (snd s') = fst (snd s) \<and>
    (\<exists>more. snd (snd s') = snd (snd s) @ more \<and> map fst more = map pn_sync ps)"
  using assms
proof (induction ps arbitrary: s store)
  case (Cons p ps)
  obtain result s1 where sync: "sync_finished (recording vpl) (pn_sync p) s = Some (result, s1)"
    using Cons.prems(1) by (auto split: option.splits)
  define f where "f = (if result = MFX_ERR_NONE then manual_complete
      else manual_fail ''oneVPL encoder close synchronization failed'')"
  have rest: "close_pending (recording vpl) ps s1 (resolve_completion f (pn_completion p) store) = Some (s', store')"
    using Cons.prems(1) sync by (simp add: f_def)
  have "store_matches (held ps) (resolve_completion f (pn_completion p) store)"
    by (rule store_matches_resolve) (use Cons.prems(2) in \<open>auto simp: f_def split: option.splits\<close>)
  from Cons.IH [OF rest this] sync_finished_recording [OF sync refl] show ?case by auto
qed (auto)

lemma close_keeps:
  assumes log: "queue_log cfg q packets" and store: "store_matches (held (vq_pending q)) store"
    and run: "vpl_close_queue (recording vpl) q store = Some (q', store')"
  shows "queue_log cfg q' packets \<and> store_matches (held (vq_pending q')) store'"
proof (cases "vq_closed q")
  case True
  then show ?thesis using assms by (auto simp: vpl_close_queue_def)
next
  case False
  obtain v accepted synced where session: "vq_session q = (v, accepted, synced)" by (metis prod.exhaust)
  obtain s' where closed: "close_pending (recording vpl) (vq_pending q) (vq_session q) store = Some (s', store')"
    and q': "q' = q\<lparr>vq_session := s', vq_pending := [], vq_closed := True\<rparr>"
    using run False by (auto simp: vpl_close_queue_def split: option.splits)
  obtain v' more where s': "s' = (v', accepted, synced @ more)" "map fst more = map pn_sync (vq_pending q)"
    and st: "store_matches [] store'"
    using close_pending_recording [OF closed store] session by (cases s') auto
  obtain gone where gone: "accepted = gone @ map (\<lambda>p. (pn_buffer p, pn_sync p)) (vq_pending q)" "map snd gone = map fst synced"
    using log session unfolding queue_log_def by auto
  have "map snd accepted = map fst (synced @ more)"
    using gone s'(2) by simp
  then show ?thesis
    using log False session s' st q' unfolding queue_log_def by auto
qed

lemma submit_with_completion_keeps:
  assumes log: "queue_log cfg q packets" and store: "store_matches (held (vq_pending q)) store"
    and run: "submit_with_completion (recording vpl) surface frame q store = Some (st, q', store')"
  shows "queue_log cfg q' packets \<and> store_matches (held (vq_pending q')) store'"
proof -
  define k where "k = length (st_completions store)"
  define store0 where "store0 = store\<lparr>st_completions := st_completions store @ [new_manual]\<rparr>"
  have fresh: "store_matches (held (vq_pending q) @ held_option (Some k)) store0"
    using store by (auto simp: store_matches_def store0_def k_def nth_append new_manual_def less_Suc_eq)
  obtain store1 where sub: "vpl_submit (recording vpl) (Some surface) (Some k) (Some frame) q store0 = Some (st, q', store1)"
    and store': "store' = (if fst st = MKVC_OK then store1
        else resolve_completion (if fst st = MKVC_END_OF_STREAM then manual_complete else manual_fail (snd st)) (Some k) store1)"
    using run by (auto simp: submit_with_completion_def Let_def k_def store0_def split: option.splits)
  have kept: "queue_log cfg q' packets"
    "store_matches (held (vq_pending q') @ (if fst st = MKVC_OK then [] else held_option (Some k))) store1"
    using submit_keeps [OF log fresh sub] by auto
  show ?thesis
  proof (cases "fst st = MKVC_OK")
    case True
    then show ?thesis using kept store' by simp
  next
    case False
    have "store_matches (held (vq_pending q')) (resolve_completion f (Some k) store1)"
      if "\<And>m. mc_status (f m) \<noteq> CompletionPending" for f
      by (rule store_matches_resolve [OF _ that])
        (use kept(2) False store_matches_commute in \<open>simp del: append_Cons\<close>)
    then show ?thesis using kept(1) store' False by auto
  qed
qed

lemma vpl_step_keeps:
  assumes "queue_log cfg (vr_queue r) (vr_packets r)" "store_matches (held (vq_pending (vr_queue r))) (vr_store r)"
    and "vpl_step (recording vpl) op r = Some r'"
  shows "queue_log cfg (vr_queue r') (vr_packets r') \<and> store_matches (held (vq_pending (vr_queue r'))) (vr_store r')"
proof (cases op)
  case (SubmitGpu surface frame)
  then show ?thesis
    using assms submit_with_completion_keeps [OF assms(1,2)] by (auto split: option.splits)
next
  case (SubmitCpu surface)
  then show ?thesis
    using assms submit_keeps [OF assms(1), of None "vr_store r"] by (fastforce split: option.splits)
next
  case CollectOldest
  then show ?thesis
    using assms collect_keeps [OF assms(1,2)] by (auto split: option.splits)
next
  case DrainQueue
  then show ?thesis
    using assms drain_keeps [OF _ refl assms(1,2)] by (fastforce split: option.splits)
next
  case CloseQueue
  then show ?thesis
    using assms close_keeps [OF assms(1,2)] by (auto split: option.splits)
qed

lemma vpl_steps_keep:
  assumes "queue_log cfg (vr_queue r) (vr_packets r)" "store_matches (held (vq_pending (vr_queue r))) (vr_store r)"
    and "vpl_steps (recording vpl) ops r = Some r'"
  shows "queue_log cfg (vr_queue r') (vr_packets r') \<and> store_matches (held (vq_pending (vr_queue r'))) (vr_store r')"
  using assms
proof (induction ops arbitrary: r)
  case (Cons op ops)
  then obtain r1 where first: "vpl_step (recording vpl) op r = Some r1" "vpl_steps (recording vpl) ops r1 = Some r'"
    by (auto split: option.splits)
  note kept = vpl_step_keeps [OF Cons.prems(1,2) first(1)]
  show ?case by (rule Cons.IH [OF kept [THEN conjunct1] kept [THEN conjunct2] first(2)])
qed simp

definition vpl_start :: "'v \<Rightarrow> u32 \<times> u32 \<times> u32 \<Rightarrow> nat \<Rightarrow> u32 \<Rightarrow> (nat \<Rightarrow> gpu_frame_core) \<Rightarrow> 'v vpl_run" where
  "vpl_start v cfg capacity async_depth frames =
     (case cfg of (codec, fps_num, fps_den) \<Rightarrow>
        \<lparr>vr_queue = new_vpl_queue v codec fps_num fps_den capacity async_depth,
         vr_store = \<lparr>st_completions = [], st_frames = frames\<rparr>, vr_packets = []\<rparr>)"

text \<open>
  C39. The Intel encoder's queue over any runtime and any sequence of submissions, collections, drains
  and a close. Every submission the runtime accepted is waited for exactly once, in the order of
  submission, and the ones not waited for yet are those the queue holds with their buffers; the packets
  are those of the collected bitstreams in that order; a completion is pending exactly while its
  submission is in the queue, so a surface is never given back before its SyncPoint was waited for; a
  closed queue holds nothing.
\<close>

theorem vpl_queue_ordered:
  fixes v :: 'v
  assumes "vpl_steps (recording vpl) ops (vpl_start (v, [], []) (codec, fps_num, fps_den) capacity depth frames) = Some r"
    and "vq_session (vr_queue r) = (v', accepted, synced)"
  shows "map snd accepted = map fst synced @ map pn_sync (vq_pending (vr_queue r)) \<and>
    map fst (drop (length synced) accepted) = map pn_buffer (vq_pending (vr_queue r)) \<and>
    (\<exists>collected closing. synced = collected @ closing \<and> (closing = [] \<or> vq_closed (vr_queue r)) \<and>
       vr_packets r = concat (map (packets_of codec fps_num fps_den) collected)) \<and>
    (\<forall>k. k < length (st_completions (vr_store r)) \<longrightarrow>
       (mc_status (st_completions (vr_store r) ! k) = CompletionPending) = (\<exists>p \<in> set (vq_pending (vr_queue r)). pn_completion p = Some k)) \<and>
    (vq_closed (vr_queue r) \<longrightarrow> vq_pending (vr_queue r) = [])"
proof -
  define r0 :: "('v \<times> vpl_record) vpl_run" where "r0 = vpl_start (v, [], []) (codec, fps_num, fps_den) capacity depth frames"
  have start: "queue_log (codec, fps_num, fps_den) (vr_queue r0) (vr_packets r0)"
    "store_matches (held (vq_pending (vr_queue r0))) (vr_store r0)"
    by (simp_all add: r0_def vpl_start_def new_vpl_queue_def queue_log_def store_matches_def)
  have log: "queue_log (codec, fps_num, fps_den) (vr_queue r) (vr_packets r)"
    and store: "store_matches (held (vq_pending (vr_queue r))) (vr_store r)"
    using vpl_steps_keep [OF start] assms(1) unfolding r0_def by blast+
  obtain gone where gone: "accepted = gone @ map (\<lambda>p. (pn_buffer p, pn_sync p)) (vq_pending (vr_queue r))"
      "map snd gone = map fst synced"
    using log assms(2) unfolding queue_log_def by auto
  have "length gone = length synced" using arg_cong [OF gone(2), of length] by simp
  then have buffers: "map snd accepted = map fst synced @ map pn_sync (vq_pending (vr_queue r))"
      "map fst (drop (length synced) accepted) = map pn_buffer (vq_pending (vr_queue r))"
    using gone by simp_all
  have member: "(k \<in> set (held ps)) = (\<exists>p \<in> set ps. pn_completion p = Some k)" for k ps
    by (induction ps) (auto split: option.splits)
  show ?thesis
    using buffers log store assms(2) unfolding queue_log_def store_matches_def member by auto
qed

text \<open>A runtime that encodes every surface to one byte, and three operations on it.\<close>

definition byte_runtime :: "unit vpl_encode" where
  "byte_runtime = \<lparr>vl_encode_async = (\<lambda>surface buffer max_length v.
       (case surface of None \<Rightarrow> (MFX_ERR_MORE_DATA, None) | Some _ \<Rightarrow> (MFX_ERR_NONE, Some buffer), v)),
     vl_sync = (\<lambda>sync v. (MFX_ERR_NONE, v)),
     vl_bitstream = (\<lambda>buffer v. \<lparr>vb_data = [of_nat (buffer + 65)], vb_offset = 0, vb_length = 1,
        vb_timestamp = of_nat buffer * 3600, vb_frame_type = 1\<rparr>)\<rparr>"

definition plain_surface :: vpl_surface where
  "plain_surface = \<lparr>vs_handle = 1, vs_timestamp = 0, vs_pixels = None\<rparr>"

definition byte_start :: "(unit \<times> vpl_record) vpl_run" where
  "byte_start = vpl_start ((), [], []) (MKVC_CODEC_AV1, 25, 1) 16 4 (\<lambda>_. new_core sample_gpu_desc (Some 0) True None NoResource)"

lemma byte_runtime_answers [simp]:
  "encode_when_ready (recording byte_runtime) (Some surface) b m (v, a, y) = Some ((MFX_ERR_NONE, Some b), (v, a @ [(b, b)], y))"
  "encode_when_ready (recording byte_runtime) None b m (v, a, y) = Some ((MFX_ERR_MORE_DATA, None), (v, a, y))"
  "sync_finished (recording byte_runtime) sync (v, a, y) = Some (MFX_ERR_NONE, (v, a,
     y @ [(sync, MFX_ERR_NONE, vl_bitstream byte_runtime (fst (a ! length y)) v)]))"
  "vl_bitstream (recording byte_runtime) b (v, a, y) = vl_bitstream byte_runtime b v"
  by (subst encode_when_ready.simps sync_finished.simps; simp add: recording_def byte_runtime_def)+
    (simp add: recording_def)

lemma byte_packet [simp]:
  "append_vpl_encoded_packet (vl_bitstream byte_runtime b v) MKVC_CODEC_AV1 25 1 packets =
     Some (ok, packets @ [\<lparr>ip_data = [of_nat (b + 65)], ip_pts = packet_pts (of_nat b * 3600) 25 1, ip_key = True\<rparr>])"
  by (simp add: append_vpl_encoded_packet_def byte_runtime_def read_block_def packet_span_def)

lemma byte_run:
  "\<exists>r. vpl_steps (recording byte_runtime) [SubmitGpu plain_surface 7, SubmitCpu plain_surface, DrainQueue] byte_start = Some r \<and>
     map fst (fst (snd (vq_session (vr_queue r)))) = [0, 1] \<and> map ip_data (vr_packets r) = [[65], [66]] \<and>
     length (st_completions (vr_store r)) = 1 \<and> vq_pending (vr_queue r) = []"
  by (simp add: byte_start_def vpl_start_def new_vpl_queue_def submit_with_completion_def vpl_submit_def Let_def
      vpl_drain.simps collect_all.simps vpl_pending_count_def vpl_collect_oldest_def resolve_completion_def)

theorem vpl_queue_ordered_witness:
  "\<exists>r v accepted synced collected.
     vpl_steps (recording byte_runtime) [SubmitGpu plain_surface 7, SubmitCpu plain_surface, DrainQueue] byte_start = Some r \<and>
     vq_session (vr_queue r) = (v, accepted, synced) \<and> map fst accepted = [0, 1] \<and> map fst synced = map snd accepted \<and>
     concat (map (packets_of MKVC_CODEC_AV1 25 1) collected) = vr_packets r \<and> map ip_data (vr_packets r) = [[65], [66]] \<and>
     mc_status (st_completions (vr_store r) ! 0) \<noteq> CompletionPending"
proof -
  obtain r where run: "vpl_steps (recording byte_runtime) [SubmitGpu plain_surface 7, SubmitCpu plain_surface, DrainQueue]
      byte_start = Some r" and r: "map fst (fst (snd (vq_session (vr_queue r)))) = [0, 1]"
      "map ip_data (vr_packets r) = [[65], [66]]" "length (st_completions (vr_store r)) = 1" "vq_pending (vr_queue r) = []"
    using byte_run by (elim exE conjE) (rule that)
  obtain v accepted synced where session: "vq_session (vr_queue r) = (v, accepted, synced)" by (metis prod.exhaust)
  note facts = vpl_queue_ordered [OF run [unfolded byte_start_def] session]
  have all: "map fst synced = map snd accepted"
    using conjunct1 [OF facts] r(4) by simp
  obtain collected where packets: "concat (map (packets_of MKVC_CODEC_AV1 25 1) collected) = vr_packets r"
    using facts by auto
  have "mc_status (st_completions (vr_store r) ! 0) \<noteq> CompletionPending"
    using facts [THEN conjunct2, THEN conjunct2, THEN conjunct2, THEN conjunct1] r(3,4) by simp
  moreover have "map fst accepted = [0, 1]" using r(1) session by simp
  ultimately show ?thesis using run session all packets r(2) by (intro exI conjI) assumption+
qed

section \<open>Timestamps through the hardware clock\<close>

text \<open>oneVPL counts in units of a ninety-thousandth of a second: what a frame index is turned into on
  submission (vpl_gpu_submission.cpp, vpl_cpu_input.cpp), and \<open>packet_pts\<close> back.\<close>

definition surface_timestamp :: "i64 \<Rightarrow> u32 \<Rightarrow> u32 \<Rightarrow> u64" where
  "surface_timestamp frame_pts fps_num fps_den = frame_pts * 90000 * ucast fps_den div ucast fps_num"

text \<open>Rounding a quotient down and multiplying back loses at most one.\<close>

lemma floor_there_and_back:
  fixes p r n :: nat
  assumes "0 < r" "0 < n" "n \<le> r"
  shows "(p * r div n) * n div r \<in> {p - 1, p}" "((p * r div n) * n div r = p) = (n dvd p * r)"
proof -
  define q where "q = p * r div n"
  have upper: "q * n \<le> p * r" unfolding q_def by simp
  have lower: "p * r < q * n + n"
    using dividend_less_div_times [of n "p * r"] assms by (simp add: q_def algebra_simps)
  have le: "q * n div r \<le> p"
    using upper assms by (metis div_le_mono nonzero_mult_div_cancel_right not_gr_zero)
  have ge: "p - 1 \<le> q * n div r"
  proof (cases p)
    case (Suc m)
    have "m * r \<le> q * n" using lower assms Suc by (simp add: algebra_simps)
    then show ?thesis using Suc assms by (simp add: less_eq_div_iff_mult_less_eq)
  qed simp
  show "(p * r div n) * n div r \<in> {p - 1, p}"
    using le ge unfolding q_def [symmetric] by auto
  show "((p * r div n) * n div r = p) = (n dvd p * r)"
  proof
    assume "(p * r div n) * n div r = p"
    then have "p * r \<le> q * n" unfolding q_def [symmetric] by (metis div_times_less_eq_dividend)
    with upper show "n dvd p * r" by (metis dvd_triv_right le_antisym)
  next
    assume "n dvd p * r"
    then show "(p * r div n) * n div r = p" using assms by simp
  qed
qed



end
