(* ===== verification/VplEncoder.thy ===== *)
theory VplEncoder
  imports VplQueue CpuFrame WebmIO
begin

text \<open>
  The Intel encoder around its queue: importing the surfaces of other devices' frames
  (src/gpu/intel/vpl_surface_import.cpp, intel_import_contract.hpp, vpl_imported_surface_tracker.cpp),
  the session with its parameters and device (vpl_encoder_runtime.cpp), the submission of GPU and CPU
  frames (vpl_gpu_submission.cpp, vpl_cpu_input.cpp), the encoder facade (intel_vpl_encoder.cpp), the
  sequences between restarts (vpl_encoder_sequence.cpp) and the WebM encoder (intel_webm_encoder.cpp,
  vpl_packet_muxer.cpp). The branches of Linux builds with oneVPL are modelled; frames are numbers into
  the store of VplQueue, and a C++ exception of a frame lease cannot arise behind a successful
  \<open>get_native_handle\<close>, so the model gives it no value.
\<close>

section \<open>Importing a surface\<close>

text \<open>What \<^verbatim>\<open>ImportFrameSurface\<close> answers: status, the surface if it made one, the flags it left.\<close>

record vpl_memory_interface =
  mi_major :: u32
  mi_minor :: u32
  mi_can_import :: bool

record 'v vpl_memory =
  vm_interface :: "'v \<Rightarrow> int \<times> vpl_memory_interface option"
  vm_import :: "u64 \<Rightarrow> u64 \<Rightarrow> 'v \<Rightarrow> (int \<times> u64 option \<times> bool \<times> bool) \<times> 'v" \<comment> \<open>display and surface; shared, copied\<close>
  vm_references :: "u64 \<Rightarrow> 'v \<Rightarrow> (u32 \<times> u32) option" \<comment> \<open>reference count and locks, if it can tell\<close>
  vm_release :: "u64 \<Rightarrow> 'v \<Rightarrow> 'v"
  vm_surface_for_encode :: "'v \<Rightarrow> (u64 \<times> nat \<times> bytes \<times> bytes) option \<times> 'v" \<comment> \<open>with pitch and memory\<close>
  vm_map :: "u64 \<Rightarrow> 'v \<Rightarrow> bool \<times> 'v"
  vm_unmap :: "u64 \<Rightarrow> 'v \<Rightarrow> bool \<times> 'v"

definition has_surface_import :: "vpl_memory_interface option \<Rightarrow> bool" where
  "has_surface_import iface = (case iface of None \<Rightarrow> False | Some m \<Rightarrow> mi_major m = 1 \<and> mi_can_import m)"

definition can_release_imported_surface :: "'v vpl_memory \<Rightarrow> 'v \<Rightarrow> u64 option \<Rightarrow> bool" where
  "can_release_imported_surface mem v surface =
     (case surface of None \<Rightarrow> False
      | Some s \<Rightarrow> (case vm_references mem s v of None \<Rightarrow> False
          | Some (references, locked) \<Rightarrow> references = 1 \<and> locked = 0))"

definition import_vpl_encode_surface ::
    "'v vpl_memory \<Rightarrow> gpu_frame_core \<Rightarrow> 'v \<Rightarrow> u64 outcome \<times> 'v" where
  "import_vpl_encode_surface mem frame v =
     (case get_native_handle frame of
        Inl st \<Rightarrow> (Inl st, v)
      | Inr native \<Rightarrow>
          (case vm_interface mem v of (memory_status, iface) \<Rightarrow>
             if memory_status \<noteq> MFX_ERR_NONE \<or> \<not> has_surface_import iface
             then (Inl (MKVC_ERROR_NOT_SUPPORTED,
                 ''oneVPL runtime does not expose external surface import (status='' @ to_string memory_status @
                 '', interface='' @ (case iface of None \<Rightarrow> ''null''
                   | Some m \<Rightarrow> to_string (uint (mi_major m)) @ ''.'' @ to_string (uint (mi_minor m))) @ '')''), v)
             else if gn_type native \<noteq> MKVC_GPU_NATIVE_VA_SURFACE \<or> gn_handles native ! 0 = 0 \<or>
                     gn_handles native ! 1 > 4294967295
             then (Inl (MKVC_ERROR_INVALID_ARGUMENT, ''oneVPL VA import requires a valid display and surface''), v)
             else (case vm_import mem (gn_handles native ! 0) (gn_handles native ! 1) v of
                     ((result, surface, shared, copied), v') \<Rightarrow>
                       if result \<noteq> MFX_ERR_NONE \<or> surface = None
                       then (Inl (if result = MFX_ERR_UNSUPPORTED then MKVC_ERROR_NOT_SUPPORTED else MKVC_ERROR_CODEC,
                                  ''oneVPL shared external surface import failed with status '' @ to_string result),
                             case surface of None \<Rightarrow> v' | Some s \<Rightarrow> vm_release mem s v')
                       else if \<not> shared \<or> copied
                       then (Inl (MKVC_ERROR_NOT_SUPPORTED, ''oneVPL external surface import would copy pixels''),
                             vm_release mem (the surface) v')
                       else (Inr (the surface), v'))))"

section \<open>The tracker of imported surfaces\<close>

record imported_input =
  ii_surface :: "u64 option"
  ii_frame :: nat \<comment> \<open>the frame its handle leases\<close>

record surface_tracker =
  tr_enforce_device_identity :: bool
  tr_device_identity :: u64
  tr_inputs :: "imported_input list"

abbreviation kMaxImportedInputs :: nat where "kMaxImportedInputs \<equiv> 64"

text \<open>The destructor of an imported input, and the lease of a frame's core going back.\<close>

definition release_lease_of :: "nat \<Rightarrow> gpu_store \<Rightarrow> gpu_store" where
  "release_lease_of f store =
     store\<lparr>st_frames := (st_frames store)(f := release_external (store_query store) (st_frames store f))\<rparr>"

definition drop_input :: "'v vpl_memory \<Rightarrow> imported_input \<Rightarrow> 'v \<times> gpu_store \<Rightarrow> 'v \<times> gpu_store" where
  "drop_input mem i w = (case w of (v, store) \<Rightarrow>
     (case ii_surface i of None \<Rightarrow> v | Some s \<Rightarrow> vm_release mem s v, release_lease_of (ii_frame i) store))"

fun retire_inputs ::
    "'v vpl_memory \<Rightarrow> imported_input list \<Rightarrow> 'v \<times> gpu_store \<Rightarrow> imported_input list \<times> 'v \<times> gpu_store" where
  "retire_inputs mem [] w = ([], w)"
| "retire_inputs mem (i # rest) w =
     (if can_release_imported_surface mem (fst w) (ii_surface i) then retire_inputs mem rest (drop_input mem i w)
      else (case retire_inputs mem rest w of (kept, w') \<Rightarrow> (i # kept, w')))"

definition validate_device :: "gpu_frame_core \<Rightarrow> surface_tracker \<Rightarrow> status" where
  "validate_device frame t =
     (if \<not> tr_enforce_device_identity t then ok
      else (case get_native_handle frame of
              Inl st \<Rightarrow> (MKVC_ERROR_INVALID_ARGUMENT, snd st)
            | Inr native \<Rightarrow>
                if (if gn_type native = MKVC_GPU_NATIVE_VA_SURFACE then gn_handles native ! 0 else 0) = tr_device_identity t
                then ok
                else (MKVC_ERROR_INVALID_ARGUMENT,
                      ''external Intel frame belongs to a different device/display; flush first'')))"

text \<open>\<open>wait_producer\<close> is what the wait on the frame's producer ends with. The surface, and whether it
  was imported.\<close>

definition acquire_surface ::
    "'v vpl_memory \<Rightarrow> (gpu_frame_core \<Rightarrow> status) \<Rightarrow> nat \<Rightarrow> surface_tracker \<Rightarrow> 'v \<times> gpu_store \<Rightarrow>
     ((u64 \<times> bool) outcome \<times> surface_tracker \<times> 'v \<times> gpu_store) option" where
  "acquire_surface mem wait_producer f t w =
     (case retire_inputs mem (tr_inputs t) w of (kept, v, store) \<Rightarrow>
        let t = t\<lparr>tr_inputs := kept\<rparr>; frame = st_frames store f; valid = validate_device frame t
        in if fst valid \<noteq> MKVC_OK then Some (Inl valid, t, v, store)
           else if fst (wait_producer frame) \<noteq> MKVC_OK then Some (Inl (wait_producer frame), t, v, store)
           else (case gc_resource frame of
                   IntelVplSurface s \<Rightarrow> Some (Inr (s, False), t, v, store)
                 | _ \<Rightarrow>
                     if length (tr_inputs t) \<ge> kMaxImportedInputs
                     then Some (Inl (MKVC_WOULD_BLOCK,
                            ''Intel imported surface retention limit reached; flush before retrying''), t, v, store)
                     else (case import_vpl_encode_surface mem frame v of
                             (Inl st, v') \<Rightarrow> Some (Inl st, t, v', store)
                           | (Inr s, v') \<Rightarrow>
                               (case make_handle (store_query store) True (Some frame) of
                                  (Returns (Some handle), Some frame') \<Rightarrow>
                                    Some (Inr (s, True), t\<lparr>tr_inputs := tr_inputs t @ [\<lparr>ii_surface = Some s, ii_frame = f\<rparr>]\<rparr>,
                                      v', store\<lparr>st_frames := (st_frames store)(f := frame')\<rparr>)
                                | _ \<Rightarrow> None))))"

definition retire :: "'v vpl_memory \<Rightarrow> surface_tracker \<Rightarrow> 'v \<times> gpu_store \<Rightarrow> surface_tracker \<times> 'v \<times> gpu_store" where
  "retire mem t w = (case retire_inputs mem (tr_inputs t) w of (kept, w') \<Rightarrow> (t\<lparr>tr_inputs := kept\<rparr>, w'))"

definition release_wrappers :: "'v vpl_memory \<Rightarrow> surface_tracker \<Rightarrow> 'v \<Rightarrow> surface_tracker \<times> 'v" where
  "release_wrappers mem t v =
     (t\<lparr>tr_inputs := map (\<lambda>i. i\<lparr>ii_surface := None\<rparr>) (tr_inputs t)\<rparr>,
      fold (\<lambda>i v. case ii_surface i of None \<Rightarrow> v | Some s \<Rightarrow> vm_release mem s v) (tr_inputs t) v)"

definition release_owners :: "'v vpl_memory \<Rightarrow> surface_tracker \<Rightarrow> 'v \<times> gpu_store \<Rightarrow> surface_tracker \<times> 'v \<times> gpu_store" where
  "release_owners mem t w = (t\<lparr>tr_inputs := []\<rparr>, fold (drop_input mem) (tr_inputs t) w)"

section \<open>The runtime\<close>

record vpl_runtime_config =
  rc_codec :: u32
  rc_width :: u32
  rc_height :: u32
  rc_fps_num :: u32
  rc_fps_den :: u32
  rc_quality :: u32
  rc_keyframe_interval_frames :: u32
  rc_async_depth :: u32

type_synonym u16 = "16 word"

record encode_parameters =
  ep_codec_id :: u32
  ep_codec_profile :: u16
  ep_codec_level :: u16
  ep_target_usage :: u16
  ep_rate_control_method :: u16
  ep_qp :: u16 \<comment> \<open>QPI, QPP and QPB\<close>
  ep_gop_pic_size :: u16
  ep_gop_ref_dist :: u16
  ep_frame_rate_n :: u32
  ep_frame_rate_d :: u32
  ep_four_cc :: u32
  ep_chroma_format :: u16
  ep_crop_w :: u16
  ep_crop_h :: u16
  ep_width :: u16
  ep_height :: u16
  ep_pic_struct :: u16
  ep_io_pattern :: u16
  ep_async_depth :: u16

abbreviation MFX_CODEC_VP9 :: u32 where "MFX_CODEC_VP9 \<equiv> 0x20395056"
abbreviation MFX_CODEC_AV1 :: u32 where "MFX_CODEC_AV1 \<equiv> 0x20315641"
abbreviation MFX_FOURCC_NV12 :: u32 where "MFX_FOURCC_NV12 \<equiv> 0x3231564E"
abbreviation MFX_IOPATTERN_IN_VIDEO_MEMORY :: u16 where "MFX_IOPATTERN_IN_VIDEO_MEMORY \<equiv> 1"
abbreviation MFX_IOPATTERN_IN_SYSTEM_MEMORY :: u16 where "MFX_IOPATTERN_IN_SYSTEM_MEMORY \<equiv> 2"

definition vpl_codec :: "u32 \<Rightarrow> u32" where
  "vpl_codec codec = (if codec = MKVC_CODEC_VP9 then MFX_CODEC_VP9 else MFX_CODEC_AV1)"

definition gop_size :: "u32 \<Rightarrow> u32 \<Rightarrow> u32 \<Rightarrow> u16" where
  "gop_size interval rate_num rate_den =
     (let default_gop = max 1 (ucast rate_num * 4 div ucast rate_den) :: u64
      in ucast (min (if interval = 0 then default_gop else ucast interval) 65535))"

text \<open>Main profiles, AV1 level 6.3, balanced usage, constant quantizers, progressive 4:2:0.\<close>

definition set_encode_parameters :: "vpl_runtime_config \<Rightarrow> bool \<Rightarrow> encode_parameters" where
  "set_encode_parameters config video_memory =
     \<lparr>ep_codec_id = vpl_codec (rc_codec config), ep_codec_profile = 1,
      ep_codec_level = (if rc_codec config = MKVC_CODEC_AV1 then 63 else 0),
      ep_target_usage = 4, ep_rate_control_method = 3, ep_qp = ucast (rc_quality config),
      ep_gop_pic_size = gop_size (rc_keyframe_interval_frames config) (rc_fps_num config) (rc_fps_den config),
      ep_gop_ref_dist = 1, ep_frame_rate_n = rc_fps_num config, ep_frame_rate_d = rc_fps_den config,
      ep_four_cc = MFX_FOURCC_NV12, ep_chroma_format = 1,
      ep_crop_w = ucast (rc_width config), ep_crop_h = ucast (rc_height config),
      ep_width = ucast ((rc_width config + 15) AND NOT 15), ep_height = ucast ((rc_height config + 15) AND NOT 15),
      ep_pic_struct = 1,
      ep_io_pattern = (if video_memory then MFX_IOPATTERN_IN_VIDEO_MEMORY else MFX_IOPATTERN_IN_SYSTEM_MEMORY),
      ep_async_depth = ucast (rc_async_depth config)\<rparr>"

text \<open>The dispatcher: whether it loads, which configurations can be made and set, the session it finds,
  and what its encode component answers. \<open>rp_actual\<close> is I/O pattern, buffer size and multiplier.\<close>

record 'v vpl_runtime_answers =
  rp_loads :: bool
  rp_configs :: bool
  rp_hardware_filter :: bool
  rp_codec_filter :: "u32 \<Rightarrow> bool"
  rp_device_filter :: "u64 \<Rightarrow> bool"
  rp_session :: "'v option"
  rp_query :: "encode_parameters \<Rightarrow> int \<times> encode_parameters"
  rp_init :: "encode_parameters \<Rightarrow> 'v \<Rightarrow> int \<times> 'v"
  rp_actual :: "'v \<Rightarrow> (u16 \<times> u16 \<times> u16) option"

record 'v vpl_runtime =
  vr_session :: 'v
  vr_external_device_owner :: "nat option"
  vr_external_device_identity :: u64

text \<open>The lease is taken before the filters are set, and given back with the runtime on a failure.\<close>

definition configure_external_device ::
    "'v vpl_runtime_answers \<Rightarrow> nat \<Rightarrow> gpu_store \<Rightarrow> ((string + u64) \<times> gpu_store) option" where
  "configure_external_device answers f store =
     (case get_native_handle (st_frames store f) of
        Inl st \<Rightarrow> Some (Inl (snd st), store)
      | Inr native \<Rightarrow>
          if gn_type native \<noteq> MKVC_GPU_NATIVE_VA_SURFACE \<or> gn_handles native ! 0 = 0
          then Some (Inl ''external Intel encoder requires a VA display/surface'', store)
          else (case make_handle (store_query store) True (Some (st_frames store f)) of
                  (Returns (Some handle), Some frame') \<Rightarrow>
                    let leased = store\<lparr>st_frames := (st_frames store)(f := frame')\<rparr>
                    in Some (if rp_device_filter answers (gn_handles native ! 0)
                             then (Inr (gn_handles native ! 0), leased)
                             else (Inl ''oneVPL external device configuration failed'', release_lease_of f leased))
                | _ \<Rightarrow> None))"

text \<open>Behind the device: session, parameters, initialization and the size of the bitstream buffers.\<close>

definition start_session ::
    "'v vpl_runtime_answers \<Rightarrow> vpl_runtime_config \<Rightarrow> bool \<Rightarrow> string + 'v \<times> nat" where
  "start_session answers config external =
     (case rp_session answers of
        None \<Rightarrow> Inl ''no matching Intel hardware encoder is available''
      | Some v \<Rightarrow>
          (case rp_query answers (set_encode_parameters config external) of (query_status, parameters) \<Rightarrow>
             if query_status < MFX_ERR_NONE
             then Inl (''oneVPL encoder Query failed with status '' @ to_string query_status)
             else (case rp_init answers parameters v of (init_status, v) \<Rightarrow>
               if init_status < MFX_ERR_NONE
               then Inl (''oneVPL encoder Init failed with status '' @ to_string init_status)
               else (case rp_actual answers v of
                       None \<Rightarrow> Inl ''oneVPL failed to report encoder parameters''
                     | Some (io_pattern, buffer_kb, multiplier) \<Rightarrow>
                         if external \<and> io_pattern \<noteq> MFX_IOPATTERN_IN_VIDEO_MEMORY
                         then Inl ''oneVPL external encoder did not preserve video-memory input''
                         else let capacity = max (unat buffer_kb * 1000 * unat (max 1 multiplier)) (1024 * 1024)
                         in if capacity > 4294967295 then Inl ''oneVPL bitstream buffer exceeds API limits''
                            else Inr (v, capacity)))))"

definition create_vpl_runtime ::
    "'v vpl_runtime_answers \<Rightarrow> vpl_runtime_config \<Rightarrow> nat option \<Rightarrow> gpu_store \<Rightarrow>
     ((string + 'v vpl_runtime \<times> nat) \<times> gpu_store) option" where
  "create_vpl_runtime answers config external_device_owner store =
     (if \<not> rp_loads answers then Some (Inl ''MFXLoad failed'', store)
      else if \<not> rp_configs answers then Some (Inl ''MFXCreateConfig failed'', store)
      else if \<not> rp_hardware_filter answers then Some (Inl ''oneVPL hardware filter failed'', store)
      else if \<not> rp_codec_filter answers (vpl_codec (rc_codec config))
      then Some (Inl ''oneVPL encoder codec filter failed'', store)
      else (case external_device_owner of
              None \<Rightarrow> Some (case start_session answers config False of
                  Inl e \<Rightarrow> (Inl e, store)
                | Inr (v, capacity) \<Rightarrow> (Inr (\<lparr>vr_session = v, vr_external_device_owner = None,
                    vr_external_device_identity = 0\<rparr>, capacity), store))
            | Some f \<Rightarrow>
                (case configure_external_device answers f store of
                   None \<Rightarrow> None
                 | Some (Inl e, store') \<Rightarrow> Some (Inl e, store')
                 | Some (Inr identity, store') \<Rightarrow>
                     Some (case start_session answers config True of
                         Inl e \<Rightarrow> (Inl e, release_lease_of f store')
                       | Inr (v, capacity) \<Rightarrow> (Inr (\<lparr>vr_session = v, vr_external_device_owner = Some f,
                           vr_external_device_identity = identity\<rparr>, capacity), store')))))"

section \<open>The encoder\<close>

record 'v intel_encoder =
  iv_runtime :: "'v vpl_runtime"
  iv_queue :: "'v vpl_queue"
  iv_tracker :: surface_tracker
  iv_codec :: u32
  iv_width :: u32
  iv_height :: u32
  iv_fps_num :: u32
  iv_fps_den :: u32
  iv_next_pts :: i64
  iv_drained :: bool
  iv_closed :: bool

text \<open>The libraries behind an encoder.\<close>

record 'v vpl =
  vp_encode :: "'v vpl_encode"
  vp_memory :: "'v vpl_memory"
  vp_runtime :: "'v vpl_runtime_answers"
  vp_wait_producer :: "gpu_frame_core \<Rightarrow> status"

definition create_intel_encoder ::
    "'v vpl \<Rightarrow> vpl_runtime_config \<Rightarrow> nat option \<Rightarrow> gpu_store \<Rightarrow> ((string + 'v intel_encoder) \<times> gpu_store) option" where
  "create_intel_encoder vpl c external_device_owner store =
     (if (rc_codec c \<noteq> MKVC_CODEC_VP9 \<and> rc_codec c \<noteq> MKVC_CODEC_AV1) \<or> rc_width c = 0 \<or> rc_height c = 0 \<or>
         rc_width c > 65520 \<or> rc_height c > 65520 \<or> rc_width c AND 1 \<noteq> 0 \<or> rc_height c AND 1 \<noteq> 0 \<or>
         rc_fps_num c = 0 \<or> rc_fps_den c = 0 \<or> rc_quality c > 63 \<or> rc_async_depth c = 0 \<or> rc_async_depth c > 8
      then Some (Inl ''invalid oneVPL encoder configuration'', store)
      else (case create_vpl_runtime (vp_runtime vpl) c external_device_owner store of
              None \<Rightarrow> None
            | Some (Inl e, store') \<Rightarrow> Some (Inl e, store')
            | Some (Inr (runtime, capacity), store') \<Rightarrow> Some (Inr
                \<lparr>iv_runtime = runtime,
                 iv_queue = new_vpl_queue (vr_session runtime) (rc_codec c) (rc_fps_num c) (rc_fps_den c) capacity (rc_async_depth c),
                 iv_tracker = \<lparr>tr_enforce_device_identity = vr_external_device_owner runtime \<noteq> None,
                   tr_device_identity = vr_external_device_identity runtime, tr_inputs = []\<rparr>,
                 iv_codec = rc_codec c, iv_width = rc_width c, iv_height = rc_height c, iv_fps_num = rc_fps_num c,
                 iv_fps_den = rc_fps_den c, iv_next_pts = 0, iv_drained = False, iv_closed = False\<rparr>, store')))"

text \<open>A submitted frame advances the encoder's clock.\<close>

definition advance_pts :: "i64 \<Rightarrow> 'v intel_encoder \<Rightarrow> 'v intel_encoder" where
  "advance_pts frame_pts e =
     e\<lparr>iv_next_pts := (if iv_next_pts e <s frame_pts + 1 then frame_pts + 1 else iv_next_pts e)\<rparr>"

text \<open>The surface's own timestamp is written for the submission and, unless it was imported, put back;
  only the submission reads it.\<close>

definition submit_gpu_surface ::
    "'v vpl \<Rightarrow> nat option \<Rightarrow> i64 \<Rightarrow> intel_packet list \<Rightarrow> 'v intel_encoder \<Rightarrow> gpu_store \<Rightarrow>
     (status \<times> intel_packet list \<times> 'v intel_encoder \<times> gpu_store) option" where
  "submit_gpu_surface vpl frame requested_pts packets e store =
     (if iv_closed e \<or> iv_drained e
      then Some ((MKVC_ERROR_INVALID_STATE, ''oneVPL encoder is closed or drained''), packets, e, store)
      else if (case frame of None \<Rightarrow> True | Some f \<Rightarrow>
         let desc = gc_desc (st_frames store f)
         in gd_backend desc \<noteq> MKVC_BACKEND_INTEL \<or> gd_pixel_format desc \<noteq> MKVC_PIXEL_FORMAT_NV12 \<or>
            gd_width desc \<noteq> iv_width e \<or> gd_height desc \<noteq> iv_height e)
      then Some ((MKVC_ERROR_INVALID_ARGUMENT, ''GPU frame is not a compatible Intel NV12 surface''), packets, e, store)
      else let f = the frame in
        (case acquire_surface (vp_memory vpl) (vp_wait_producer vpl) f (iv_tracker e) (vq_session (iv_queue e), store) of
           None \<Rightarrow> None
         | Some (acquired, t, v, store) \<Rightarrow>
             let e = e\<lparr>iv_queue := (iv_queue e)\<lparr>vq_session := v\<rparr>, iv_tracker := t\<rparr> in
             (case acquired of
                Inl st \<Rightarrow> Some (st, packets, e, store)
              | Inr (handle, imported) \<Rightarrow>
                  let frame_pts = (if 0 \<le>s requested_pts then requested_pts else iv_next_pts e);
                      surface = \<lparr>vs_handle = handle, vs_timestamp = surface_timestamp frame_pts (iv_fps_num e) (iv_fps_den e),
                                 vs_pixels = None\<rparr>;
                      k = length (st_completions store)
                  in (case submit_with_completion (vp_encode vpl) surface f (iv_queue e) store of
                        None \<Rightarrow> None
                      | Some (st, q, store) \<Rightarrow>
                          if fst st \<noteq> MKVC_OK \<and> fst st \<noteq> MKVC_END_OF_STREAM
                          then Some (st, packets, e\<lparr>iv_queue := q\<rparr>, store)
                          else let (added, core) = (if fst st = MKVC_OK then add_consumer (Some k) (st_frames store f)
                                                    else (ok, st_frames store f));
                                   store = store\<lparr>st_frames := (st_frames store)(f := core)\<rparr>
                          in if fst added \<noteq> MKVC_OK then Some (added, packets, e\<lparr>iv_queue := q\<rparr>, store)
                          else (case (if fst st = MKVC_OK \<and> vpl_pending_count q \<noteq> 0
                                      then vpl_collect_oldest (vp_encode vpl) packets q store
                                      else Some (st, packets, q, store)) of
                                  None \<Rightarrow> None
                                | Some (st, packets, q, store) \<Rightarrow>
                                    (case (if imported then retire (vp_memory vpl) (iv_tracker e) (vq_session q, store)
                                           else (iv_tracker e, vq_session q, store)) of (t, v, store) \<Rightarrow>
                                       let e = e\<lparr>iv_queue := q\<lparr>vq_session := v\<rparr>, iv_tracker := t\<rparr>
                                       in if fst st = MKVC_OK \<or> fst st = MKVC_END_OF_STREAM
                                          then Some (ok, packets, advance_pts frame_pts e, store)
                                          else Some (st, packets, e, store)))))))"

text \<open>Rows are copied into the mapped memory of a surface of the runtime.\<close>

definition submit_cpu_nv12 ::
    "'v vpl \<Rightarrow> bytes option \<Rightarrow> i32 \<Rightarrow> bytes option \<Rightarrow> i32 \<Rightarrow> i64 \<Rightarrow> intel_packet list \<Rightarrow> 'v intel_encoder \<Rightarrow> gpu_store \<Rightarrow>
     (status \<times> intel_packet list \<times> 'v intel_encoder \<times> gpu_store) option" where
  "submit_cpu_nv12 vpl y y_stride uv uv_stride pts packets e store =
     (let mem = vp_memory vpl; q = iv_queue e; w = unat (iv_width e); h = unat (iv_height e);
          session = (\<lambda>v. e\<lparr>iv_queue := q\<lparr>vq_session := v\<rparr>\<rparr>) in
      if y = None \<or> uv = None \<or> sint y_stride < sint (iv_width e) \<or> sint uv_stride < sint (iv_width e)
      then Some ((MKVC_ERROR_INVALID_ARGUMENT, ''invalid NV12 input''), packets, e, store)
      else (case vm_surface_for_encode mem (vq_session q) of
        (None, v) \<Rightarrow> Some ((MKVC_ERROR_CODEC, ''oneVPL failed to acquire an encode surface''), packets, session v, store)
      | (Some (s, pitch, luma, chroma), v) \<Rightarrow>
          (case vm_map mem s v of (mapped, v) \<Rightarrow>
             if \<not> mapped
             then Some ((MKVC_ERROR_CODEC, ''oneVPL failed to map an encode surface''), packets, session (vm_release mem s v), store)
             else (case (copy_plane_into luma 0 pitch (the y) y_stride w h, copy_plane_into chroma 0 pitch (the uv) uv_stride w (h div 2)) of
               (Some luma, Some chroma) \<Rightarrow>
                  let frame_pts = (if 0 \<le>s pts then pts else iv_next_pts e);
                      surface = \<lparr>vs_handle = s, vs_timestamp = surface_timestamp frame_pts (iv_fps_num e) (iv_fps_den e),
                                 vs_pixels = Some (luma, chroma)\<rparr>
                  in (case vm_unmap mem s v of (unmapped, v) \<Rightarrow>
                       if \<not> unmapped
                       then Some ((MKVC_ERROR_CODEC, ''oneVPL failed to unmap an encode surface''), packets, session (vm_release mem s v), store)
                       else (case vpl_submit (vp_encode vpl) (Some surface) None None (q\<lparr>vq_session := v\<rparr>) store of
                         None \<Rightarrow> None
                       | Some (st, q, store) \<Rightarrow>
                           let q = q\<lparr>vq_session := vm_release mem s (vq_session q)\<rparr>
                           in (case (if fst st = MKVC_OK \<and> vpl_pending_count q \<ge> unat (vq_async_depth q)
                                     then vpl_collect_oldest (vp_encode vpl) packets q store
                                     else Some (st, packets, q, store)) of
                                 None \<Rightarrow> None
                               | Some (st, packets, q, store) \<Rightarrow>
                                   if fst st = MKVC_OK \<or> fst st = MKVC_END_OF_STREAM
                                   then Some (ok, packets, advance_pts frame_pts (e\<lparr>iv_queue := q\<rparr>), store)
                                   else Some (st, packets, e\<lparr>iv_queue := q\<rparr>, store))))
               | _ \<Rightarrow> None))))"

definition intel_write_nv12 ::
    "'v vpl \<Rightarrow> bytes option \<Rightarrow> i32 \<Rightarrow> bytes option \<Rightarrow> i32 \<Rightarrow> i64 \<Rightarrow> 'v intel_encoder \<Rightarrow> gpu_store \<Rightarrow>
     (status \<times> intel_packet list \<times> 'v intel_encoder \<times> gpu_store) option" where
  "intel_write_nv12 vpl y y_stride uv uv_stride pts e store =
     (if iv_closed e \<or> iv_drained e
      then Some ((MKVC_ERROR_INVALID_STATE, ''oneVPL encoder is closed or drained''), [], e, store)
      else submit_cpu_nv12 vpl y y_stride uv uv_stride pts [] e store)"

definition intel_write_gpu_surface ::
    "'v vpl \<Rightarrow> nat option \<Rightarrow> i64 \<Rightarrow> 'v intel_encoder \<Rightarrow> gpu_store \<Rightarrow>
     (status \<times> intel_packet list \<times> 'v intel_encoder \<times> gpu_store) option" where
  "intel_write_gpu_surface vpl frame pts e store = submit_gpu_surface vpl frame pts [] e store"

definition intel_drain ::
    "'v vpl \<Rightarrow> 'v intel_encoder \<Rightarrow> gpu_store \<Rightarrow> (status \<times> intel_packet list \<times> 'v intel_encoder \<times> gpu_store) option" where
  "intel_drain vpl e store =
     (if iv_closed e \<or> iv_drained e then Some (ok, [], e, store)
      else (case vpl_drain (vp_encode vpl) [] (iv_queue e) store of
              None \<Rightarrow> None
            | Some (st, packets, q, store') \<Rightarrow>
                Some (if fst st \<noteq> MKVC_OK then (st, packets, e\<lparr>iv_queue := q\<rparr>, store')
                      else (ok, packets, e\<lparr>iv_queue := q, iv_drained := True\<rparr>, store'))))"

text \<open>Wrappers go before the runtime, the runtime before the frames they wrap; the runtime's own lease
  on the frame of its device goes with it.\<close>

definition intel_close :: "'v vpl \<Rightarrow> 'v intel_encoder \<Rightarrow> gpu_store \<Rightarrow> ('v intel_encoder \<times> gpu_store) option" where
  "intel_close vpl e store =
     (if iv_closed e then Some (e, store)
      else (case vpl_close_queue (vp_encode vpl) (iv_queue e) store of
              None \<Rightarrow> None
            | Some (q, store) \<Rightarrow>
                (case release_wrappers (vp_memory vpl) (iv_tracker e) (vq_session q) of (t, v) \<Rightarrow>
                 let store = (case vr_external_device_owner (iv_runtime e) of None \<Rightarrow> store
                              | Some f \<Rightarrow> release_lease_of f store)
                 in (case release_owners (vp_memory vpl) t (v, store) of (t, v, store) \<Rightarrow>
                       Some (e\<lparr>iv_queue := q\<lparr>vq_session := v\<rparr>, iv_tracker := t, iv_closed := True\<rparr>, store)))))"

definition intel_max_pending_observed :: "'v intel_encoder \<Rightarrow> u32" where
  "intel_max_pending_observed e = vq_max_pending (iv_queue e)"

section \<open>Sequences\<close>

record 'v vpl_sequence =
  sq_config :: vpl_runtime_config \<comment> \<open>its depth is the default, 4\<close>
  sq_encoder :: "'v intel_encoder option"
  sq_next_pts :: i64
  sq_frames_in_sequence :: u64
  sq_hardware_pending_peak :: u32
  sq_external_gpu_mode :: bool
  sq_closed :: bool

text \<open>Without an encoder, a call through it has no value.\<close>

definition create_sequence :: "'v vpl \<Rightarrow> vpl_runtime_config \<Rightarrow> gpu_store \<Rightarrow> ((string + 'v vpl_sequence) \<times> gpu_store) option" where
  "create_sequence vpl config store =
     (case create_intel_encoder vpl config None store of
        None \<Rightarrow> None
      | Some (Inl e, store') \<Rightarrow> Some (Inl e, store')
      | Some (Inr encoder, store') \<Rightarrow> Some (Inr \<lparr>sq_config = config, sq_encoder = Some encoder, sq_next_pts = 0,
          sq_frames_in_sequence = 0, sq_hardware_pending_peak = 0, sq_external_gpu_mode = False, sq_closed = False\<rparr>, store'))"

definition destroy_encoder :: "'v vpl \<Rightarrow> 'v vpl_sequence \<Rightarrow> gpu_store \<Rightarrow> ('v vpl_sequence \<times> gpu_store) option" where
  "destroy_encoder vpl s store =
     (case sq_encoder s of
        None \<Rightarrow> Some (s, store)
      | Some e \<Rightarrow>
          (case intel_close vpl e store of
             None \<Rightarrow> None
           | Some (_, store') \<Rightarrow> Some (s\<lparr>sq_encoder := None,
               sq_hardware_pending_peak := max (sq_hardware_pending_peak s) (intel_max_pending_observed e)\<rparr>, store')))"

definition sequence_write_nv12 ::
    "'v vpl \<Rightarrow> bytes option \<Rightarrow> i32 \<Rightarrow> bytes option \<Rightarrow> i32 \<Rightarrow> i64 \<Rightarrow> 'v vpl_sequence \<Rightarrow> gpu_store \<Rightarrow>
     (status \<times> intel_packet list \<times> 'v vpl_sequence \<times> gpu_store) option" where
  "sequence_write_nv12 vpl y y_stride uv uv_stride requested_pts s store =
     (if sq_closed s then Some ((MKVC_ERROR_INVALID_STATE, ''Intel encoder is closed''), [], s, store)
      else let frame_pts = (if 0 \<le>s requested_pts then requested_pts else sq_next_pts s) in
        (case sq_encoder s of None \<Rightarrow> None | Some e \<Rightarrow>
          (case intel_write_nv12 vpl y y_stride uv uv_stride frame_pts e store of
             None \<Rightarrow> None
           | Some (st, packets, e', store') \<Rightarrow>
               let s = s\<lparr>sq_encoder := Some e'\<rparr>
               in Some (if fst st \<noteq> MKVC_OK then (st, packets, s, store')
                        else (ok, packets, s\<lparr>sq_next_pts := (if sq_next_pts s <s frame_pts + 1 then frame_pts + 1 else sq_next_pts s),
                                sq_frames_in_sequence := sq_frames_in_sequence s + 1\<rparr>, store')))))"

text \<open>The adapter for the frame's device is made before the current encoder goes.\<close>

definition enter_external_mode ::
    "'v vpl \<Rightarrow> nat \<Rightarrow> 'v vpl_sequence \<Rightarrow> gpu_store \<Rightarrow> (status \<times> 'v vpl_sequence \<times> gpu_store) option" where
  "enter_external_mode vpl frame s store =
     (if sq_external_gpu_mode s then Some (ok, s, store)
      else if sq_frames_in_sequence s \<noteq> 0
      then Some ((MKVC_ERROR_INVALID_STATE, ''flush Intel writer before switching to external GPU input''), s, store)
      else (case create_intel_encoder vpl ((sq_config s)\<lparr>rc_async_depth := 4\<rparr>) (Some frame) store of
              None \<Rightarrow> None
            | Some (Inl e, store') \<Rightarrow> Some ((MKVC_ERROR_NOT_SUPPORTED, e), s, store')
            | Some (Inr adapter, store') \<Rightarrow>
                (case destroy_encoder vpl s store' of
                   None \<Rightarrow> None
                 | Some (s', store'') \<Rightarrow>
                     Some (ok, s'\<lparr>sq_encoder := Some adapter, sq_external_gpu_mode := True\<rparr>, store''))))"

definition sequence_write_gpu ::
    "'v vpl \<Rightarrow> nat \<Rightarrow> 'v vpl_sequence \<Rightarrow> gpu_store \<Rightarrow>
     (status \<times> intel_packet list \<times> 'v vpl_sequence \<times> gpu_store) option" where
  "sequence_write_gpu vpl frame s store =
     (if sq_closed s then Some ((MKVC_ERROR_INVALID_STATE, ''Intel encoder is closed''), [], s, store)
      else (case enter_external_mode vpl frame s store of
              None \<Rightarrow> None
            | Some (entered, s, store) \<Rightarrow>
                if fst entered \<noteq> MKVC_OK then Some (entered, [], s, store)
                else (case sq_encoder s of None \<Rightarrow> None | Some e \<Rightarrow>
                  (case intel_write_gpu_surface vpl (Some frame) (sq_next_pts s) e store of
                     None \<Rightarrow> None
                   | Some (st, packets, e', store') \<Rightarrow>
                       let s = s\<lparr>sq_encoder := Some e'\<rparr>
                       in Some (if fst st \<noteq> MKVC_OK then (st, packets, s, store')
                                else (ok, packets, s\<lparr>sq_next_pts := sq_next_pts s + 1,
                                        sq_frames_in_sequence := sq_frames_in_sequence s + 1\<rparr>, store'))))))"

definition sequence_flush ::
    "'v vpl \<Rightarrow> 'v vpl_sequence \<Rightarrow> gpu_store \<Rightarrow> (status \<times> intel_packet list \<times> 'v vpl_sequence \<times> gpu_store) option" where
  "sequence_flush vpl s store =
     (if sq_closed s \<or> (sq_frames_in_sequence s = 0 \<and> \<not> sq_external_gpu_mode s) then Some (ok, [], s, store)
      else (case sq_encoder s of None \<Rightarrow> None | Some e \<Rightarrow>
        (case intel_drain vpl e store of
           None \<Rightarrow> None
         | Some (st, packets, e', store') \<Rightarrow>
             (case destroy_encoder vpl (s\<lparr>sq_encoder := Some e'\<rparr>) store' of
                None \<Rightarrow> None
              | Some (s', store'') \<Rightarrow>
                  Some (st, packets, s'\<lparr>sq_frames_in_sequence := 0, sq_external_gpu_mode := False\<rparr>, store'')))))"

definition sequence_restart_cpu :: "'v vpl \<Rightarrow> 'v vpl_sequence \<Rightarrow> gpu_store \<Rightarrow> (status \<times> 'v vpl_sequence \<times> gpu_store) option" where
  "sequence_restart_cpu vpl s store =
     (if sq_closed s then Some ((MKVC_ERROR_INVALID_STATE, ''Intel encoder is closed''), s, store)
      else if sq_encoder s \<noteq> None then Some (ok, s, store)
      else (case create_intel_encoder vpl (sq_config s) None store of
              None \<Rightarrow> None
            | Some (Inl e, store') \<Rightarrow> Some ((MKVC_ERROR_CODEC, e), s, store')
            | Some (Inr encoder, store') \<Rightarrow> Some (ok, s\<lparr>sq_encoder := Some encoder\<rparr>, store')))"

definition sequence_close ::
    "'v vpl \<Rightarrow> 'v vpl_sequence \<Rightarrow> gpu_store \<Rightarrow> (status \<times> intel_packet list \<times> 'v vpl_sequence \<times> gpu_store) option" where
  "sequence_close vpl s store =
     (if sq_closed s then Some (ok, [], s, store)
      else (case (case sq_encoder s of
                    Some e \<Rightarrow> if 0 < sq_frames_in_sequence s
                       then map_option (\<lambda>(st, packets, e', store'). (st, packets, s\<lparr>sq_encoder := Some e'\<rparr>, store'))
                              (intel_drain vpl e store)
                       else Some (ok, [], s, store)
                  | None \<Rightarrow> Some (ok, [], s, store)) of
              None \<Rightarrow> None
            | Some (st, packets, s', store') \<Rightarrow>
                (case destroy_encoder vpl s' store' of
                   None \<Rightarrow> None
                 | Some (s'', store'') \<Rightarrow> Some (st, packets, s''\<lparr>sq_closed := True\<rparr>, store''))))"

definition sequence_max_pending_observed :: "'v vpl_sequence \<Rightarrow> u32" where
  "sequence_max_pending_observed s =
     max (sq_hardware_pending_peak s) (case sq_encoder s of None \<Rightarrow> 0 | Some e \<Rightarrow> intel_max_pending_observed e)"

section \<open>The WebM encoder\<close>

record packet_muxer =
  km_muxer :: webm_muxer
  km_fps_num :: u32
  km_fps_den :: u32

definition create_packet_muxer :: "muxer_setup \<Rightarrow> encoder_config \<Rightarrow> string + packet_muxer" where
  "create_packet_muxer setup config =
     (case create_muxer setup (ec_output_path config) (ec_codec config) (ec_fps_num config) (ec_fps_den config) of
        Inl e \<Rightarrow> Inl e
      | Inr m \<Rightarrow> Inr \<lparr>km_muxer = m, km_fps_num = ec_fps_num config, km_fps_den = ec_fps_den config\<rparr>)"

fun write_packets ::
    "(webm_muxer \<Rightarrow> bool \<times> bool) \<Rightarrow> intel_packet list \<Rightarrow> packet_muxer \<Rightarrow> status \<times> packet_muxer" where
  "write_packets accepts [] k = (ok, k)"
| "write_packets accepts (p # ps) k =
     (case accepts (km_muxer k) of (copied, added) \<Rightarrow>
       (case add_frame copied added (Some (ip_data p))
               (ip_pts p * ucast (km_fps_den k) * 1000000000 div ucast (km_fps_num k))
               (ucast (km_fps_den k) * 1000000000 div ucast (km_fps_num k)) (ip_key p) (km_muxer k) of
          (st, m) \<Rightarrow> if fst st \<noteq> MKVC_OK then (st, k\<lparr>km_muxer := m\<rparr>)
                     else write_packets accepts ps (k\<lparr>km_muxer := m\<rparr>)))"

record 'v intel_webm_encoder =
  iw_muxer :: packet_muxer
  iw_sequence :: "'v vpl_sequence"
  iw_width :: u32
  iw_height :: u32
  iw_closed :: bool
  iw_i420 :: bytes
  iw_nv12 :: bytes

definition create_intel_webm ::
    "'v vpl \<Rightarrow> muxer_setup \<Rightarrow> encoder_config \<Rightarrow> gpu_store \<Rightarrow> ((string + 'v intel_webm_encoder) \<times> gpu_store) option" where
  "create_intel_webm vpl setup config store =
     (case create_sequence vpl \<lparr>rc_codec = ec_codec config, rc_width = ec_width config, rc_height = ec_height config,
             rc_fps_num = ec_fps_num config, rc_fps_den = ec_fps_den config, rc_quality = ec_quality config,
             rc_keyframe_interval_frames = ec_keyframe_interval_frames config, rc_async_depth = 4\<rparr> store of
        None \<Rightarrow> None
      | Some (Inl e, store') \<Rightarrow> Some (Inl e, store')
      | Some (Inr s, store') \<Rightarrow>
          (case create_packet_muxer setup config of
             Inl e \<Rightarrow> map_option (\<lambda>(_, store''). (Inl e, store'')) (destroy_encoder vpl s store')
           | Inr k \<Rightarrow>
               let staging = unat (ucast (ec_width config) * ucast (ec_height config) * 3 div 2 :: u64)
               in Some (Inr \<lparr>iw_muxer = k, iw_sequence = s, iw_width = ec_width config, iw_height = ec_height config,
                    iw_closed = False, iw_i420 = replicate staging 0, iw_nv12 = replicate staging 0\<rparr>, store')))"

definition intel_webm_write ::
    "'v vpl \<Rightarrow> libyuv \<Rightarrow> (webm_muxer \<Rightarrow> bool \<times> bool) \<Rightarrow> frame_view \<Rightarrow> 'v intel_webm_encoder \<Rightarrow> gpu_store \<Rightarrow>
     (status \<times> 'v intel_webm_encoder \<times> gpu_store) option" where
  "intel_webm_write vpl yuv accepts frame e store =
     (if iw_closed e then Some ((MKVC_ERROR_INVALID_STATE, ''Intel encoder is closed''), e, store)
      else if fv_width frame \<noteq> iw_width e \<or> fv_height frame \<noteq> iw_height e
      then Some ((MKVC_ERROR_INVALID_ARGUMENT, ''frame dimensions do not match Intel encoder''), e, store)
      else (case convert_cpu_frame_to_nv12 yuv frame (iw_width e) (iw_height e) (iw_i420 e) (iw_nv12 e) (Some ''Intel'') of
              None \<Rightarrow> None
            | Some (st, i420, nv12) \<Rightarrow>
                let e = e\<lparr>iw_i420 := i420, iw_nv12 := nv12\<rparr> in
                if fst st \<noteq> MKVC_OK then Some (st, e, store)
                else let y_size = unat (iw_width e) * unat (iw_height e) in
                  (case sequence_write_nv12 vpl (Some nv12) (iw_width e) (Some (drop y_size nv12)) (iw_width e)
                          (fv_pts frame) (iw_sequence e) store of
                     None \<Rightarrow> None
                   | Some (st, packets, s, store') \<Rightarrow>
                       let e = e\<lparr>iw_sequence := s\<rparr> in
                       if fst st \<noteq> MKVC_OK then Some (st, e, store')
                       else (case write_packets accepts packets (iw_muxer e) of (st, k) \<Rightarrow>
                               Some (st, e\<lparr>iw_muxer := k\<rparr>, store')))))"

definition intel_webm_write_gpu ::
    "'v vpl \<Rightarrow> (webm_muxer \<Rightarrow> bool \<times> bool) \<Rightarrow> nat option \<Rightarrow> 'v intel_webm_encoder \<Rightarrow> gpu_store \<Rightarrow>
     (status \<times> 'v intel_webm_encoder \<times> gpu_store) option" where
  "intel_webm_write_gpu vpl accepts frame e store =
     (if iw_closed e then Some ((MKVC_ERROR_INVALID_STATE, ''Intel encoder is closed''), e, store)
      else if (case frame of None \<Rightarrow> True | Some f \<Rightarrow> gd_width (gc_desc (st_frames store f)) \<noteq> iw_width e \<or>
                 gd_height (gc_desc (st_frames store f)) \<noteq> iw_height e)
      then Some ((MKVC_ERROR_INVALID_ARGUMENT, ''GPU frame dimensions do not match Intel encoder''), e, store)
      else (case sequence_write_gpu vpl (the frame) (iw_sequence e) store of
              None \<Rightarrow> None
            | Some (st, packets, s, store') \<Rightarrow>
                let e = e\<lparr>iw_sequence := s\<rparr> in
                if fst st \<noteq> MKVC_OK then Some (st, e, store')
                else (case write_packets accepts packets (iw_muxer e) of (st, k) \<Rightarrow> Some (st, e\<lparr>iw_muxer := k\<rparr>, store'))))"

definition intel_webm_flush ::
    "'v vpl \<Rightarrow> (webm_muxer \<Rightarrow> bool \<times> bool) \<Rightarrow> 'v intel_webm_encoder \<Rightarrow> gpu_store \<Rightarrow>
     (status \<times> 'v intel_webm_encoder \<times> gpu_store) option" where
  "intel_webm_flush vpl accepts e store =
     (if iw_closed e then Some (ok, e, store)
      else (case sequence_flush vpl (iw_sequence e) store of
              None \<Rightarrow> None
            | Some (st, packets, s, store) \<Rightarrow>
                let e = e\<lparr>iw_sequence := s\<rparr> in
                if fst st \<noteq> MKVC_OK then Some (st, e, store)
                else (case write_packets accepts packets (iw_muxer e) of (st, k) \<Rightarrow>
                  let e = e\<lparr>iw_muxer := k\<rparr> in
                  if fst st \<noteq> MKVC_OK then Some (st, e, store)
                  else (case sequence_restart_cpu vpl (iw_sequence e) store of
                          None \<Rightarrow> None
                        | Some (st, s, store) \<Rightarrow> Some (st, e\<lparr>iw_sequence := s\<rparr>, store)))))"

definition intel_webm_close ::
    "'v vpl \<Rightarrow> (webm_muxer \<Rightarrow> bool \<times> bool) \<Rightarrow> bool \<Rightarrow> io_faults \<Rightarrow> disk \<Rightarrow> 'v intel_webm_encoder \<Rightarrow> gpu_store \<Rightarrow>
     (status \<times> disk \<times> 'v intel_webm_encoder \<times> gpu_store) option" where
  "intel_webm_close vpl accepts segment_ok io d e store =
     (if iw_closed e then Some (ok, d, e, store)
      else (case sequence_close vpl (iw_sequence e) store of
              None \<Rightarrow> None
            | Some (st, packets, s, store) \<Rightarrow>
                let e = e\<lparr>iw_sequence := s, iw_closed := True\<rparr> in
                if fst st \<noteq> MKVC_OK then Some (st, d, e, store)
                else (case write_packets accepts packets (iw_muxer e) of (st, k) \<Rightarrow>
                  if fst st \<noteq> MKVC_OK then Some (st, d, e\<lparr>iw_muxer := k\<rparr>, store)
                  else (case finalize_muxer segment_ok io d (km_muxer k) of (st, d', m) \<Rightarrow>
                    Some (st, d', e\<lparr>iw_muxer := k\<lparr>km_muxer := m\<rparr>\<rparr>, store)))))"

section \<open>When a sequence has its encoder\<close>

lemma destroy_encoder_gone:
  "destroy_encoder vpl s store = Some (s', store') \<Longrightarrow>
     sq_encoder s' = None \<and> sq_closed s' = sq_closed s \<and> sq_frames_in_sequence s' = sq_frames_in_sequence s"
  by (auto simp: destroy_encoder_def split: option.splits)

lemma sequence_write_keeps_encoder:
  "sequence_write_nv12 vpl y ys uv uvs pts s store = Some (st, ps, s', store') \<Longrightarrow>
     sq_closed s' = sq_closed s \<and> (sq_encoder s \<noteq> None \<longrightarrow> sq_encoder s' \<noteq> None)"
  by (auto simp: sequence_write_nv12_def Let_def split: if_splits option.splits)

lemma sequence_write_gpu_keeps_encoder:
  "sequence_write_gpu vpl f s store = Some (st, ps, s', store') \<Longrightarrow>
     sq_closed s' = sq_closed s \<and> (sq_encoder s \<noteq> None \<longrightarrow> sq_encoder s' \<noteq> None)"
  by (auto simp: sequence_write_gpu_def enter_external_mode_def Let_def dest!: destroy_encoder_gone
      split: if_splits option.splits sum.splits)

lemma sequence_flush_loses_encoder:
  assumes "sequence_flush vpl s store = Some (st, ps, s', store')" "\<not> sq_closed s"
    and "sq_frames_in_sequence s \<noteq> 0 \<or> sq_external_gpu_mode s"
  shows "sq_encoder s' = None \<and> \<not> sq_closed s'"
  using assms by (auto simp: sequence_flush_def Let_def dest!: destroy_encoder_gone split: if_splits option.splits)

lemma restart_brings_encoder:
  "sequence_restart_cpu vpl s store = Some (st, s', store') \<Longrightarrow> fst st = MKVC_OK \<Longrightarrow> sq_encoder s' \<noteq> None \<and> sq_closed s' = sq_closed s"
  by (auto simp: sequence_restart_cpu_def split: if_splits option.splits sum.splits)

text \<open>Calls of an application without a queue, with the results it sees.\<close>

datatype webm_call = WriteCpu frame_view | WriteGpu "nat option" | FlushWebm

definition webm_call_step ::
    "'v vpl \<Rightarrow> libyuv \<Rightarrow> (webm_muxer \<Rightarrow> bool \<times> bool) \<Rightarrow> webm_call \<Rightarrow> 'v intel_webm_encoder \<Rightarrow> gpu_store \<Rightarrow>
     (status \<times> 'v intel_webm_encoder \<times> gpu_store) option" where
  "webm_call_step vpl yuv accepts call e store =
     (case call of
        WriteCpu frame \<Rightarrow> intel_webm_write vpl yuv accepts frame e store
      | WriteGpu frame \<Rightarrow> intel_webm_write_gpu vpl accepts frame e store
      | FlushWebm \<Rightarrow> intel_webm_flush vpl accepts e store)"

fun webm_calls ::
    "'v vpl \<Rightarrow> libyuv \<Rightarrow> (webm_muxer \<Rightarrow> bool \<times> bool) \<Rightarrow> webm_call list \<Rightarrow> 'v intel_webm_encoder \<Rightarrow> gpu_store \<Rightarrow>
     (status list \<times> 'v intel_webm_encoder \<times> gpu_store) option" where
  "webm_calls vpl yuv accepts [] e store = Some ([], e, store)"
| "webm_calls vpl yuv accepts (call # calls) e store =
     (case webm_call_step vpl yuv accepts call e store of
        None \<Rightarrow> None
      | Some (st, e', store') \<Rightarrow>
          map_option (\<lambda>(sts, w). (st # sts, w)) (webm_calls vpl yuv accepts calls e' store'))"

definition encoder_present :: "'v intel_webm_encoder \<Rightarrow> bool" where
  "encoder_present e \<longleftrightarrow> \<not> iw_closed e \<and> \<not> sq_closed (iw_sequence e) \<and> sq_encoder (iw_sequence e) \<noteq> None"

lemma webm_step_keeps_encoder:
  assumes "encoder_present e" "webm_call_step vpl yuv accepts call e store = Some (st, e', store')"
    and "call = FlushWebm \<Longrightarrow> fst st = MKVC_OK"
  shows "encoder_present e'"
proof (cases call)
  case (WriteCpu frame)
  then show ?thesis
    using assms by (auto simp: webm_call_step_def intel_webm_write_def encoder_present_def Let_def
        dest!: sequence_write_keeps_encoder split: if_splits option.splits prod.splits)
next
  case (WriteGpu frame)
  then show ?thesis
    using assms by (auto simp: webm_call_step_def intel_webm_write_gpu_def encoder_present_def Let_def
        dest!: sequence_write_gpu_keeps_encoder split: if_splits option.splits prod.splits)
next
  case FlushWebm
  have closed: "sequence_flush vpl (iw_sequence e) store = Some (st1, ps, s1, store1) \<Longrightarrow> \<not> sq_closed (iw_sequence e) \<Longrightarrow>
      \<not> sq_closed s1" for st1 ps s1 store1
    by (auto simp: sequence_flush_def dest!: destroy_encoder_gone split: if_splits option.splits)
  show ?thesis
    using assms FlushWebm by (auto simp: webm_call_step_def intel_webm_flush_def encoder_present_def Let_def
        dest: restart_brings_encoder closed split: if_splits option.splits prod.splits)
qed

lemma encoder_present_while_flushes_succeed:
  assumes "encoder_present e" "webm_calls vpl yuv accepts calls e store = Some (sts, e', store')"
    and "\<forall>i < length calls. calls ! i = FlushWebm \<longrightarrow> fst (sts ! i) = MKVC_OK"
  shows "encoder_present e'"
  using assms
proof (induction calls arbitrary: e store sts)
  case (Cons call calls)
  obtain st e1 store1 sts1 where step: "webm_call_step vpl yuv accepts call e store = Some (st, e1, store1)"
    and rest: "webm_calls vpl yuv accepts calls e1 store1 = Some (sts1, e', store')" and sts: "sts = st # sts1"
    using Cons.prems(2) by (auto split: option.splits)
  have "call = FlushWebm \<Longrightarrow> fst st = MKVC_OK" using Cons.prems(3)[rule_format, of 0] sts by simp
  with Cons.prems(1) step have "encoder_present e1" by (rule webm_step_keeps_encoder)
  moreover have "\<forall>i < length calls. calls ! i = FlushWebm \<longrightarrow> fst (sts1 ! i) = MKVC_OK"
    using Cons.prems(3) sts by force
  ultimately show ?case using Cons.IH rest by blast
qed simp

text \<open>A flush that fails behind at least one frame leaves no encoder, and the next frame is written
  through a null pointer: the write has no value once the frame itself is acceptable.\<close>

theorem write_after_failed_flush:
  assumes present: "encoder_present e" and frames: "sq_frames_in_sequence (iw_sequence e) \<noteq> 0"
    and flush: "intel_webm_flush vpl accepts e store = Some (st, e', store')" and failed: "fst st \<noteq> MKVC_OK"
    and frame: "fv_width frame = iw_width e" "fv_height frame = iw_height e"
    and converted: "convert_cpu_frame_to_nv12 yuv frame (iw_width e) (iw_height e) (iw_i420 e) (iw_nv12 e) (Some ''Intel'') =
      Some (ok, i420, nv12)"
  shows "intel_webm_write vpl yuv accepts frame e' store' = None"
proof -
  obtain st1 ps s1 store1 where seq: "sequence_flush vpl (iw_sequence e) store = Some (st1, ps, s1, store1)"
    using flush present by (auto simp: intel_webm_flush_def encoder_present_def split: option.splits)
  have gone: "sq_encoder s1 = None" "\<not> sq_closed s1"
    using sequence_flush_loses_encoder [OF seq] present frames by (auto simp: encoder_present_def)
  have "sq_encoder (iw_sequence e') = None \<and> \<not> sq_closed (iw_sequence e') \<and> \<not> iw_closed e' \<and>
      iw_width e' = iw_width e \<and> iw_height e' = iw_height e \<and> iw_i420 e' = iw_i420 e \<and> iw_nv12 e' = iw_nv12 e"
    using flush present seq gone failed
    by (auto simp: intel_webm_flush_def encoder_present_def sequence_restart_cpu_def Let_def
        split: if_splits option.splits prod.splits sum.splits)
  then show ?thesis
    using frame converted by (simp add: intel_webm_write_def sequence_write_nv12_def Let_def)
qed

end
