(* ===== verification/Spec2Isabelle.thy ===== *)
theory Spec2Isabelle
  imports CApi Container Conversion ConversionPool CpuDecoderStream CpuEncoderFiles CpuFrame Decoder EncoderInvariants FramePool FrameSafety FrameTiming GpuExchange GpuPools VplEncoder WebmIO
begin

text \<open>
  A verification development for mkvcodec, a C++ library that encodes and decodes VP9 and AV1
  in WebM and Matroska files with bounded asynchronous pipelines (src/src/, include/mkvcodec/).
\<close>

end
